(* ===== verification/Prelude.thy ===== *)
theory Prelude
  imports Main "HOL-Library.Word" "HOL-Library.Monad_Syntax"
begin

text \<open>
  Shared vocabulary of the development: the C integer types as words, the byte orders in
  which the firmware lays integers out, checked array accesses, and the collections of
  simplification rules that the component theories fill and use.

  A C operation whose behaviour is undefined (an index outside its array, a float that does
  not fit the integer it is converted to) and a loop that does not return are the value
  \<open>None\<close>; every function that can do either has an \<open>option\<close> result.
\<close>

unbundle bit_operations_syntax

type_synonym u8 = "8 word"
type_synonym u16 = "16 word"
type_synonym u32 = "32 word"

text \<open>Rules that split integers into bytes and put them together.\<close>
named_theorems byte_simps

text \<open>Rules that compute the length of a serialised structure.\<close>
named_theorems layout_simps

section \<open>Byte order\<close>

text \<open>The STM32 is little endian: \<open>le16\<close> and \<open>le32\<close> are the bytes of an integer in memory.\<close>

definition le16 :: "u16 \<Rightarrow> u8 list" where
  "le16 w = [ucast w, ucast (drop_bit 8 w)]"

definition of_le16 :: "u8 \<Rightarrow> u8 \<Rightarrow> u16" where
  "of_le16 lo hi = ucast lo OR push_bit 8 (ucast hi)"

definition le32 :: "u32 \<Rightarrow> u8 list" where
  "le32 w = [ucast w, ucast (drop_bit 8 w), ucast (drop_bit 16 w), ucast (drop_bit 24 w)]"

definition of_le32 :: "u8 \<Rightarrow> u8 \<Rightarrow> u8 \<Rightarrow> u8 \<Rightarrow> u32" where
  "of_le32 a b c d =
     ucast a OR push_bit 8 (ucast b) OR push_bit 16 (ucast c) OR push_bit 24 (ucast d)"

text \<open>The idiom \<open>((x & 0x00FF) << 8) | ((x & 0xFF00) >> 8)\<close>, used to send a short high byte first.\<close>

definition swap16 :: "u16 \<Rightarrow> u16" where
  "swap16 x = push_bit 8 (x AND 0x00FF) OR drop_bit 8 (x AND 0xFF00)"

lemma length_le16 [simp, layout_simps]: "length (le16 w) = 2"
  by (simp add: le16_def)

lemma length_le32 [simp, layout_simps]: "length (le32 w) = 4"
  by (simp add: le32_def)

lemma of_le16_le16 [simp, byte_simps]: "of_le16 (ucast w) (ucast (drop_bit 8 w)) = w"
  by (rule bit_word_eqI) (auto simp: of_le16_def bit_simps)

lemma of_le32_le32 [simp, byte_simps]:
  "of_le32 (ucast w) (ucast (drop_bit 8 w)) (ucast (drop_bit 16 w)) (ucast (drop_bit 24 w)) = w"
proof (rule bit_word_eqI)
  fix n assume n: "n < LENGTH(32)"
  consider "n < 8" | "8 \<le> n" "n < 16" | "16 \<le> n" "n < 24" | "24 \<le> n" "n < 32"
    using n by fastforce
  then show "bit (of_le32 (ucast w) (ucast (drop_bit 8 w)) (ucast (drop_bit 16 w))
      (ucast (drop_bit 24 w))) n = bit w n"
    by cases (auto simp: of_le32_def bit_simps)
qed

lemma of_le16_lo [simp, byte_simps]: "ucast (of_le16 a b) = a"
  by (rule bit_word_eqI) (auto simp: of_le16_def bit_simps dest: bit_imp_le_length)

lemma of_le16_hi [simp, byte_simps]: "ucast (drop_bit 8 (of_le16 a b)) = b"
  by (rule bit_word_eqI) (auto simp: of_le16_def bit_simps dest: bit_imp_le_length)

lemma le16_of_le16 [simp, byte_simps]: "le16 (of_le16 a b) = [a, b]"
  by (simp add: le16_def)

lemma swap16_alt: "swap16 x = push_bit 8 x OR drop_bit 8 x"
proof -
  have lo: "(0x00FF :: u16) = mask 8" and hi: "(0xFF00 :: u16) = push_bit 8 (mask 8)"
    by (simp_all add: mask_numeral)
  show ?thesis
    unfolding swap16_def lo hi
    by (rule bit_word_eqI) (auto simp only: bit_or_iff bit_and_iff bit_push_bit_iff
        bit_drop_bit_eq bit_mask_iff o_def, auto dest: bit_imp_le_length)
qed

lemma swap16_swap16 [simp, byte_simps]: "swap16 (swap16 x) = x"
  by (rule bit_word_eqI) (auto simp: swap16_alt bit_simps dest: bit_imp_le_length)

lemma le16_swap16 [byte_simps]: "le16 (swap16 x) = rev (le16 x)"
proof -
  have "ucast (swap16 x) = (ucast (drop_bit 8 x) :: u8)"
    by (rule bit_word_eqI) (auto simp: swap16_alt bit_simps)
  moreover have "ucast (drop_bit 8 (swap16 x)) = (ucast x :: u8)"
    by (rule bit_word_eqI) (auto simp: swap16_alt bit_simps dest: bit_imp_le_length)
  ultimately show ?thesis by (simp add: le16_def)
qed

section \<open>Checked array accesses\<close>

definition rd :: "'a list \<Rightarrow> nat \<Rightarrow> 'a option" where
  "rd xs i = (if i < length xs then Some (xs ! i) else None)"

definition wr :: "'a list \<Rightarrow> nat \<Rightarrow> 'a \<Rightarrow> 'a list option" where
  "wr xs i v = (if i < length xs then Some (xs[i := v]) else None)"

text \<open>\<open>slice xs i n\<close> is the bytes a \<open>memcpy\<close> of \<open>n\<close> bytes from \<open>xs + i\<close> reads.\<close>

definition slice :: "'a list \<Rightarrow> nat \<Rightarrow> nat \<Rightarrow> 'a list option" where
  "slice xs i n = (if i + n \<le> length xs then Some (take n (drop i xs)) else None)"

text \<open>\<open>blit dst i src\<close> is the destination after a \<open>memcpy\<close> of all of \<open>src\<close> to \<open>dst + i\<close>.\<close>

definition blit :: "'a list \<Rightarrow> nat \<Rightarrow> 'a list \<Rightarrow> 'a list option" where
  "blit dst i src =
     (if i + length src \<le> length dst
      then Some (take i dst @ src @ drop (i + length src) dst) else None)"

lemma rd_Some [simp]: "i < length xs \<Longrightarrow> rd xs i = Some (xs ! i)"
  by (simp add: rd_def)

lemma rd_None_iff: "rd xs i = None \<longleftrightarrow> length xs \<le> i"
  by (auto simp: rd_def)

lemma wr_Some [simp]: "i < length xs \<Longrightarrow> wr xs i v = Some (xs[i := v])"
  by (simp add: wr_def)

lemma slice_Some [simp]: "i + n \<le> length xs \<Longrightarrow> slice xs i n = Some (take n (drop i xs))"
  by (simp add: slice_def)

lemma length_slice: "slice xs i n = Some ys \<Longrightarrow> length ys = n"
  by (auto simp: slice_def split: if_splits)

lemma length_blit: "blit dst i src = Some d \<Longrightarrow> length d = length dst"
  by (auto simp: blit_def split: if_splits)

lemma blit_nth:
  assumes "blit dst i src = Some d" and "k < length dst"
  shows "d ! k = (if i \<le> k \<and> k < i + length src then src ! (k - i) else dst ! k)"
  using assms by (auto simp: blit_def nth_append split: if_splits)

section \<open>Small facts on words and lists\<close>

lemma unat_of_nat_small [simp]: "n < 2 ^ LENGTH('a) \<Longrightarrow> unat (of_nat n :: 'a::len word) = n"
  by (simp add: unat_of_nat take_bit_nat_eq_self)

lemma ucast_of_nat_u32_u8: "(ucast (of_nat n :: u32) :: u8) = of_nat n"
  by (rule bit_word_eqI) (simp add: bit_simps)

lemma ucast_of_nat_u32_u16: "(ucast (of_nat n :: u32) :: u16) = of_nat n"
  by (rule bit_word_eqI) (simp add: bit_simps)

lemma drop_bit_of_nat_u32:
  assumes "n < 2 ^ 32"
  shows "drop_bit k (of_nat n :: u32) = of_nat (n div 2 ^ k)"
proof -
  have "n div 2 ^ k < 2 ^ 32"
    using assms by (meson div_le_dividend le_less_trans)
  have "unat (drop_bit k (of_nat n :: u32)) = drop_bit k (unat (of_nat n :: u32))"
    by (rule unat_drop_bit_eq)
  also have "\<dots> = n div 2 ^ k" using assms by (simp add: drop_bit_eq_div)
  also have "\<dots> = unat (of_nat (n div 2 ^ k) :: u32)"
    using \<open>n div 2 ^ k < 2 ^ 32\<close> by simp
  finally show ?thesis by (simp only: word_unat_eq_iff)
qed

lemma xor_eq_0: "v XOR w = 0 \<longleftrightarrow> v = w" for v w :: "'a::len word"
  by (metis xor.assoc xor_self_eq xor.left_neutral xor.right_neutral)

lemma xor_cancel: "v XOR u = w XOR u \<longleftrightarrow> v = w" for u v w :: "'a::len word"
  by (metis xor.assoc xor_self_eq xor.right_neutral)

lemma unat_ucast_up [simp]:
  fixes x :: "'a::len word"
  assumes "LENGTH('a) \<le> LENGTH('b)"
  shows "unat (ucast x :: 'b::len word) = unat x"
proof -
  have "(2::nat) ^ LENGTH('a) \<le> 2 ^ LENGTH('b)" using assms by (rule power_increasing) simp
  then have "unat x < 2 ^ LENGTH('b)" using unsigned_less [of x, where ?'a = nat] by linarith
  then show ?thesis by (simp add: unsigned_ucast_eq take_bit_nat_eq_self)
qed

lemma unat_ucast_small:
  "unat x < 2 ^ LENGTH('b) \<Longrightarrow> unat (ucast x :: 'b::len word) = unat x"
  by (simp add: unsigned_ucast_eq take_bit_nat_eq_self)

lemma those_map: "(\<And>x. x \<in> set xs \<Longrightarrow> g x = Some (f x)) \<Longrightarrow> those (map g xs) = Some (map f xs)"
  by (induction xs) simp_all

end
