(* ===== verification/Flash.thy ===== *)
theory Flash
  imports Prelude
begin

text \<open>
  The SPI flash driver HARDWARE/W25QXX/w25qxx.c. The chip is outside the program: \<open>spi\<close> is a
  parameter that, for one chip-select period, maps the chip and the bytes sent to the chip
  afterwards and the bytes received. Locale \<open>nor_flash\<close> states the data sheet of the W25Q128:
  reading, page programming (bits can only be cleared), sector and chip erase (all bits set), the
  write-enable latch and the busy bit, which is set for a finite number of polls.

  Locale \<open>byte_store\<close> is what the rest of the firmware needs, a memory of bytes. The driver's
  read-modify-erase-write cycle provides it on top of the chip (\<open>sublocale\<close> below).
\<close>

type_synonym 'c spi = "'c \<Rightarrow> u8 list \<Rightarrow> 'c \<times> u8 list"

section \<open>The driver\<close>

definition addr24 :: "u32 \<Rightarrow> u8 list" where
  "addr24 a = [ucast (drop_bit 16 a), ucast (drop_bit 8 a), ucast a]"

definition W25QXX_ReadSR :: "'c spi \<Rightarrow> 'c \<Rightarrow> 'c \<times> u8" where
  "W25QXX_ReadSR spi c = (let (c, rx) = spi c [0x05, 0xFF] in (c, rx ! 1))"

definition W25QXX_Write_SR :: "'c spi \<Rightarrow> 'c \<Rightarrow> u8 \<Rightarrow> 'c" where
  "W25QXX_Write_SR spi c sr = fst (spi c [0x01, sr])"

definition W25QXX_Write_Enable :: "'c spi \<Rightarrow> 'c \<Rightarrow> 'c" where
  "W25QXX_Write_Enable spi c = fst (spi c [0x06])"

definition W25QXX_Write_Disable :: "'c spi \<Rightarrow> 'c \<Rightarrow> 'c" where
  "W25QXX_Write_Disable spi c = fst (spi c [0x04])"

definition W25QXX_ReadID :: "'c spi \<Rightarrow> 'c \<Rightarrow> 'c \<times> u16" where
  "W25QXX_ReadID spi c =
     (let (c, rx) = spi c [0x90, 0x00, 0x00, 0x00, 0xFF, 0xFF];
          Temp = 0 OR push_bit 8 (ucast (rx ! 4)); Temp = Temp OR ucast (rx ! 5)
      in (c, Temp))"

definition W25QXX_Read :: "'c spi \<Rightarrow> 'c \<Rightarrow> u32 \<Rightarrow> u16 \<Rightarrow> 'c \<times> u8 list" where
  "W25QXX_Read spi c ReadAddr NumByteToRead =
     (let (c, rx) = spi c (0x03 # addr24 ReadAddr @ replicate (unat NumByteToRead) 0xFF)
      in (c, drop 4 rx))"

partial_function (option) W25QXX_Wait_Busy :: "'c spi \<Rightarrow> 'c \<Rightarrow> 'c option" where
  "W25QXX_Wait_Busy spi c =
     (let (c, sr) = W25QXX_ReadSR spi c
      in if sr AND 0x01 = 0x01 then W25QXX_Wait_Busy spi c else Some c)"

definition W25QXX_Write_Page :: "'c spi \<Rightarrow> 'c \<Rightarrow> u8 list \<Rightarrow> u32 \<Rightarrow> u16 \<Rightarrow> 'c option" where
  "W25QXX_Write_Page spi c pBuffer WriteAddr NumByteToWrite = do {
     data \<leftarrow> slice pBuffer 0 (unat NumByteToWrite);
     let c = W25QXX_Write_Enable spi c;
     let c = fst (spi c (0x02 # addr24 WriteAddr @ data));
     W25QXX_Wait_Busy spi c
   }"

partial_function (option) Write_NoCheck_loop ::
    "'c spi \<Rightarrow> 'c \<Rightarrow> u8 list \<Rightarrow> u32 \<Rightarrow> u16 \<Rightarrow> u16 \<Rightarrow> 'c option" where
  "Write_NoCheck_loop spi c pBuffer WriteAddr NumByteToWrite pageremain =
     Option.bind (W25QXX_Write_Page spi c pBuffer WriteAddr pageremain) (\<lambda>c.
     if NumByteToWrite = pageremain then Some c
     else let pBuffer = drop (unat pageremain) pBuffer;
              WriteAddr = WriteAddr + ucast pageremain;
              NumByteToWrite = NumByteToWrite - pageremain;
              pageremain = (if NumByteToWrite > 256 then 256 else NumByteToWrite)
          in Write_NoCheck_loop spi c pBuffer WriteAddr NumByteToWrite pageremain)"

definition W25QXX_Write_NoCheck :: "'c spi \<Rightarrow> 'c \<Rightarrow> u8 list \<Rightarrow> u32 \<Rightarrow> u16 \<Rightarrow> 'c option" where
  "W25QXX_Write_NoCheck spi c pBuffer WriteAddr NumByteToWrite =
     (let pageremain = ucast (256 - WriteAddr mod 256);
          pageremain = (if NumByteToWrite \<le> pageremain then NumByteToWrite else pageremain)
      in Write_NoCheck_loop spi c pBuffer WriteAddr NumByteToWrite pageremain)"

definition W25QXX_Erase_Chip :: "'c spi \<Rightarrow> 'c \<Rightarrow> 'c option" where
  "W25QXX_Erase_Chip spi c = do {
     let c = W25QXX_Write_Enable spi c;
     c \<leftarrow> W25QXX_Wait_Busy spi c;
     let c = fst (spi c [0xC7]);
     W25QXX_Wait_Busy spi c
   }"

definition W25QXX_Erase_Sector :: "'c spi \<Rightarrow> 'c \<Rightarrow> u32 \<Rightarrow> 'c option" where
  "W25QXX_Erase_Sector spi c Dst_Addr = do {
     let Dst_Addr = Dst_Addr * 4096;
     let c = W25QXX_Write_Enable spi c;
     c \<leftarrow> W25QXX_Wait_Busy spi c;
     let c = fst (spi c (0x20 # addr24 Dst_Addr));
     W25QXX_Wait_Busy spi c
   }"

text \<open>One turn of the loop of \<open>W25QXX_Write\<close>: bring one sector up to date.\<close>

definition Write_sector ::
    "'c spi \<Rightarrow> 'c \<Rightarrow> u8 list \<Rightarrow> u32 \<Rightarrow> u16 \<Rightarrow> u32 \<Rightarrow> u16 \<Rightarrow> 'c option" where
  "Write_sector spi c pBuffer secpos secoff WriteAddr secremain =
     (let (c, W25QXX_BUF) = W25QXX_Read spi c (secpos * 4096) 4096
      in if \<exists>b \<in> set (take (unat secremain) (drop (unat secoff) W25QXX_BUF)). b \<noteq> 0xFF then do {
           c \<leftarrow> W25QXX_Erase_Sector spi c secpos;
           src \<leftarrow> slice pBuffer 0 (unat secremain);
           W25QXX_BUF \<leftarrow> blit W25QXX_BUF (unat secoff) src;
           W25QXX_Write_NoCheck spi c W25QXX_BUF (secpos * 4096) 4096
         }
         else W25QXX_Write_NoCheck spi c pBuffer WriteAddr secremain)"

partial_function (option) Write_loop ::
    "'c spi \<Rightarrow> 'c \<Rightarrow> u8 list \<Rightarrow> u32 \<Rightarrow> u16 \<Rightarrow> u32 \<Rightarrow> u16 \<Rightarrow> u16 \<Rightarrow> 'c option" where
  "Write_loop spi c pBuffer secpos secoff WriteAddr NumByteToWrite secremain =
     Option.bind (Write_sector spi c pBuffer secpos secoff WriteAddr secremain) (\<lambda>c.
     if NumByteToWrite = secremain then Some c
     else let secpos = secpos + 1; secoff = 0;
              pBuffer = drop (unat secremain) pBuffer;
              WriteAddr = WriteAddr + ucast secremain;
              NumByteToWrite = NumByteToWrite - secremain;
              secremain = (if NumByteToWrite > 4096 then 4096 else NumByteToWrite)
          in Write_loop spi c pBuffer secpos secoff WriteAddr NumByteToWrite secremain)"

definition W25QXX_Write :: "'c spi \<Rightarrow> 'c \<Rightarrow> u8 list \<Rightarrow> u32 \<Rightarrow> u16 \<Rightarrow> 'c option" where
  "W25QXX_Write spi c pBuffer WriteAddr NumByteToWrite =
     (let secpos = WriteAddr div 4096;
          secoff = ucast (WriteAddr mod 4096);
          secremain = 4096 - secoff;
          secremain = (if NumByteToWrite \<le> secremain then NumByteToWrite else secremain)
      in Write_loop spi c pBuffer secpos secoff WriteAddr NumByteToWrite secremain)"

definition W25QXX_PowerDown :: "'c spi \<Rightarrow> 'c \<Rightarrow> 'c" where
  "W25QXX_PowerDown spi c = fst (spi c [0xB9])"

definition W25QXX_WAKEUP :: "'c spi \<Rightarrow> 'c \<Rightarrow> 'c" where
  "W25QXX_WAKEUP spi c = fst (spi c [0xAB])"

section \<open>Byte memories\<close>

definition mem_read :: "(nat \<Rightarrow> u8) \<Rightarrow> nat \<Rightarrow> nat \<Rightarrow> u8 list" where
  "mem_read m a n = map (\<lambda>i. m (a + i)) [0..<n]"

definition mem_write :: "(nat \<Rightarrow> u8) \<Rightarrow> nat \<Rightarrow> u8 list \<Rightarrow> nat \<Rightarrow> u8" where
  "mem_write m a bs = (\<lambda>x. if a \<le> x \<and> x < a + length bs then bs ! (x - a) else m x)"

text \<open>Programming a cell clears bits, it does not set them.\<close>

definition mem_program :: "(nat \<Rightarrow> u8) \<Rightarrow> nat \<Rightarrow> u8 list \<Rightarrow> nat \<Rightarrow> u8" where
  "mem_program m a bs = (\<lambda>x. if a \<le> x \<and> x < a + length bs then m x AND bs ! (x - a) else m x)"

lemma length_mem_read [simp, layout_simps]: "length (mem_read m a n) = n"
  by (simp add: mem_read_def)

lemma mem_read_nth [simp]: "i < n \<Longrightarrow> mem_read m a n ! i = m (a + i)"
  by (simp add: mem_read_def)

lemma mem_write_append: "mem_write (mem_write m a xs) (a + length xs) ys = mem_write m a (xs @ ys)"
  by (rule ext) (auto simp: mem_write_def nth_append)

lemma mem_program_append: "mem_program (mem_program m a xs) (a + length xs) ys = mem_program m a (xs @ ys)"
  by (rule ext) (auto simp: mem_program_def nth_append)

lemma mem_write_Nil [simp]: "mem_write m a [] = m"
  by (rule ext) (auto simp: mem_write_def)

lemma mem_read_write_same: "mem_read (mem_write m a bs) a (length bs) = bs"
  by (rule nth_equalityI) (simp_all add: mem_write_def)

lemma mem_read_write_other:
  "a + length bs \<le> b \<or> b + n \<le> a \<Longrightarrow> mem_read (mem_write m a bs) b n = mem_read m b n"
  by (rule nth_equalityI) (auto simp: mem_write_def)

text \<open>What a client of the store relies on.\<close>

locale byte_store =
  fixes read :: "'s \<Rightarrow> u32 \<Rightarrow> u16 \<Rightarrow> 's \<times> u8 list"
    and store :: "'s \<Rightarrow> u8 list \<Rightarrow> u32 \<Rightarrow> u16 \<Rightarrow> 's option"
    and content :: "'s \<Rightarrow> nat \<Rightarrow> u8"
    and idle :: "'s \<Rightarrow> bool"
  assumes read_law: "\<lbrakk>idle s; unat a + unat n \<le> 2 ^ 24\<rbrakk> \<Longrightarrow>
      \<exists>s'. read s a n = (s', mem_read (content s) (unat a) (unat n)) \<and> idle s' \<and> content s' = content s"
    and store_law: "\<lbrakk>idle s; 0 < unat n; unat a + unat n \<le> 2 ^ 24; unat n \<le> length bs\<rbrakk> \<Longrightarrow>
      \<exists>s'. store s bs a n = Some s' \<and> idle s' \<and> content s' = mem_write (content s) (unat a) (take (unat n) bs)"
begin

lemma read_back:
  assumes "idle s" and "0 < unat n" and "unat a + unat n \<le> 2 ^ 24" and "unat n \<le> length bs"
  shows "\<exists>s' s''. store s bs a n = Some s' \<and> read s' a n = (s'', take (unat n) bs) \<and> idle s''
      \<and> content s'' = content s'"
proof -
  obtain s' where s': "store s bs a n = Some s'" "idle s'"
    "content s' = mem_write (content s) (unat a) (take (unat n) bs)"
    using store_law [OF assms] by blast
  have l: "length (take (unat n) bs) = unat n" using assms(4) by simp
  obtain s'' where "read s' a n = (s'', mem_read (content s') (unat a) (unat n))" "idle s''"
    "content s'' = content s'"
    using read_law [OF s'(2) assms(3)] by blast
  then show ?thesis
    using s' mem_read_write_same [of "content s" "unat a" "take (unat n) bs", unfolded l] by simp
qed

lemma read_elsewhere:
  assumes "idle s" and "0 < unat n" and "unat a + unat n \<le> 2 ^ 24" and "unat n \<le> length bs"
    and "unat b + unat k \<le> 2 ^ 24" and "unat a + unat n \<le> unat b \<or> unat b + unat k \<le> unat a"
  shows "\<exists>s' s''. store s bs a n = Some s' \<and> read s' b k = (s'', snd (read s b k)) \<and> idle s''"
proof -
  obtain s' where s': "store s bs a n = Some s'" "idle s'"
    "content s' = mem_write (content s) (unat a) (take (unat n) bs)"
    using store_law [OF assms(1-4)] by blast
  obtain s'' where "read s' b k = (s'', mem_read (content s') (unat b) (unat k))" "idle s''"
    using read_law [OF s'(2) assms(5)] by blast
  moreover obtain t where "read s b k = (t, mem_read (content s) (unat b) (unat k))"
    using read_law [OF assms(1,5)] by blast
  moreover have "mem_read (content s') (unat b) (unat k) = mem_read (content s) (unat b) (unat k)"
    using assms(4,6) by (simp add: s'(3) mem_read_write_other min_absorb2)
  ultimately show ?thesis using s'(1) by simp
qed

end

section \<open>The chip\<close>

definition cell_addr :: "u8 \<Rightarrow> u8 \<Rightarrow> u8 \<Rightarrow> nat" where
  "cell_addr a2 a1 a0 = unat a2 * 65536 + unat a1 * 256 + unat a0"

text \<open>
  \<open>cells\<close> is the content, \<open>busy\<close> bounds the polls until the chip is idle again, \<open>wel\<close> is the
  write-enable latch.
\<close>

locale nor_flash =
  fixes spi :: "'c spi" and cells :: "'c \<Rightarrow> nat \<Rightarrow> u8" and busy :: "'c \<Rightarrow> nat" and wel :: "'c \<Rightarrow> bool"
  assumes status: "spi c [0x05, x] = (c', rx) \<Longrightarrow> (rx ! 1 AND 0x01 = 0x01 \<longleftrightarrow> busy c' \<noteq> 0) \<and>
      (busy c' \<noteq> 0 \<longrightarrow> busy c' < busy c) \<and> cells c' = cells c \<and> wel c' = wel c"
    and enable: "\<lbrakk>busy c = 0; spi c [0x06] = (c', rx)\<rbrakk> \<Longrightarrow> cells c' = cells c \<and> busy c' = 0 \<and> wel c'"
    and reading: "\<lbrakk>busy c = 0; spi c (0x03 # a2 # a1 # a0 # dummy) = (c', rx)\<rbrakk> \<Longrightarrow>
      cells c' = cells c \<and> busy c' = 0 \<and>
      drop 4 rx = map (\<lambda>i. cells c ((cell_addr a2 a1 a0 + i) mod 2 ^ 24)) [0..<length dummy]"
    and programming: "\<lbrakk>busy c = 0; wel c; unat a0 + length data \<le> 256;
        spi c (0x02 # a2 # a1 # a0 # data) = (c', rx)\<rbrakk> \<Longrightarrow>
      cells c' = mem_program (cells c) (cell_addr a2 a1 a0) data"
    and sector_erase: "\<lbrakk>busy c = 0; wel c; spi c [0x20, a2, a1, a0] = (c', rx)\<rbrakk> \<Longrightarrow>
      cells c' = (\<lambda>x. if x div 4096 = cell_addr a2 a1 a0 div 4096 then 0xFF else cells c x)"
    and chip_erase: "\<lbrakk>busy c = 0; wel c; spi c [0xC7] = (c', rx)\<rbrakk> \<Longrightarrow>
      cells c' = (\<lambda>x. if x < 2 ^ 24 then 0xFF else cells c x)"

lemma cell_addr_addr24:
  "cell_addr (ucast (drop_bit 16 a)) (ucast (drop_bit 8 a)) (ucast a) = unat (a :: u32) mod 2 ^ 24"
proof -
  define n where "n = unat a"
  have 1: "unat (ucast (drop_bit k a) :: u8) = n div 2 ^ k mod 256" for k
  proof -
    have "unat (drop_bit k a) = n div 2 ^ k"
      unfolding n_def by (simp only: unat_drop_bit_eq drop_bit_eq_div [where 'a = nat])
    then show ?thesis by (simp only: unsigned_ucast_eq take_bit_eq_mod) simp
  qed
  have "n mod 2 ^ 24 = n div 2 ^ 16 mod 256 * 65536 + n div 2 ^ 8 mod 256 * 256 + n mod 256"
  proof -
    have "n mod (256 * 65536) = 256 * (n div 256 mod 65536) + n mod 256"
      using mod_mult2_eq [of n 256 65536] by simp
    moreover have "n div 256 mod (256 * 256) = 256 * (n div 256 div 256 mod 256) + n div 256 mod 256"
      by (rule mod_mult2_eq)
    ultimately show ?thesis by (simp add: div_mult2_eq [symmetric])
  qed
  then show ?thesis using 1 [of 16] 1 [of 8] 1 [of 0] by (simp add: cell_addr_def n_def [symmetric])
qed

context nor_flash begin

lemma wait:
  "\<exists>c'. W25QXX_Wait_Busy spi c = Some c' \<and> cells c' = cells c \<and> busy c' = 0 \<and> wel c' = wel c"
proof (induction "busy c" arbitrary: c rule: less_induct)
  case less
  obtain c1 rx where s: "spi c [0x05, 0xFF] = (c1, rx)" by (cases "spi c [0x05, 0xFF]")
  have r: "W25QXX_ReadSR spi c = (c1, rx ! 1)" by (simp add: W25QXX_ReadSR_def s)
  note st = status [OF s]
  show ?case
  proof (cases "busy c1 = 0")
    case True
    then have "W25QXX_Wait_Busy spi c = Some c1"
      using st by (subst W25QXX_Wait_Busy.simps) (simp add: r)
    then show ?thesis using st True by simp
  next
    case False
    then have "W25QXX_Wait_Busy spi c = W25QXX_Wait_Busy spi c1"
      using st by (subst W25QXX_Wait_Busy.simps) (simp add: r)
    moreover obtain c' where "W25QXX_Wait_Busy spi c1 = Some c'"
      "cells c' = cells c1 \<and> busy c' = 0 \<and> wel c' = wel c1"
      using less [of c1] st False by blast
    ultimately show ?thesis using st by simp
  qed
qed

lemma write_enable:
  "busy c = 0 \<Longrightarrow> cells (W25QXX_Write_Enable spi c) = cells c \<and>
    busy (W25QXX_Write_Enable spi c) = 0 \<and> wel (W25QXX_Write_Enable spi c)"
  using enable [of c "fst (spi c [0x06])" "snd (spi c [0x06])"] by (simp add: W25QXX_Write_Enable_def)

lemma read_ok:
  assumes "busy c = 0" and "unat a + unat n \<le> 2 ^ 24"
  shows "\<exists>c'. W25QXX_Read spi c a n = (c', mem_read (cells c) (unat a) (unat n)) \<and> busy c' = 0 \<and> cells c' = cells c"
proof -
  obtain c' rx where s: "spi c (0x03 # addr24 a @ replicate (unat n) 0xFF) = (c', rx)"
    by fastforce
  note r = reading [OF assms(1) s [unfolded addr24_def, simplified]]
  have "map (\<lambda>i. cells c ((unat a mod 2 ^ 24 + i) mod 2 ^ 24)) [0..<unat n] = mem_read (cells c) (unat a) (unat n)"
    unfolding mem_read_def
  proof (rule map_cong [OF refl])
    fix i assume "i \<in> set [0..<unat n]"
    then have "unat a + i < 2 ^ 24" using assms(2) by simp
    then show "cells c ((unat a mod 2 ^ 24 + i) mod 2 ^ 24) = cells c (unat a + i)" by simp
  qed
  then show ?thesis
    using r cell_addr_addr24 [of a] by (simp add: W25QXX_Read_def s)
qed

lemma page_ok:
  assumes "busy c = 0" and "unat a mod 256 + unat n \<le> 256" and "unat a < 2 ^ 24" and "unat n \<le> length bs"
  shows "\<exists>c'. W25QXX_Write_Page spi c bs a n = Some c' \<and> busy c' = 0 \<and>
    cells c' = mem_program (cells c) (unat a) (take (unat n) bs)"
proof -
  let ?c1 = "W25QXX_Write_Enable spi c" and ?d = "take (unat n) bs"
  have c1: "cells ?c1 = cells c" "busy ?c1 = 0" "wel ?c1" using write_enable [OF assms(1)] by simp_all
  obtain c2 rx where s: "spi ?c1 (0x02 # addr24 a @ ?d) = (c2, rx)" by fastforce
  have "unat (ucast a :: u8) = unat a mod 256" by (simp add: unsigned_ucast_eq take_bit_eq_mod)
  then have "unat (ucast a :: u8) + length ?d \<le> 256" using assms(2,4) by simp
  from programming [OF c1(2,3) this s [unfolded addr24_def, simplified]]
  have "cells c2 = mem_program (cells c) (unat a) ?d"
    using c1(1) assms(3) by (simp only: cell_addr_addr24 mod_less)
  moreover obtain c3 where "W25QXX_Wait_Busy spi c2 = Some c3" "cells c3 = cells c2" "busy c3 = 0"
    using wait [of c2] by blast
  ultimately show ?thesis
    using assms(4) by (simp add: W25QXX_Write_Page_def s)
qed

lemma erase_sector_ok:
  assumes "busy c = 0" and "unat s < 4096"
  shows "\<exists>c'. W25QXX_Erase_Sector spi c s = Some c' \<and> busy c' = 0 \<and>
    cells c' = (\<lambda>x. if x div 4096 = unat s then 0xFF else cells c x)"
proof -
  let ?c1 = "W25QXX_Write_Enable spi c"
  have c1: "cells ?c1 = cells c" "busy ?c1 = 0" "wel ?c1" using write_enable [OF assms(1)] by simp_all
  obtain c2 where c2: "W25QXX_Wait_Busy spi ?c1 = Some c2" "cells c2 = cells ?c1" "busy c2 = 0" "wel c2 = wel ?c1"
    using wait [of ?c1] by blast
  obtain c3 rx where s: "spi c2 (0x20 # addr24 (s * 4096)) = (c3, rx)" by fastforce
  have "unat s * 4096 < 2 ^ 24" using assms(2) by simp
  then have "unat (s * 4096) = unat s * 4096" by (simp add: unat_word_ariths)
  then have "unat (s * 4096) mod 2 ^ 24 div 4096 = unat s" using \<open>unat s * 4096 < 2 ^ 24\<close> by simp
  then have "cells c3 = (\<lambda>x. if x div 4096 = unat s then 0xFF else cells c x)"
    using sector_erase [of c2 "ucast (drop_bit 16 (s * 4096))" "ucast (drop_bit 8 (s * 4096))" "ucast (s * 4096)" c3 rx]
      s c1 c2 by (simp only: cell_addr_addr24 addr24_def simp_thms)
  moreover obtain c4 where "W25QXX_Wait_Busy spi c3 = Some c4" "cells c4 = cells c3" "busy c4 = 0"
    using wait [of c3] by blast
  ultimately show ?thesis using c2 by (simp add: W25QXX_Erase_Sector_def Let_def s)
qed

lemma erase_chip_ok:
  assumes "busy c = 0"
  shows "\<exists>c'. W25QXX_Erase_Chip spi c = Some c' \<and> busy c' = 0 \<and>
    cells c' = (\<lambda>x. if x < 2 ^ 24 then 0xFF else cells c x)"
proof -
  let ?c1 = "W25QXX_Write_Enable spi c"
  have c1: "cells ?c1 = cells c" "wel ?c1" using write_enable [OF assms] by simp_all
  obtain c2 where c2: "W25QXX_Wait_Busy spi ?c1 = Some c2" "cells c2 = cells ?c1" "busy c2 = 0" "wel c2 = wel ?c1"
    using wait [of ?c1] by blast
  obtain c3 rx where s: "spi c2 [0xC7] = (c3, rx)" by fastforce
  have "cells c3 = (\<lambda>x. if x < 2 ^ 24 then 0xFF else cells c x)"
    using chip_erase [OF c2(3) _ s] c1(2) c2(4) unfolding c1(1) c2(2) by simp
  moreover obtain c4 where "W25QXX_Wait_Busy spi c3 = Some c4" "cells c4 = cells c3" "busy c4 = 0"
    using wait [of c3] by blast
  ultimately show ?thesis using c2 by (simp add: W25QXX_Erase_Chip_def Let_def s)
qed

end

text \<open>The page loop programs the whole range, one page at a time.\<close>

lemma page_split: "m \<le> n \<Longrightarrow> take n bs = take m bs @ take (n - m) (drop m bs)" for n :: nat
  by (metis le_add_diff_inverse take_add)

context nor_flash begin

lemma nocheck_loop_ok:
  "\<lbrakk>busy c = 0; unat pr \<le> unat n; unat a mod 256 + unat pr \<le> 256;
    pr \<noteq> n \<longrightarrow> 0 < unat pr \<and> unat a mod 256 + unat pr = 256;
    0 < unat n; unat a + unat n \<le> 2 ^ 24; unat n \<le> length bs\<rbrakk> \<Longrightarrow>
   \<exists>c'. Write_NoCheck_loop spi c bs a n pr = Some c' \<and> busy c' = 0 \<and>
     cells c' = mem_program (cells c) (unat a) (take (unat n) bs)"
proof (induction "unat n" arbitrary: c bs a n pr rule: less_induct)
  case less
  have a24: "unat a < 2 ^ 24" using less.prems by simp
  obtain c1 where c1: "W25QXX_Write_Page spi c bs a pr = Some c1" "busy c1 = 0"
    "cells c1 = mem_program (cells c) (unat a) (take (unat pr) bs)"
    using page_ok [OF less.prems(1,3) a24, of bs] less.prems by fastforce
  show ?case
  proof (cases "n = pr")
    case True
    then show ?thesis using c1 by (subst Write_NoCheck_loop.simps) simp
  next
    case False
    define n' a' where "n' = n - pr" and "a' = a + ucast pr"
    define pr' where "pr' = (if n' > 256 then 256 else n')"
    have pr: "0 < unat pr" "unat pr < unat n" "unat a mod 256 + unat pr = 256"
    proof -
      have "pr \<noteq> n" using False by simp
      then show "0 < unat pr" "unat a mod 256 + unat pr = 256" using less.prems(4) by simp_all
      have "unat pr \<noteq> unat n" using False by (simp only: word_unat_eq_iff)
      then show "unat pr < unat n" using less.prems(2) by linarith
    qed
    have n: "unat n' = unat n - unat pr"
      using pr by (simp add: n'_def unat_sub word_le_nat_alt)
    have "unat a + unat pr < 2 ^ 32" using less.prems pr by simp
    then have a: "unat a' = unat a + unat pr"
      by (simp add: a'_def unat_word_ariths unsigned_ucast_eq take_bit_nat_eq_self)
    have "unat a + unat pr = 256 * (unat a div 256) + (unat a mod 256 + unat pr)" by simp
    then have m0: "unat a' mod 256 = 0" by (simp only: a pr(3)) simp
    have p: "unat pr' \<le> unat n'" "unat pr' \<le> 256" "pr' \<noteq> n' \<longrightarrow> unat pr' = 256"
      by (auto simp: pr'_def word_less_nat_alt)
    have "\<exists>c'. Write_NoCheck_loop spi c1 (drop (unat pr) bs) a' n' pr' = Some c' \<and> busy c' = 0 \<and>
        cells c' = mem_program (cells c1) (unat a') (take (unat n') (drop (unat pr) bs))"
    proof (rule less.hyps)
      show "unat n' < unat n" "0 < unat n'" using n pr by simp_all
      show "busy c1 = 0" by (rule c1)
      show "unat pr' \<le> unat n'" by (rule p)
      show "unat a' mod 256 + unat pr' \<le> 256" using p(2) by (simp only: m0 add_0)
      show "pr' \<noteq> n' \<longrightarrow> 0 < unat pr' \<and> unat a' mod 256 + unat pr' = 256"
        using p(3) by (simp add: m0)
      show "unat a' + unat n' \<le> 2 ^ 24" using less.prems(6) a n pr(2) by linarith
      show "unat n' \<le> length (drop (unat pr) bs)" using less.prems(7) n by simp
    qed
    then obtain c' where "Write_NoCheck_loop spi c1 (drop (unat pr) bs) a' n' pr' = Some c'" "busy c' = 0"
      "cells c' = mem_program (cells c1) (unat a') (take (unat n') (drop (unat pr) bs))" by blast
    moreover have "Write_NoCheck_loop spi c bs a n pr = Write_NoCheck_loop spi c1 (drop (unat pr) bs) a' n' pr'"
      using False c1(1) by (subst Write_NoCheck_loop.simps) (simp add: Let_def n'_def a'_def pr'_def)
    moreover have "mem_program (cells c1) (unat a') (take (unat n') (drop (unat pr) bs))
      = mem_program (cells c) (unat a) (take (unat n) bs)"
      using mem_program_append [of "cells c" "unat a" "take (unat pr) bs"] page_split [of "unat pr" "unat n" bs]
        less.prems(7) pr by (simp add: c1(3) a n min_absorb2)
    ultimately show ?thesis by simp
  qed
qed

lemma nocheck_ok:
  assumes "busy c = 0" and "0 < unat n" and "unat a + unat n \<le> 2 ^ 24" and "unat n \<le> length bs"
  shows "\<exists>c'. W25QXX_Write_NoCheck spi c bs a n = Some c' \<and> busy c' = 0 \<and>
     cells c' = mem_program (cells c) (unat a) (take (unat n) bs)"
proof -
  have m: "unat (a mod 256) = unat a mod 256" by (simp add: unat_mod)
  have l: "unat a mod 256 < 256" by simp
  then have "a mod 256 \<le> 256" by (simp add: word_le_nat_alt m)
  then have "unat (256 - a mod 256) = 256 - unat a mod 256" by (simp add: unat_sub m)
  then have p: "unat (ucast (256 - a mod 256) :: u16) = 256 - unat a mod 256"
    by (simp add: unsigned_ucast_eq take_bit_nat_eq_self)
  let ?pr = "if n \<le> ucast (256 - a mod 256) then n else ucast (256 - a mod 256)"
  have "unat ?pr \<le> unat n" "unat a mod 256 + unat ?pr \<le> 256"
    "?pr \<noteq> n \<longrightarrow> 0 < unat ?pr \<and> unat a mod 256 + unat ?pr = 256"
    using l by (auto simp: word_le_nat_alt p)
  from nocheck_loop_ok [OF assms(1) this assms(2-4)]
  show ?thesis by (simp add: W25QXX_Write_NoCheck_def Let_def)
qed

end

text \<open>One sector: programming cleared cells, or a whole erased sector, is a plain write.\<close>

lemma and_erased [simp]: "0xFF AND w = w" for w :: u8
proof -
  have "(0xFF :: u8) = - 1" by simp
  then show ?thesis by (simp only: and.left_neutral)
qed

lemma program_erased:
  assumes "\<forall>x. a \<le> x \<and> x < a + length bs \<longrightarrow> m x = 0xFF"
  shows "mem_program m a bs = mem_write m a bs"
  using assms by (intro ext) (auto simp: mem_program_def mem_write_def)

lemma blit_sector:
  assumes "off + length bs \<le> 4096"
  shows "\<exists>buf. blit (mem_read m (s * 4096) 4096) off bs = Some buf \<and> length buf = 4096 \<and>
     mem_write (\<lambda>x. if x div 4096 = s then 0xFF else m x) (s * 4096) buf = mem_write m (s * 4096 + off) bs"
proof -
  obtain buf where b: "blit (mem_read m (s * 4096) 4096) off bs = Some buf"
    using assms by (auto simp: blit_def)
  then have l: "length buf = 4096" using length_blit [OF b] by simp
  have "mem_write (\<lambda>x. if x div 4096 = s then 0xFF else m x) (s * 4096) buf x
      = mem_write m (s * 4096 + off) bs x" for x
  proof (cases "s * 4096 \<le> x \<and> x < s * 4096 + 4096")
    case True
    then have k: "x - s * 4096 < 4096" by auto
    have "buf ! (x - s * 4096) = (if off \<le> x - s * 4096 \<and> x - s * 4096 < off + length bs
        then bs ! (x - s * 4096 - off) else m x)"
      using blit_nth [OF b, of "x - s * 4096"] k True by simp
    moreover have "s * 4096 + off \<le> x \<and> x < s * 4096 + off + length bs \<longleftrightarrow>
        off \<le> x - s * 4096 \<and> x - s * 4096 < off + length bs"
      using True by auto
    ultimately show ?thesis using True l by (simp add: mem_write_def diff_diff_left)
  next
    case False
    moreover have "x div 4096 \<noteq> s" using False by (auto simp: dividend_less_times_div mult.commute)
    moreover have "\<not> (s * 4096 + off \<le> x \<and> x < s * 4096 + off + length bs)"
      using False assms by auto
    ultimately show ?thesis using l by (auto simp: mem_write_def)
  qed
  then show ?thesis using b l by blast
qed

context nor_flash begin

lemma sector_ok:
  assumes c: "busy c = 0" and n: "0 < unat n" and a: "unat a = unat s * 4096 + unat off"
    and off: "unat off + unat n \<le> 4096" and s: "unat s < 4096" and l: "unat n \<le> length bs"
  shows "\<exists>c'. Write_sector spi c bs s off a n = Some c' \<and> busy c' = 0 \<and>
     cells c' = mem_write (cells c) (unat a) (take (unat n) bs)"
proof -
  have s4: "unat (s * 4096) = unat s * 4096" using s by (simp add: unat_word_ariths)
  have s24: "unat (s * 4096) + unat (4096 :: u16) \<le> 2 ^ 24" using s by (simp add: s4)
  obtain c1 where c1: "W25QXX_Read spi c (s * 4096) 4096 = (c1, mem_read (cells c) (unat s * 4096) 4096)"
    "busy c1 = 0" "cells c1 = cells c"
    using read_ok [OF c s24] by (auto simp: s4)
  let ?buf = "mem_read (cells c) (unat s * 4096) 4096"
  let ?t = "take (unat n) bs"
  have t: "length ?t = unat n" using l by simp
  show ?thesis
  proof (cases "\<exists>b \<in> set (take (unat n) (drop (unat off) ?buf)). b \<noteq> 0xFF")
    case True
    obtain c2 where c2: "W25QXX_Erase_Sector spi c1 s = Some c2" "busy c2 = 0"
      "cells c2 = (\<lambda>x. if x div 4096 = unat s then 0xFF else cells c1 x)"
      using erase_sector_ok [OF c1(2) s] by blast
    have "unat off + length ?t \<le> 4096" using off t by simp
    then obtain buf where buf: "blit ?buf (unat off) ?t = Some buf" "length buf = 4096"
      "mem_write (cells c2) (unat s * 4096) buf = mem_write (cells c) (unat s * 4096 + unat off) ?t"
      unfolding c2(3) c1(3) using blit_sector by blast
    obtain c3 where c3: "W25QXX_Write_NoCheck spi c2 buf (s * 4096) 4096 = Some c3" "busy c3 = 0"
      "cells c3 = mem_program (cells c2) (unat s * 4096) buf"
      using nocheck_ok [OF c2(2) _ s24, of buf] buf(2) by (auto simp: s4)
    have "mem_program (cells c2) (unat s * 4096) buf = mem_write (cells c2) (unat s * 4096) buf"
      by (rule program_erased) (auto simp: c2(3) buf(2) div_nat_eqI)
    then show ?thesis
      using True c3 c2(1) l by (simp add: Write_sector_def c1(1) buf a)
  next
    case False
    have a24: "unat a + unat n \<le> 2 ^ 24" using a off s by simp
    obtain c3 where c3: "W25QXX_Write_NoCheck spi c1 bs a n = Some c3" "busy c3 = 0"
      "cells c3 = mem_program (cells c1) (unat a) ?t"
      using nocheck_ok [OF c1(2) n a24 l] by blast
    have "mem_program (cells c1) (unat a) ?t = mem_write (cells c1) (unat a) ?t"
    proof (rule program_erased, intro allI impI)
      fix x assume x: "unat a \<le> x \<and> x < unat a + length ?t"
      then have "x - unat a < unat n" using t by (simp add: less_diff_conv2)
      then have "take (unat n) (drop (unat off) ?buf) ! (x - unat a) = cells c x"
        using off x by (simp add: a)
      moreover have "x - unat a < length (take (unat n) (drop (unat off) ?buf))"
        using \<open>x - unat a < unat n\<close> off by simp
      ultimately have "cells c x \<in> set (take (unat n) (drop (unat off) ?buf))" by (metis nth_mem)
      then show "cells c1 x = 0xFF" using False c1(3) by auto
    qed
    then show ?thesis using False c3 c1(3) by (auto simp: Write_sector_def c1(1))
  qed
qed

end

context nor_flash begin

lemma write_loop_ok:
  "\<lbrakk>busy c = 0; 0 < unat r; unat r \<le> unat n; unat off + unat r \<le> 4096;
    r \<noteq> n \<longrightarrow> unat off + unat r = 4096; unat a = unat s * 4096 + unat off;
    unat a + unat n \<le> 2 ^ 24; unat n \<le> length bs\<rbrakk> \<Longrightarrow>
   \<exists>c'. Write_loop spi c bs s off a n r = Some c' \<and> busy c' = 0 \<and>
     cells c' = mem_write (cells c) (unat a) (take (unat n) bs)"
proof (induction "unat n" arbitrary: c bs s off a n r rule: less_induct)
  case less
  have s: "unat s < 4096" using less.prems(2,3,6,7) by simp
  have l: "unat r \<le> length bs" using less.prems(3,8) by simp
  obtain c1 where c1: "Write_sector spi c bs s off a r = Some c1" "busy c1 = 0"
    "cells c1 = mem_write (cells c) (unat a) (take (unat r) bs)"
    using sector_ok [OF less.prems(1,2,6,4) s l] by blast
  show ?case
  proof (cases "n = r")
    case True
    then show ?thesis using c1 by (subst Write_loop.simps) simp
  next
    case False
    define n' a' where "n' = n - r" and "a' = a + ucast r"
    define r' where "r' = (if n' > 4096 then 4096 else n')"
    have "unat r \<noteq> unat n" using False by (simp only: word_unat_eq_iff)
    then have r: "unat r < unat n" using less.prems(3) by linarith
    have full: "unat off + unat r = 4096" using False less.prems(5) by simp
    have n: "unat n' = unat n - unat r" using r by (simp add: n'_def unat_sub word_le_nat_alt)
    have "unat a + unat r < 2 ^ 32" using less.prems(7) r by simp
    then have a: "unat a' = unat a + unat r"
      by (simp add: a'_def unat_word_ariths unsigned_ucast_eq take_bit_nat_eq_self)
    have s1: "unat (s + 1) = unat s + 1" using s by (simp add: unat_word_ariths)
    have r': "0 < unat r'" "unat r' \<le> unat n'" "unat r' \<le> 4096" "r' \<noteq> n' \<longrightarrow> unat r' = 4096"
      using n r by (auto simp: r'_def word_less_nat_alt)
    have "\<exists>c'. Write_loop spi c1 (drop (unat r) bs) (s + 1) 0 a' n' r' = Some c' \<and> busy c' = 0 \<and>
        cells c' = mem_write (cells c1) (unat a') (take (unat n') (drop (unat r) bs))"
    proof (rule less.hyps)
      show "unat n' < unat n" using n r less.prems(2) by simp
      show "busy c1 = 0" "0 < unat r'" "unat r' \<le> unat n'" by (rule c1 r')+
      show "unat (0 :: u16) + unat r' \<le> 4096" "r' \<noteq> n' \<longrightarrow> unat (0 :: u16) + unat r' = 4096"
        using r' by simp_all
      show "unat a' = unat (s + 1) * 4096 + unat (0 :: u16)"
        using full less.prems(6) by (simp add: a s1)
      show "unat a' + unat n' \<le> 2 ^ 24" using less.prems(7) a n r by linarith
      show "unat n' \<le> length (drop (unat r) bs)" using less.prems(8) n by simp
    qed
    then obtain c' where "Write_loop spi c1 (drop (unat r) bs) (s + 1) 0 a' n' r' = Some c'" "busy c' = 0"
      "cells c' = mem_write (cells c1) (unat a') (take (unat n') (drop (unat r) bs))" by blast
    moreover have "Write_loop spi c bs s off a n r = Write_loop spi c1 (drop (unat r) bs) (s + 1) 0 a' n' r'"
      using False c1(1) by (subst Write_loop.simps) (simp add: Let_def n'_def a'_def r'_def)
    moreover have "mem_write (cells c1) (unat a') (take (unat n') (drop (unat r) bs))
      = mem_write (cells c) (unat a) (take (unat n) bs)"
      using mem_write_append [of "cells c" "unat a" "take (unat r) bs"] page_split [of "unat r" "unat n" bs]
        less.prems(8) r by (simp add: c1(3) a n min_absorb2)
    ultimately show ?thesis by simp
  qed
qed

lemma write_ok:
  assumes "busy c = 0" and "0 < unat n" and "unat a + unat n \<le> 2 ^ 24" and "unat n \<le> length bs"
  shows "\<exists>c'. W25QXX_Write spi c bs a n = Some c' \<and> busy c' = 0 \<and>
     cells c' = mem_write (cells c) (unat a) (take (unat n) bs)"
proof -
  have m: "unat (a mod 4096) = unat a mod 4096" by (simp add: unat_mod)
  have d: "unat (a div 4096) = unat a div 4096" by (simp add: unat_div)
  have l: "unat a mod 4096 < 4096" by simp
  then have o: "unat (ucast (a mod 4096) :: u16) = unat a mod 4096"
    by (simp add: unsigned_ucast_eq take_bit_nat_eq_self m)
  then have "(ucast (a mod 4096) :: u16) \<le> 4096" by (simp add: word_le_nat_alt)
  then have r0: "unat (4096 - ucast (a mod 4096) :: u16) = 4096 - unat a mod 4096"
    by (simp add: unat_sub o)
  define r where "r = (if n \<le> 4096 - ucast (a mod 4096) then n else 4096 - ucast (a mod 4096))"
  have r: "0 < unat r" "unat r \<le> unat n" "unat (ucast (a mod 4096) :: u16) + unat r \<le> 4096"
    "r \<noteq> n \<longrightarrow> unat (ucast (a mod 4096) :: u16) + unat r = 4096"
    using l assms(2) by (auto simp: r_def word_le_nat_alt r0 o)
  have a: "unat a = unat (a div 4096) * 4096 + unat (ucast (a mod 4096) :: u16)"
    by (simp add: d o)
  show ?thesis
    using write_loop_ok [OF assms(1) r a assms(3,4)]
    by (simp add: W25QXX_Write_def Let_def r_def)
qed

end

sublocale nor_flash \<subseteq> byte_store "W25QXX_Read spi" "W25QXX_Write spi" cells "\<lambda>c. busy c = 0"
proof
  show "\<exists>s'. W25QXX_Read spi s a n = (s', mem_read (cells s) (unat a) (unat n)) \<and> busy s' = 0 \<and> cells s' = cells s"
    if "busy s = 0" and "unat a + unat n \<le> 2 ^ 24" for s a n
    using that by (rule read_ok)
  show "\<exists>s'. W25QXX_Write spi s bs a n = Some s' \<and> busy s' = 0 \<and>
      cells s' = mem_write (cells s) (unat a) (take (unat n) bs)"
    if "busy s = 0" and "0 < unat n" and "unat a + unat n \<le> 2 ^ 24" and "unat n \<le> length bs" for s a n bs
    using that by (rule write_ok)
qed

section \<open>A chip that keeps the data sheet\<close>

text \<open>
  The data sheet as a function, to show that the laws can be met and to run the driver: every
  program or erase command keeps the chip busy for three polls.
\<close>

record w25q =
  w_cells :: "nat \<Rightarrow> u8"
  w_busy :: nat
  w_wel :: bool

definition w25q_start :: "w25q \<Rightarrow> (nat \<Rightarrow> u8) \<Rightarrow> w25q" where
  "w25q_start c m =
     (if w_busy c = 0 \<and> w_wel c then c\<lparr>w_cells := m, w_busy := 3, w_wel := False\<rparr> else c)"

fun w25q_spi :: "w25q spi" where
  "w25q_spi c tx = (case tx of
     cmd # args \<Rightarrow>
       if cmd = 0x05 then
         (let b = w_busy c - 1 in (c\<lparr>w_busy := b\<rparr>, replicate (length tx) (if b = 0 then 0x00 else 0x01)))
       else if cmd = 0x06 then (c\<lparr>w_wel := True\<rparr>, [0xFF])
       else if cmd = 0xC7 then (w25q_start c (\<lambda>x. if x < 2 ^ 24 then 0xFF else w_cells c x), [0xFF])
       else (case args of
         a2 # a1 # a0 # data \<Rightarrow>
           if cmd = 0x03 then
             (c, replicate 4 0xFF @ map (\<lambda>i. w_cells c ((cell_addr a2 a1 a0 + i) mod 2 ^ 24)) [0..<length data])
           else if cmd = 0x02 then
             (w25q_start c (mem_program (w_cells c) (cell_addr a2 a1 a0) data), replicate (length tx) 0xFF)
           else if cmd = 0x20 then
             (w25q_start c (\<lambda>x. if x div 4096 = cell_addr a2 a1 a0 div 4096 then 0xFF else w_cells c x),
              replicate (length tx) 0xFF)
           else (c, replicate (length tx) 0xFF)
       | _ \<Rightarrow> (c, replicate (length tx) 0xFF))
   | [] \<Rightarrow> (c, []))"

interpretation w25q: nor_flash w25q_spi w_cells w_busy w_wel
  by unfold_locales (auto simp: w25q_start_def Let_def split: if_splits)

end
