(* ===== verification/BCD.thy ===== *)
theory BCD
  imports Prelude
begin

text \<open>
  Binary coded decimal: the one-byte conversions of PROTOCOL/protocol.c and HARDWARE/RTC/rtc.c,
  the BCD check, and the two digit loops of \<open>FloatoHex\<close> and \<open>HextoFloat\<close>. The specification is
  \<open>bcd_of\<close>, the number whose hexadecimal digits are the decimal digits of its argument.
\<close>

section \<open>One byte\<close>

definition BCDToInteger :: "u8 \<Rightarrow> u8" where
  "BCDToInteger src = (let temp = drop_bit 4 src; des = temp * 10 + (src AND 0x0f) in des)"

definition BCDTimeTodata :: "u8 \<Rightarrow> u8" where
  "BCDTimeTodata time = drop_bit 4 time * 10 + (time AND 0x0f)"

text \<open>\<open>JudegeBCD src len\<close> reads \<open>len\<close> bytes; \<open>None\<close> is a read past the end of the buffer.\<close>

fun JudegeBCD :: "u8 list \<Rightarrow> nat \<Rightarrow> int option" where
  "JudegeBCD src 0 = Some 0"
| "JudegeBCD [] (Suc len) = None"
| "JudegeBCD (temp # src) (Suc len) =
     (if 10 \<le> drop_bit 4 temp \<or> 10 \<le> temp AND 0x0f then Some (- 1) else JudegeBCD src len)"

section \<open>The digit loops\<close>

text \<open>\<open>for (i = 0; i < j; i++) single_dat *= 16;\<close>\<close>

fun scale16 :: "nat \<Rightarrow> u32 \<Rightarrow> u32" where
  "scale16 0 single_dat = single_dat"
| "scale16 (Suc j) single_dat = scale16 j (single_dat * 16)"

text \<open>The loop \<open>while (integer > 0)\<close> of \<open>FloatoHex\<close>; \<open>dest_data\<close> is a 32-bit int, kept as its bits.\<close>

function FloatoHex_digits :: "int \<Rightarrow> nat \<Rightarrow> u32 \<Rightarrow> u32" where
  "FloatoHex_digits integer j dest_data =
     (if integer > 0 then
        FloatoHex_digits (integer div 10) (Suc j)
          (dest_data + scale16 j (word_of_int (integer mod 10)))
      else dest_data)"
  by pat_completeness auto
termination
  by (relation "measure (\<lambda>(integer, j, dest_data). nat integer)") auto

declare FloatoHex_digits.simps [simp del]

text \<open>The loop over the bytes of \<open>HextoFloat\<close>, most significant byte first.\<close>

fun HextoFloat_acc :: "u8 list \<Rightarrow> int \<Rightarrow> int" where
  "HextoFloat_acc [] temp = temp"
| "HextoFloat_acc (b # src_buff) temp =
     (let high_ans = drop_bit 4 b AND 0x0f; low_ans = b AND 0x0f
      in HextoFloat_acc src_buff ((uint high_ans * 10 + uint low_ans) + temp * 100))"

text \<open>The casts that cut a store value into three or four bytes, most significant first.\<close>

definition store3 :: "u32 \<Rightarrow> u8 list" where
  "store3 w = [ucast (drop_bit 16 w), ucast (drop_bit 8 w), ucast w]"

definition store4 :: "u32 \<Rightarrow> u8 list" where
  "store4 w = [ucast (drop_bit 24 w), ucast (drop_bit 16 w), ucast (drop_bit 8 w), ucast w]"

lemma length_store3 [simp, layout_simps]: "length (store3 w) = 3"
  by (simp add: store3_def)

lemma length_store4 [simp, layout_simps]: "length (store4 w) = 4"
  by (simp add: store4_def)

section \<open>Specification\<close>

fun bcd_of :: "nat \<Rightarrow> nat" where
  "bcd_of n = (if n = 0 then 0 else n mod 10 + 16 * bcd_of (n div 10))"

declare bcd_of.simps [simp del]

definition bcd2 :: "nat \<Rightarrow> nat" where
  "bcd2 m = m div 10 * 16 + m mod 10"

lemma bcd_of_0 [simp]: "bcd_of 0 = 0"
  by (simp add: bcd_of.simps)

lemma bcd_of_step: "bcd_of n = n mod 10 + 16 * bcd_of (n div 10)"
  by (subst bcd_of.simps) simp

lemma bcd_of_step100: "bcd_of n = bcd2 (n mod 100) + 256 * bcd_of (n div 100)"
proof -
  have "bcd_of n = n mod 10 + 16 * (n div 10 mod 10 + 16 * bcd_of (n div 10 div 10))"
    by (subst bcd_of_step, subst bcd_of_step [of "n div 10"]) (rule refl)
  moreover have "n mod 100 div 10 = n div 10 mod 10"
    using mod_mult2_eq [of n 10 10] by simp
  moreover have "n mod 100 mod 10 = n mod 10"
    by (simp add: mod_mod_cancel)
  ultimately show ?thesis
    by (simp add: bcd2_def div_mult2_eq [symmetric])
qed

lemma bcd_of_bound: "n < 10 ^ k \<Longrightarrow> bcd_of n < 16 ^ k"
proof (induction k arbitrary: n)
  case 0
  then show ?case by simp
next
  case (Suc k)
  then have "bcd_of (n div 10) < 16 ^ k" by (simp add: less_mult_imp_div_less)
  then show ?case by (subst bcd_of_step) simp
qed

lemma bcd2_less: "m < 100 \<Longrightarrow> bcd2 m < 256"
proof -
  assume "m < 100"
  then have "m div 10 < 10" by (simp add: less_mult_imp_div_less)
  moreover have "m mod 10 < 10" by simp
  ultimately show ?thesis unfolding bcd2_def by linarith
qed

section \<open>The code meets the specification\<close>

lemma scale16_eq: "scale16 j x = x * 16 ^ j"
  by (induction j arbitrary: x) (simp_all add: mult.assoc)

lemma FloatoHex_digits_eq:
  "FloatoHex_digits (int n) j dest = dest + of_nat (bcd_of n * 16 ^ j)"
proof (induction n arbitrary: j dest rule: less_induct)
  case (less n)
  show ?case
  proof (cases "n = 0")
    case True
    then show ?thesis by (simp add: FloatoHex_digits.simps [of 0])
  next
    case False
    have d: "int n div 10 = int (n div 10)" and m: "int n mod 10 = int (n mod 10)"
      by (simp_all add: zdiv_int zmod_int)
    have "FloatoHex_digits (int n) j dest =
        FloatoHex_digits (int (n div 10)) (Suc j) (dest + scale16 j (word_of_int (int n mod 10)))"
      using False by (subst FloatoHex_digits.simps) (simp add: d)
    also have "\<dots> = dest + of_nat (n mod 10) * 16 ^ j + of_nat (bcd_of (n div 10) * 16 ^ Suc j)"
      using False by (subst less) (simp_all add: scale16_eq m)
    also have "\<dots> = dest + of_nat ((n mod 10 + 16 * bcd_of (n div 10)) * 16 ^ j)"
      by (simp only: of_nat_add of_nat_mult of_nat_power of_nat_numeral algebra_simps power_Suc)
    finally show ?thesis by (simp only: bcd_of_step [of n, symmetric])
  qed
qed

lemma FloatoHex_digits_nonpos: "i \<le> 0 \<Longrightarrow> FloatoHex_digits i j dest = dest"
  by (subst FloatoHex_digits.simps) simp

lemma unat_FloatoHex_digits:
  assumes "n < 10 ^ 8"
  shows "unat (FloatoHex_digits (int n) 0 0) = bcd_of n"
proof -
  have "bcd_of n < 2 ^ 32" using bcd_of_bound [OF assms] by simp
  then show ?thesis by (simp add: FloatoHex_digits_eq)
qed

lemma nibble_bcd2:
  assumes "m < 100"
  shows "drop_bit 4 (of_nat (bcd2 m) :: u8) = of_nat (m div 10)"
    and "(of_nat (bcd2 m) :: u8) AND 0x0f = of_nat (m mod 10)"
proof -
  have f: "(0x0f :: u8) = mask 4" by (simp add: mask_numeral)
  have b: "bcd2 m < 2 ^ LENGTH(8)" using bcd2_less [OF assms] by simp
  have "unat (drop_bit 4 (of_nat (bcd2 m) :: u8)) = drop_bit 4 (unat (of_nat (bcd2 m) :: u8))"
    by (rule unat_drop_bit_eq)
  also have "\<dots> = m div 10" unfolding unat_of_nat_small [OF b]
    by (simp add: drop_bit_eq_div bcd2_def)
  also have "\<dots> = unat (of_nat (m div 10) :: u8)" using assms by simp
  finally show "drop_bit 4 (of_nat (bcd2 m) :: u8) = of_nat (m div 10)"
    by (simp only: word_unat_eq_iff)
  have "unat ((of_nat (bcd2 m) :: u8) AND 0x0f) = take_bit 4 (unat (of_nat (bcd2 m) :: u8))"
    unfolding f take_bit_eq_mask [symmetric] by (rule unsigned_take_bit_eq)
  also have "\<dots> = m mod 10" unfolding unat_of_nat_small [OF b]
    by (simp add: take_bit_eq_mod bcd2_def)
  also have "\<dots> = unat (of_nat (m mod 10) :: u8)" by simp
  finally show "(of_nat (bcd2 m) :: u8) AND 0x0f = of_nat (m mod 10)"
    by (simp only: word_unat_eq_iff)
qed

lemma BCDToInteger_bcd2 [simp]: "m < 100 \<Longrightarrow> BCDToInteger (of_nat (bcd2 m)) = of_nat m"
proof -
  assume m: "m < 100"
  have "of_nat (m div 10) * 10 + of_nat (m mod 10) = (of_nat (m div 10 * 10 + m mod 10) :: u8)"
    by (simp only: of_nat_add of_nat_mult of_nat_numeral)
  then show ?thesis by (simp add: BCDToInteger_def nibble_bcd2 [OF m])
qed

lemma BCDTimeTodata_eq: "BCDTimeTodata b = BCDToInteger b"
  by (simp add: BCDTimeTodata_def BCDToInteger_def)

lemma JudegeBCD_iff:
  "n \<le> length bs \<Longrightarrow>
   JudegeBCD bs n = Some (if \<forall>b \<in> set (take n bs). drop_bit 4 b < 10 \<and> b AND 0x0f < 10 then 0 else - 1)"
  by (induction bs n rule: JudegeBCD.induct) (auto simp: not_le)

lemma JudegeBCD_overrun: "JudegeBCD bs n = None \<Longrightarrow> length bs < n"
  by (induction bs n rule: JudegeBCD.induct) (auto split: if_splits)

section \<open>Round trips\<close>

lemma bcd_of_byte: "(of_nat (bcd_of n) :: u8) = of_nat (bcd2 (n mod 100))"
proof -
  have "(of_nat (256 * bcd_of (n div 100)) :: u8) = 0"
    by (simp only: word_of_nat_eq_0_iff) simp
  then show ?thesis by (subst bcd_of_step100) (simp only: of_nat_add add_0_right)
qed

lemma bcd_of_div256: "bcd_of n div 256 = bcd_of (n div 100)"
proof -
  have "bcd2 (n mod 100) < 256" by (rule bcd2_less) simp
  then show ?thesis by (subst bcd_of_step100) simp
qed

lemma bcd_of_shift:
  "bcd_of n div 2 ^ 8 = bcd_of (n div 100)"
  "bcd_of n div 2 ^ 16 = bcd_of (n div 10000)"
  "bcd_of n div 2 ^ 24 = bcd_of (n div 1000000)"
proof -
  have 1: "bcd_of n div 256 div 256 = bcd_of (n div 100 div 100)"
    and 2: "bcd_of n div 256 div 256 div 256 = bcd_of (n div 100 div 100 div 100)"
    by (simp_all only: bcd_of_div256)
  show "bcd_of n div 2 ^ 8 = bcd_of (n div 100)" by (simp add: bcd_of_div256)
  show "bcd_of n div 2 ^ 16 = bcd_of (n div 10000)" using 1 by (simp add: div_mult2_eq [symmetric])
  show "bcd_of n div 2 ^ 24 = bcd_of (n div 1000000)" using 2 by (simp add: div_mult2_eq [symmetric])
qed

lemma bcd_byte_at:
  assumes "n < 10 ^ 8"
  shows "(ucast (drop_bit k (of_nat (bcd_of n) :: u32)) :: u8) = of_nat (bcd_of n div 2 ^ k)"
proof -
  have "bcd_of n < 2 ^ 32" using bcd_of_bound [OF assms] by simp
  then show ?thesis by (simp only: drop_bit_of_nat_u32 ucast_of_nat_u32_u8)
qed

lemma store4_bcd:
  assumes "n < 10 ^ 8"
  shows "store4 (of_nat (bcd_of n)) =
    map (of_nat \<circ> bcd2) [n div 1000000 mod 100, n div 10000 mod 100, n div 100 mod 100, n mod 100]"
  using bcd_byte_at [OF assms, of 24] bcd_byte_at [OF assms, of 16] bcd_byte_at [OF assms, of 8]
  by (simp add: store4_def bcd_of_shift [simplified] bcd_of_byte ucast_of_nat_u32_u8)

lemma store3_bcd:
  assumes "n < 10 ^ 6"
  shows "store3 (of_nat (bcd_of n)) =
    map (of_nat \<circ> bcd2) [n div 10000 mod 100, n div 100 mod 100, n mod 100]"
proof -
  have n8: "n < 10 ^ 8" using assms by simp
  show ?thesis
    using bcd_byte_at [OF n8, of 16] bcd_byte_at [OF n8, of 8]
    by (simp add: store3_def bcd_of_shift [simplified] bcd_of_byte ucast_of_nat_u32_u8)
qed

lemma nibbles_bcd2:
  assumes "m < 100"
  shows "uint (drop_bit 4 (of_nat (bcd2 m) :: u8) AND 0x0f) = int (m div 10)"
    and "uint ((of_nat (bcd2 m) :: u8) AND 0x0f) = int (m mod 10)"
proof -
  have d: "m div 10 < 16" using assms by simp
  have f: "(0x0f :: u8) = mask 4" by (simp add: mask_numeral)
  have "uint ((of_nat (m div 10) :: u8) AND mask 4) = take_bit 4 (uint (of_nat (m div 10) :: u8))"
    unfolding take_bit_eq_mask [symmetric] by (rule unsigned_take_bit_eq)
  also have "\<dots> = int (m div 10)" using d by (simp add: uint_nat take_bit_eq_mod)
  finally show "uint (drop_bit 4 (of_nat (bcd2 m) :: u8) AND 0x0f) = int (m div 10)"
    unfolding f nibble_bcd2 [OF assms] .
  show "uint ((of_nat (bcd2 m) :: u8) AND 0x0f) = int (m mod 10)"
    unfolding nibble_bcd2 [OF assms] by (simp add: uint_nat)
qed

lemma HextoFloat_acc_bcd2:
  assumes "m < 100"
  shows "HextoFloat_acc (of_nat (bcd2 m) # bs) t = HextoFloat_acc bs (int m + t * 100)"
proof -
  have "int (m div 10) * 10 + int (m mod 10) = int (m div 10 * 10 + m mod 10)"
    by (simp only: of_nat_add of_nat_mult of_nat_numeral)
  then show ?thesis by (simp only: HextoFloat_acc.simps Let_def nibbles_bcd2 [OF assms] div_mult_mod_eq)
qed

lemma JudegeBCD_bcd2:
  assumes "m < 100"
  shows "JudegeBCD (of_nat (bcd2 m) # bs) (Suc k) = JudegeBCD bs k"
proof -
  have d: "m div 10 < 10" using assms by simp
  then have "\<not> 10 \<le> (of_nat (m div 10) :: u8)" and "\<not> 10 \<le> (of_nat (m mod 10) :: u8)"
    by (simp_all add: word_le_nat_alt)
  then show ?thesis by (simp add: nibble_bcd2 [OF assms])
qed

lemma digits4: "n < 10 ^ 8 \<Longrightarrow>
    ((n div 1000000 mod 100 * 100 + n div 10000 mod 100) * 100 + n div 100 mod 100) * 100 + n mod 100 = (n::nat)"
proof -
  assume n: "n < 10 ^ 8"
  have s: "x div 100 * 100 + x mod 100 = x" for x :: nat by (rule div_mult_mod_eq)
  have "n div 10000 = n div 100 div 100" "n div 1000000 = n div 100 div 100 div 100"
    by (simp_all add: div_mult2_eq [symmetric])
  moreover have "n div 100 div 100 div 100 mod 100 = n div 100 div 100 div 100"
    using n by (simp add: div_mult2_eq [symmetric])
  ultimately show ?thesis by (simp only: s)
qed

lemma HextoFloat_acc_list:
  "\<forall>m \<in> set ms. m < 100 \<Longrightarrow>
   HextoFloat_acc (map (of_nat \<circ> bcd2) ms) t = fold (\<lambda>m t. int m + t * 100) ms t"
  by (induction ms arbitrary: t) (simp_all add: HextoFloat_acc_bcd2 del: HextoFloat_acc.simps(2))

lemma JudegeBCD_list:
  "\<forall>m \<in> set ms. m < 100 \<Longrightarrow> n = length ms \<Longrightarrow>
   JudegeBCD (map (of_nat \<circ> bcd2) ms) n = Some 0"
  by (induction ms arbitrary: n) (simp_all add: JudegeBCD_bcd2 del: JudegeBCD.simps(3))

lemma HextoFloat_acc_store4:
  assumes "n < 10 ^ 8"
  shows "HextoFloat_acc (store4 (of_nat (bcd_of n))) 0 = int n"
proof -
  have "int n = int (((n div 1000000 mod 100 * 100 + n div 10000 mod 100) * 100
      + n div 100 mod 100) * 100 + n mod 100)"
    by (simp only: digits4 [OF assms])
  moreover have "HextoFloat_acc (store4 (of_nat (bcd_of n))) 0 = fold (\<lambda>m t. int m + t * 100)
      [n div 1000000 mod 100, n div 10000 mod 100, n div 100 mod 100, n mod 100] 0"
    unfolding store4_bcd [OF assms] by (rule HextoFloat_acc_list) simp
  ultimately show ?thesis using assms by simp
qed

lemma HextoFloat_acc_store3:
  assumes "n < 10 ^ 6"
  shows "HextoFloat_acc (store3 (of_nat (bcd_of n))) 0 = int n"
proof -
  have z: "n div 1000000 mod 100 = 0" using assms by simp
  have "n < 10 ^ 8" using assms by simp
  from digits4 [OF this, unfolded z]
  have "int n = int ((n div 10000 mod 100 * 100 + n div 100 mod 100) * 100 + n mod 100)"
    by (simp only: mult_0 add_0)
  moreover have "HextoFloat_acc (store3 (of_nat (bcd_of n))) 0 = fold (\<lambda>m t. int m + t * 100)
      [n div 10000 mod 100, n div 100 mod 100, n mod 100] 0"
    unfolding store3_bcd [OF assms] by (rule HextoFloat_acc_list) simp
  ultimately show ?thesis using assms by simp
qed

lemma JudegeBCD_store4:
  assumes "n < 10 ^ 8"
  shows "JudegeBCD (store4 (of_nat (bcd_of n))) 4 = Some 0"
  unfolding store4_bcd [OF assms] by (rule JudegeBCD_list) simp_all

lemma JudegeBCD_store3:
  assumes "n < 10 ^ 6"
  shows "JudegeBCD (store3 (of_nat (bcd_of n))) 3 = Some 0"
  unfolding store3_bcd [OF assms] by (rule JudegeBCD_list) simp_all

end
