(* ===== verification/CFloat.thy ===== *)
theory CFloat
  imports Complex_Main "HOL-Library.Log_Nat" BCD
begin

text \<open>
  The \<open>float\<close> and \<open>double\<close> arithmetic of the firmware, and the conversions between floats
  and BCD of PROTOCOL/protocol.c that use it. A float is the rational number it denotes; an
  operation computes the exact result and rounds it to 24 (float) or 53 (double) significant
  bits, to nearest with ties to even, as IEEE 754 prescribes. Exponents are unbounded: the
  values of the firmware lie between 1/100 and 10 to the 9th, far from overflow and
  subnormals, and none of its operations yields an infinity or a NaN.
\<close>

section \<open>Rounding\<close>

definition fexp :: "rat \<Rightarrow> int" where
  "fexp x = (case quotient_of \<bar>x\<bar> of (n, d) \<Rightarrow>
     (let k = bitlen n - bitlen d in if 2 powi k \<le> \<bar>x\<bar> then k else k - 1))"

definition rne :: "rat \<Rightarrow> int" where
  "rne y = (let f = \<lfloor>y\<rfloor>; r = y - of_int f
            in if r < 1 / 2 then f else if 1 / 2 < r then f + 1 else if even f then f else f + 1)"

definition rnd :: "nat \<Rightarrow> rat \<Rightarrow> rat" where
  "rnd p x = (if x = 0 then 0
     else (let u = 2 powi (fexp x - (int p - 1)) in of_int (rne (x / u)) * u))"

abbreviation f32 :: "rat \<Rightarrow> rat" where "f32 \<equiv> rnd 24"
abbreviation f64 :: "rat \<Rightarrow> rat" where "f64 \<equiv> rnd 53"

text \<open>Conversions to integers truncate; a value out of range is undefined behaviour.\<close>

definition ctrunc :: "rat \<Rightarrow> int" where
  "ctrunc x = (if 0 \<le> x then \<lfloor>x\<rfloor> else \<lceil>x\<rceil>)"

definition to_int32 :: "rat \<Rightarrow> int option" where
  "to_int32 x = (let t = ctrunc x in if - (2 ^ 31) \<le> t \<and> t < 2 ^ 31 then Some t else None)"

definition to_uint8 :: "rat \<Rightarrow> u8 option" where
  "to_uint8 x = (let t = ctrunc x in if 0 \<le> t \<and> t < 2 ^ 8 then Some (word_of_int t) else None)"

definition to_uint16 :: "rat \<Rightarrow> u16 option" where
  "to_uint16 x = (let t = ctrunc x in if 0 \<le> t \<and> t < 2 ^ 16 then Some (word_of_int t) else None)"

lemma bitlen_powi:
  assumes "0 < n"
  shows "2 powi (bitlen n - 1) \<le> (of_int n :: rat)" and "(of_int n :: rat) < 2 powi (bitlen n)"
proof -
  have "bitlen n \<noteq> 0" using assms by (simp add: bitlen_eq_zero_iff)
  then have b: "0 < bitlen n" using bitlen_nonneg [of n] by simp
  have "2 ^ nat (bitlen n - 1) \<le> n" and "n < 2 ^ nat (bitlen n)"
    using bitlen_bounds [OF assms] by auto
  then have "(of_int (2 ^ nat (bitlen n - 1)) :: rat) \<le> of_int n"
    and "(of_int n :: rat) < of_int (2 ^ nat (bitlen n))"
    by (simp_all only: of_int_le_iff of_int_less_iff)
  then show "2 powi (bitlen n - 1) \<le> (of_int n :: rat)" and "(of_int n :: rat) < 2 powi (bitlen n)"
    using b by (simp_all add: power_int_def)
qed

lemma powi_less_imp: "(2::rat) powi a < 2 powi b \<Longrightarrow> a < b"
proof (rule ccontr)
  assume l: "(2::rat) powi a < 2 powi b" and "\<not> a < b"
  then have "(2::rat) powi b \<le> 2 powi a" by (intro power_int_increasing) simp_all
  then show False using l by simp
qed

lemma fexp_bounds:
  assumes "x \<noteq> 0"
  shows "2 powi (fexp x) \<le> \<bar>x\<bar>" and "\<bar>x\<bar> < 2 powi (fexp x + 1)"
proof -
  obtain n d where q: "quotient_of \<bar>x\<bar> = (n, d)" by (cases "quotient_of \<bar>x\<bar>") auto
  have d: "0 < d" using quotient_of_denom_pos [OF q] .
  have x: "\<bar>x\<bar> = of_int n / of_int d" using quotient_of_div [OF q] .
  have "0 < \<bar>x\<bar>" using assms by simp
  then have n: "0 < n" using d x by (simp add: zero_less_divide_iff)
  let ?k = "bitlen n - bitlen d"
  have d0: "(0::rat) < of_int d" using d by simp
  have up: "\<bar>x\<bar> < 2 powi (?k + 1)"
  proof -
    have "(of_int n :: rat) < 2 powi (bitlen n)" by (rule bitlen_powi [OF n])
    also have "\<dots> = 2 powi (?k + 1) * 2 powi (bitlen d - 1)"
      by (simp add: power_int_add [symmetric])
    also have "\<dots> \<le> 2 powi (?k + 1) * of_int d"
      using bitlen_powi(1) [OF d] by (simp add: mult_left_mono)
    finally show ?thesis using d0 x by (simp add: divide_less_eq mult.commute)
  qed
  have lo: "2 powi (?k - 1) \<le> \<bar>x\<bar>"
  proof -
    have "2 powi (?k - 1) * of_int d \<le> 2 powi (?k - 1) * (2 powi (bitlen d) :: rat)"
      using bitlen_powi(2) [OF d] by (simp add: mult_left_mono)
    also have "\<dots> = 2 powi (bitlen n - 1)" by (simp add: power_int_add [symmetric])
    also have "\<dots> \<le> of_int n" by (rule bitlen_powi [OF n])
    finally show ?thesis using d0 x by (simp add: le_divide_eq)
  qed
  show "2 powi (fexp x) \<le> \<bar>x\<bar>" and "\<bar>x\<bar> < 2 powi (fexp x + 1)"
    using up lo unfolding fexp_def q by (auto simp: Let_def)
qed

lemma rne_of_int [simp]: "rne (of_int m) = m"
  by (simp add: rne_def)

lemma rne_error: "\<bar>of_int (rne y) - y\<bar> \<le> 1 / 2"
proof -
  have "of_int \<lfloor>y\<rfloor> \<le> y" and "y < of_int \<lfloor>y\<rfloor> + 1" by linarith+
  then show ?thesis by (auto simp: rne_def Let_def abs_le_iff)
qed

lemma rnd_0 [simp]: "rnd p 0 = 0"
  by (simp add: rnd_def)

text \<open>A number with at most \<open>p\<close> significant bits is not changed by rounding.\<close>

lemma rnd_exact:
  assumes x: "x = of_int m * 2 powi e" and m: "\<bar>m\<bar> < 2 ^ p"
  shows "rnd p x = x"
proof (cases "x = 0")
  case True
  then show ?thesis by simp
next
  case False
  let ?E = "fexp x - (int p - 1)"
  have "2 powi (fexp x) \<le> \<bar>x\<bar>" using False by (rule fexp_bounds)
  also have "\<bar>x\<bar> = of_int \<bar>m\<bar> * 2 powi e" by (simp add: x abs_mult)
  also have "\<dots> < of_int (2 ^ p) * 2 powi e"
    using m by (intro mult_strict_right_mono) (simp_all only: of_int_less_iff zero_less_power_int zero_less_numeral)
  also have "\<dots> = 2 powi (int p + e)"
    by (simp add: power_int_add)
  finally have "fexp x < int p + e" by (rule powi_less_imp)
  then have E: "?E \<le> e" by simp
  have "x / 2 powi ?E = of_int m * 2 powi (e - ?E)"
    by (simp add: x power_int_diff)
  also have "\<dots> = of_int (m * 2 ^ nat (e - ?E))"
    using E by (simp add: power_int_def)
  finally have "rne (x / 2 powi ?E) = m * 2 ^ nat (e - ?E)" by (simp only: rne_of_int)
  then have "of_int (rne (x / 2 powi ?E)) = x / 2 powi ?E"
    using \<open>x / 2 powi ?E = of_int m * 2 powi (e - ?E)\<close> E by (simp add: power_int_def)
  then show ?thesis using False by (simp add: rnd_def Let_def)
qed

lemma rnd_int [simp]: "\<bar>m\<bar> < 2 ^ p \<Longrightarrow> rnd p (of_int m) = of_int m"
  using rnd_exact [of "of_int m" m 0 p] by simp

lemma rnd_half [simp]: "\<bar>m\<bar> < 2 ^ p \<Longrightarrow> rnd p (of_int m / 2) = of_int m / 2"
  using rnd_exact [of "of_int m / 2" m "- 1" p] by (simp add: power_int_minus field_simps)

text \<open>The relative error of one rounding is at most half a unit in the last place.\<close>

lemma rnd_error: "\<bar>rnd p x - x\<bar> \<le> \<bar>x\<bar> * 2 powi (- int p)"
proof (cases "x = 0")
  case True
  then show ?thesis by simp
next
  case False
  define u where "u = (2::rat) powi (fexp x - (int p - 1))"
  have u: "0 < u" by (simp add: u_def)
  have "rnd p x - x = (of_int (rne (x / u)) - x / u) * u"
    using False u by (simp add: rnd_def Let_def u_def [symmetric] left_diff_distrib)
  then have "\<bar>rnd p x - x\<bar> = \<bar>of_int (rne (x / u)) - x / u\<bar> * u"
    using u by (simp add: abs_mult)
  also have "\<dots> \<le> 1 / 2 * u"
    using rne_error [of "x / u"] u by (intro mult_right_mono) simp_all
  also have "\<dots> = 2 powi (fexp x) * 2 powi (- int p)"
    by (simp add: u_def power_int_diff power_int_minus power_int_add field_simps)
  also have "\<dots> \<le> \<bar>x\<bar> * 2 powi (- int p)"
    using fexp_bounds(1) [OF False] by (intro mult_right_mono) simp_all
  finally show ?thesis .
qed

lemma rnd_bounds:
  assumes "0 \<le> x"
  shows "x * (1 - 2 powi (- int p)) \<le> rnd p x" and "rnd p x \<le> x * (1 + 2 powi (- int p))"
  using rnd_error [of p x] assms by (auto simp: abs_le_iff algebra_simps)

section \<open>Floats and store values\<close>

text \<open>\<open>for (; i < decimals; i++) data *= 10;\<close>\<close>

fun scale10 :: "nat \<Rightarrow> rat \<Rightarrow> rat" where
  "scale10 0 data = data"
| "scale10 (Suc i) data = scale10 i (f32 (data * 10))"

text \<open>\<open>for (j = 0; j < decimals; j++) ans /= (float)10.0;\<close>\<close>

fun unscale10 :: "nat \<Rightarrow> rat \<Rightarrow> rat" where
  "unscale10 0 ans = ans"
| "unscale10 (Suc j) ans = unscale10 j (f32 (ans / 10))"

definition FloatoHex :: "nat \<Rightarrow> nat \<Rightarrow> rat \<Rightarrow> u32 option" where
  "FloatoHex total_digits decimals data = do {
     integer \<leftarrow> to_int32 (scale10 decimals data);
     Some (FloatoHex_digits integer 0 0)
   }"

definition HextoFloat :: "nat \<Rightarrow> nat \<Rightarrow> u8 list \<Rightarrow> rat option" where
  "HextoFloat total_bytes decimals src_buff = do {
     bytes \<leftarrow> slice src_buff 0 total_bytes;
     Some (unscale10 decimals (f32 (of_int (HextoFloat_acc bytes 0))))
   }"

text \<open>An element identifier carries the field width in bits 3 to 7 and the decimals in bits 0 to 2.\<close>

definition GetBCDSendata :: "u16 \<Rightarrow> rat \<Rightarrow> u32 option" where
  "GetBCDSendata element_id src_data =
     (let total_digits = unat (drop_bit 3 element_id AND 0x001F);
          decimals = unat (element_id AND 0x0007)
      in FloatoHex total_digits decimals src_data)"

definition BCDSendataToFloat :: "u16 \<Rightarrow> u8 list \<Rightarrow> rat option" where
  "BCDSendataToFloat element_id src_buff =
     (let totol_bytes = unat (drop_bit 3 element_id AND 0x001f);
          decimals = unat (element_id AND 0x0007)
      in HextoFloat totol_bytes decimals src_buff)"

text \<open>Reading the stored rainfall and water level back; data that is not BCD reads as 0.\<close>

definition lo_digit :: "u8 \<Rightarrow> u32" where
  "lo_digit b = ucast (drop_bit 0 b AND 0x0f)"

definition hi_digit :: "u8 \<Rightarrow> u32" where
  "hi_digit b = ucast (drop_bit 4 b AND 0x0f)"

definition RainFallBCDString_To_FloatValue :: "u8 list \<Rightarrow> nat \<Rightarrow> rat option" where
  "RainFallBCDString_To_FloatValue src_buff i = do {
     des_str \<leftarrow> slice src_buff (3 * i) 3;
     c \<leftarrow> JudegeBCD des_str 3;
     if c \<noteq> 0 then Some 0
     else let des_data = lo_digit (des_str ! 2) + hi_digit (des_str ! 2) * 10
            + lo_digit (des_str ! 1) * 100 + hi_digit (des_str ! 1) * 1000
            + lo_digit (des_str ! 0) * 10000 + hi_digit (des_str ! 0) * 100000
          in Some (f32 (f64 (f32 (of_int (uint des_data)) / 10)))
   }"

definition WaterLevelBCDString_To_FloatValue :: "u8 list \<Rightarrow> nat \<Rightarrow> rat option" where
  "WaterLevelBCDString_To_FloatValue src_buff i = do {
     des_str \<leftarrow> slice src_buff (i * 4) 4;
     c \<leftarrow> JudegeBCD des_str 3;
     if c \<noteq> 0 then Some 0
     else let des_data = lo_digit (des_str ! 3) + hi_digit (des_str ! 3) * 10
            + lo_digit (des_str ! 2) * 100 + hi_digit (des_str ! 2) * 1000
            + lo_digit (des_str ! 1) * 10000 + hi_digit (des_str ! 1) * 100000
            + lo_digit (des_str ! 0) * 1000000 + hi_digit (des_str ! 0) * 10000000
          in Some (f32 (f64 (f32 (of_int (uint des_data)) / 1000)))
   }"

text \<open>The twelve five-minute differences of one hour; 0xff stands for a value that decreased.\<close>

definition FiveMinuteRelativeValue :: "u8 list \<Rightarrow> nat \<Rightarrow> u8 option" where
  "FiveMinuteRelativeValue src_buff i = do {
     last_value \<leftarrow> RainFallBCDString_To_FloatValue src_buff i;
     curr_value \<leftarrow> RainFallBCDString_To_FloatValue src_buff (i + 1);
     if curr_value \<ge> last_value then to_uint8 (f32 (f32 (curr_value - last_value) * 10))
     else Some 0xff
   }"

definition HourRainFallSaveData_To_FiveMinuteRelativeValue :: "u8 list \<Rightarrow> u8 list option" where
  "HourRainFallSaveData_To_FiveMinuteRelativeValue src_buff =
     those (map (FiveMinuteRelativeValue src_buff) [0..<12])"

text \<open>One entry of \<open>HourWaterLevelSaveData_To_Value\<close>, given the base value of the parameters.\<close>

definition HourWaterLevelEntry :: "rat \<Rightarrow> u8 list \<Rightarrow> nat \<Rightarrow> u16 option" where
  "HourWaterLevelEntry waterlevel_basic_value src_buff i = do {
     value \<leftarrow> WaterLevelBCDString_To_FloatValue src_buff i;
     des_value \<leftarrow> to_uint16 (f32 (f32 (value - waterlevel_basic_value) * 100));
     Some (push_bit 8 des_value OR drop_bit 8 des_value)
   }"

section \<open>What the store values denote\<close>

lemma digits_bcd2:
  assumes "m < 100"
  shows "lo_digit (of_nat (bcd2 m)) = of_nat (m mod 10)"
    and "hi_digit (of_nat (bcd2 m)) = of_nat (m div 10)"
proof -
  have c: "(ucast b :: u32) = of_int (uint b)" for b :: u8
    by (simp add: unsigned_ucast_eq word_uint_eq_iff)
  show "lo_digit (of_nat (bcd2 m)) = of_nat (m mod 10)"
    and "hi_digit (of_nat (bcd2 m)) = of_nat (m div 10)"
    by (simp_all only: lo_digit_def hi_digit_def c drop_bit_0 id_apply nibbles_bcd2 [OF assms] of_int_of_nat_eq)
qed

lemma scale10_exact:
  "\<bar>m\<bar> * 10 ^ k < 2 ^ 24 \<Longrightarrow> scale10 k (of_int m) = of_int (m * 10 ^ k)"
proof (induction k arbitrary: m)
  case 0
  then show ?case by simp
next
  case (Suc k)
  have "\<bar>m * 10\<bar> * 1 \<le> \<bar>m * 10\<bar> * 10 ^ k" by (rule mult_left_mono) simp_all
  then have "\<bar>m * 10\<bar> < 2 ^ 24" using Suc.prems by (simp add: abs_mult mult.assoc)
  then have "f32 (of_int m * 10) = of_int (m * 10)"
    using rnd_int [of "m * 10" 24] by simp
  then show ?case using Suc.IH [of "m * 10"] Suc.prems by (simp add: abs_mult mult.assoc)
qed

lemma to_int32_of_int [simp]: "0 \<le> i \<Longrightarrow> i < 2 ^ 31 \<Longrightarrow> to_int32 (of_int i) = Some i"
  by (simp add: to_int32_def ctrunc_def)

lemma to_uint8_of_int: "0 \<le> i \<Longrightarrow> i < 2 ^ 8 \<Longrightarrow> to_uint8 (of_int i) = Some (word_of_int i)"
  by (simp add: to_uint8_def ctrunc_def)

lemma FloatoHex_of_nat:
  assumes "n < 10 ^ 8" and "to_int32 (scale10 d x) = Some (int n)"
  shows "FloatoHex t d x = Some (of_nat (bcd_of n))"
  using assms by (simp add: FloatoHex_def FloatoHex_digits_eq)

lemma rain_exact:
  assumes "k < 2 ^ 23"
  shows "f32 (f64 (of_nat k / 2)) = of_nat k / 2"
    and "f32 (of_nat k / 2 * 10) = of_nat (5 * k) \<or> 2 ^ 24 \<le> 5 * k"
proof -
  have "f64 (of_int (int k) / 2) = of_int (int k) / 2" and "f32 (of_int (int k) / 2) = of_int (int k) / 2"
    using assms by (intro rnd_half; simp)+
  then show "f32 (f64 (of_nat k / 2)) = of_nat k / 2" by (simp only: of_int_of_nat_eq)
  show "f32 (of_nat k / 2 * 10) = of_nat (5 * k) \<or> 2 ^ 24 \<le> 5 * k"
    using rnd_int [of "int (5 * k)" 24] by (cases "2 ^ 24 \<le> 5 * k") simp_all
qed

lemma rain_scaled:
  assumes "k < 200000"
  shows "GetBCDSendata 0x2619 (f32 (f64 (of_nat k / 2))) = Some (of_nat (bcd_of (5 * k)))"
proof -
  have k: "k < 2 ^ 23" and n: "\<not> 2 ^ 24 \<le> 5 * k" using assms by simp_all
  have "scale10 1 (of_nat k / 2) = (of_int (int (5 * k)) :: rat)"
    using rain_exact(2) [OF k] n by simp
  moreover have "to_int32 (of_int (int (5 * k))) = Some (int (5 * k))"
    using assms by (intro to_int32_of_int) simp_all
  ultimately have "to_int32 (scale10 1 (of_nat k / 2)) = Some (int (5 * k))" by (simp only:)
  then have "FloatoHex 3 1 (of_nat k / 2) = Some (of_nat (bcd_of (5 * k)))"
    using assms by (intro FloatoHex_of_nat) simp_all
  then have "GetBCDSendata 0x2619 (of_nat k / 2) = Some (of_nat (bcd_of (5 * k)))"
    by (simp add: GetBCDSendata_def)
  then show ?thesis by (simp only: rain_exact(1) [OF k])
qed

lemma nibbles3:
  assumes "n < 10 ^ 6" and "bs = store3 (of_nat (bcd_of n))"
  shows "lo_digit (bs ! 2) + hi_digit (bs ! 2) * 10 + lo_digit (bs ! 1) * 100 + hi_digit (bs ! 1) * 1000
    + lo_digit (bs ! 0) * 10000 + hi_digit (bs ! 0) * 100000 = of_nat n"
proof -
  let ?a = "n div 10000 mod 100" and ?b = "n div 100 mod 100" and ?c = "n mod 100"
  have "bs = map (of_nat \<circ> bcd2) [?a, ?b, ?c]" using assms store3_bcd by simp
  then have nth: "bs ! 0 = of_nat (bcd2 ?a)" "bs ! 1 = of_nat (bcd2 ?b)" "bs ! 2 = of_nat (bcd2 ?c)"
    by simp_all
  have less: "x mod 100 < 100" for x :: nat by simp
  have sum: "of_nat c0 + of_nat c1 * 10 + of_nat b0 * 100 + of_nat b1 * 1000 + of_nat a0 * 10000
      + of_nat a1 * 100000 = (of_nat ((a1 * 10 + a0) * 10000 + (b1 * 10 + b0) * 100 + (c1 * 10 + c0)) :: u32)"
    for a0 a1 b0 b1 c0 c1 :: nat by (simp add: algebra_simps)
  have "lo_digit (bs ! 2) + hi_digit (bs ! 2) * 10 + lo_digit (bs ! 1) * 100 + hi_digit (bs ! 1) * 1000
    + lo_digit (bs ! 0) * 10000 + hi_digit (bs ! 0) * 100000
    = of_nat ((?a div 10 * 10 + ?a mod 10) * 10000 + (?b div 10 * 10 + ?b mod 10) * 100
       + (?c div 10 * 10 + ?c mod 10))"
    by (simp only: nth digits_bcd2 [OF less] sum)
  also have "\<dots> = of_nat (?a * 10000 + ?b * 100 + ?c)" by (simp only: div_mult_mod_eq)
  also have "?a * 10000 + ?b * 100 + ?c = n"
    using digits4 [of n] assms by simp
  finally show ?thesis .
qed

lemma nibbles4:
  assumes "n < 10 ^ 8" and "bs = store4 (of_nat (bcd_of n))"
  shows "lo_digit (bs ! 3) + hi_digit (bs ! 3) * 10 + lo_digit (bs ! 2) * 100 + hi_digit (bs ! 2) * 1000
    + lo_digit (bs ! 1) * 10000 + hi_digit (bs ! 1) * 100000
    + lo_digit (bs ! 0) * 1000000 + hi_digit (bs ! 0) * 10000000 = of_nat n"
proof -
  let ?d = "n div 1000000 mod 100" and ?a = "n div 10000 mod 100" and ?b = "n div 100 mod 100" and ?c = "n mod 100"
  have "bs = map (of_nat \<circ> bcd2) [?d, ?a, ?b, ?c]" using assms store4_bcd by simp
  then have nth: "bs ! 0 = of_nat (bcd2 ?d)" "bs ! 1 = of_nat (bcd2 ?a)" "bs ! 2 = of_nat (bcd2 ?b)"
    "bs ! 3 = of_nat (bcd2 ?c)"
    by (simp_all only: list.map o_def nth_Cons_0 nth_Cons_Suc numeral_3_eq_3 numeral_2_eq_2 One_nat_def)
  have less: "x mod 100 < 100" for x :: nat by simp
  have sum: "of_nat c0 + of_nat c1 * 10 + of_nat b0 * 100 + of_nat b1 * 1000 + of_nat a0 * 10000
      + of_nat a1 * 100000 + of_nat d0 * 1000000 + of_nat d1 * 10000000
      = (of_nat ((((d1 * 10 + d0) * 100 + (a1 * 10 + a0)) * 100 + (b1 * 10 + b0)) * 100 + (c1 * 10 + c0)) :: u32)"
    for a0 a1 b0 b1 c0 c1 d0 d1 :: nat
  proof -
    have "c0 + c1 * 10 + b0 * 100 + b1 * 1000 + a0 * 10000 + a1 * 100000 + d0 * 1000000 + d1 * 10000000
      = (((d1 * 10 + d0) * 100 + (a1 * 10 + a0)) * 100 + (b1 * 10 + b0)) * 100 + (c1 * 10 + c0)"
      by simp
    from arg_cong [OF this, of "of_nat :: nat \<Rightarrow> u32"] show ?thesis
      by (simp only: of_nat_add of_nat_mult of_nat_numeral)
  qed
  show ?thesis
    by (simp only: nth digits_bcd2 [OF less] sum div_mult_mod_eq digits4 [OF assms(1)])
qed

text \<open>Slot \<open>i\<close> of a buffer of store values.\<close>

lemma take_drop_concat:
  "\<lbrakk>\<forall>b \<in> set bs. length b = n; i < length bs\<rbrakk> \<Longrightarrow>
   n * i + n \<le> length (concat bs) \<and> take n (drop (n * i) (concat bs)) = bs ! i"
proof (induction bs arbitrary: i)
  case (Cons b bs)
  show ?case
  proof (cases i)
    case 0
    then show ?thesis using Cons.prems by simp
  next
    case (Suc j)
    then have "drop (n * i) (concat (b # bs)) = drop (n * j) (concat bs)"
      using Cons.prems by simp
    then show ?thesis using Cons.IH [of j] Cons.prems Suc by simp
  qed
qed simp

lemma slice_concat:
  "\<lbrakk>\<forall>b \<in> set bs. length b = n; i < length bs\<rbrakk> \<Longrightarrow> slice (concat bs) (n * i) n = Some (bs ! i)"
  using take_drop_concat [of bs n i] by (simp add: slice_def)

lemma of_int_uint_of_nat: "n < 2 ^ 32 \<Longrightarrow> of_int (uint (of_nat n :: u32)) = (of_nat n :: rat)"
  by (simp add: uint_nat)

lemma RainFall_slot:
  assumes "\<forall>b \<in> set bs. length b = 3" and "i < length bs"
    and "bs ! i = store3 (of_nat (bcd_of n))" and "n < 10 ^ 6"
  shows "RainFallBCDString_To_FloatValue (concat bs) i = Some (f32 (f64 (f32 (of_nat n) / 10)))"
proof -
  define s where "s = store3 (of_nat (bcd_of n))"
  have "slice (concat bs) (3 * i) 3 = Some s"
    using slice_concat [OF assms(1,2)] assms(3) by (simp only: s_def)
  moreover have "JudegeBCD s 3 = Some 0" using JudegeBCD_store3 [OF assms(4)] by (simp only: s_def)
  ultimately show ?thesis
    using of_int_uint_of_nat [of n] assms(4)
    by (simp only: RainFallBCDString_To_FloatValue_def bind.bind_lunit Let_def
        nibbles3 [OF assms(4) s_def] simp_thms if_False) simp
qed

text \<open>Rainfall survives storing: the code writes \<open>k\<close> pulses as \<open>5 * k\<close> tenths and reads \<open>k / 2\<close> back.\<close>

lemma RainFall_pulses:
  assumes "\<forall>b \<in> set bs. length b = 3" and "i < length bs"
    and "bs ! i = store3 (of_nat (bcd_of (5 * k)))" and k: "k < 200000"
  shows "RainFallBCDString_To_FloatValue (concat bs) i = Some (of_nat k / 2)"
proof -
  have "f32 (of_nat (5 * k)) = (of_nat (5 * k) :: rat)" using rnd_int [of "int (5 * k)" 24] k by simp
  then have "f32 (of_nat (5 * k)) / 10 = (of_nat k / 2 :: rat)" by simp
  moreover have "f32 (f64 (of_nat k / 2)) = (of_nat k / 2 :: rat)" using rain_exact(1) [of k] k by simp
  moreover have "5 * k < 10 ^ 6" using k by simp
  ultimately show ?thesis using RainFall_slot [OF assms(1-3)] by simp
qed

lemma FiveMinute_pulses:
  assumes "\<forall>b \<in> set bs. length b = 3" and "Suc i < length bs"
    and "bs ! i = store3 (of_nat (bcd_of (5 * k)))" and "bs ! Suc i = store3 (of_nat (bcd_of (5 * l)))"
    and b: "k < 200000" "l < 200000" "l \<le> k + 51"
  shows "FiveMinuteRelativeValue (concat bs) i = Some (if k \<le> l then of_nat (5 * (l - k)) else 0xff)"
proof -
  note last = RainFall_pulses [OF assms(1) Suc_lessD [OF assms(2)] assms(3) b(1)]
  note curr = RainFall_pulses [OF assms(1,2,4) b(2)]
  have "f32 (f32 (of_nat l / 2 - of_nat k / 2) * 10) = (of_int (int (5 * (l - k))) :: rat)" if "k \<le> l"
  proof -
    have "(of_nat l / 2 - of_nat k / 2 :: rat) = of_int (int (l - k)) / 2" using that by (simp add: of_nat_diff diff_divide_distrib)
    moreover have "f32 (of_int (int (l - k)) / 2) = (of_int (int (l - k)) / 2 :: rat)" using b(2) by (intro rnd_half) simp
    moreover have "(of_int (int (l - k)) / 2 * 10 :: rat) = of_int (int (5 * (l - k)))" by simp
    moreover have "f32 (of_int (int (5 * (l - k)))) = (of_int (int (5 * (l - k))) :: rat)" using b(2) by (intro rnd_int) simp
    ultimately show ?thesis by (simp only:)
  qed
  moreover have "to_uint8 (of_int (int (5 * (l - k)))) = Some (of_nat (5 * (l - k)))"
    using to_uint8_of_int [of "int (5 * (l - k))"] b(3) by (simp del: of_nat_mult of_nat_diff)
  ultimately show ?thesis
    using last curr by (simp add: FiveMinuteRelativeValue_def divide_le_cancel del: of_nat_diff of_nat_mult of_int_of_nat_eq)
qed

lemma hour_pulses:
  assumes "length ks = 13" and k: "\<And>i. i < 13 \<Longrightarrow> ks ! i < 200000" and inc: "\<And>i. i < 12 \<Longrightarrow> ks ! Suc i \<le> ks ! i + 51"
  shows "HourRainFallSaveData_To_FiveMinuteRelativeValue (concat (map (\<lambda>k. store3 (of_nat (bcd_of (5 * k)))) ks)) =
    Some (map (\<lambda>i. if ks ! i \<le> ks ! Suc i then of_nat (5 * (ks ! Suc i - ks ! i)) else 0xff) [0..<12])"
  unfolding HourRainFallSaveData_To_FiveMinuteRelativeValue_def
proof (rule those_map)
  fix i assume "i \<in> set [0..<12 :: nat]"
  then have i: "i < 12" by simp
  show "FiveMinuteRelativeValue (concat (map (\<lambda>k. store3 (of_nat (bcd_of (5 * k)))) ks)) i =
    Some (if ks ! i \<le> ks ! Suc i then of_nat (5 * (ks ! Suc i - ks ! i)) else 0xff)"
    by (rule FiveMinute_pulses) (use i assms(1) k [of i] k [of "Suc i"] inc [OF i] in \<open>auto simp del: of_nat_mult\<close>)
qed

lemma WaterLevel_slot:
  assumes "\<forall>b \<in> set bs. length b = 4" and "i < length bs"
    and "bs ! i = store4 (of_nat (bcd_of n))" and "n < 10 ^ 8"
  shows "WaterLevelBCDString_To_FloatValue (concat bs) i = Some (f32 (f64 (f32 (of_nat n) / 1000)))"
proof -
  define s where "s = store4 (of_nat (bcd_of n))"
  have "JudegeBCD s 3 = Some 0"
    unfolding s_def store4_bcd [OF assms(4)]
    by (simp add: numeral_3_eq_3 JudegeBCD_bcd2 del: JudegeBCD.simps(3))
  moreover have "slice (concat bs) (i * 4) 4 = Some s"
    using slice_concat [OF assms(1,2)] assms(3) by (simp only: s_def mult.commute [of i])
  ultimately show ?thesis
    using of_int_uint_of_nat [of n] assms(4)
    by (simp only: WaterLevelBCDString_To_FloatValue_def bind.bind_lunit Let_def
        nibbles4 [OF assms(4) s_def] simp_thms if_False) simp
qed

section \<open>Accumulated rounding error\<close>

text \<open>\<open>near k x y\<close>: \<open>y\<close> is \<open>x\<close> after at most \<open>k\<close> roundings to single precision.\<close>

definition near :: "nat \<Rightarrow> rat \<Rightarrow> rat \<Rightarrow> bool" where
  "near k x y \<longleftrightarrow> 0 \<le> x \<and> x * (1 - 1 / 2 ^ 24) ^ k \<le> y \<and> y \<le> x * (1 + 1 / 2 ^ 24) ^ k"

named_theorems near_intros

lemma near_refl: "0 \<le> x \<Longrightarrow> near 0 x x"
  by (simp add: near_def)

lemma near_scale [near_intros]: "near k x y \<Longrightarrow> 0 \<le> c \<Longrightarrow> near k (x * c) (y * c)"
  unfolding near_def
proof (elim conjE, intro conjI)
  assume c: "0 \<le> c" and "x * (1 - 1 / 2 ^ 24) ^ k \<le> y" and "y \<le> x * (1 + 1 / 2 ^ 24) ^ k"
  then have "x * (1 - 1 / 2 ^ 24) ^ k * c \<le> y * c" and "y * c \<le> x * (1 + 1 / 2 ^ 24) ^ k * c"
    by (auto intro: mult_right_mono)
  then show "x * c * (1 - 1 / 2 ^ 24) ^ k \<le> y * c" and "y * c \<le> x * c * (1 + 1 / 2 ^ 24) ^ k"
    by (simp_all add: mult_ac)
qed (simp_all)

lemma near_rnd [near_intros]:
  assumes "near k x y" and p: "24 \<le> p"
  shows "near (Suc k) x (rnd p y)"
proof -
  let ?e = "1 / 2 ^ 24 :: rat"
  have e: "(2::rat) powi (- int p) \<le> ?e"
  proof -
    have "(2::rat) powi (- int p) \<le> 2 powi (- 24)" using p by (intro power_int_increasing) simp_all
    then show ?thesis by (simp add: power_int_minus)
  qed
  have x: "0 \<le> x" and lo: "x * (1 - ?e) ^ k \<le> y" and hi: "y \<le> x * (1 + ?e) ^ k"
    using assms(1) by (simp_all only: near_def)
  have "0 \<le> x * (1 - ?e) ^ k" using x by simp
  then have y: "0 \<le> y" using lo by simp
  have "x * (1 - ?e) ^ k * (1 - ?e) \<le> y * (1 - ?e)" using lo by (intro mult_right_mono) simp_all
  also have "\<dots> \<le> y * (1 - 2 powi (- int p))" using e y by (intro mult_left_mono) simp_all
  also have "\<dots> \<le> rnd p y" using rnd_bounds(1) [OF y] .
  finally have 1: "x * (1 - ?e) ^ Suc k \<le> rnd p y" by (simp only: power_Suc mult_ac)
  have "rnd p y \<le> y * (1 + 2 powi (- int p))" using rnd_bounds(2) [OF y] .
  also have "\<dots> \<le> y * (1 + ?e)" using e y by (intro mult_left_mono) simp_all
  also have "\<dots> \<le> x * (1 + ?e) ^ k * (1 + ?e)" using hi by (intro mult_right_mono) simp_all
  finally have 2: "rnd p y \<le> x * (1 + ?e) ^ Suc k" by (simp only: power_Suc mult_ac)
  from 1 2 x show ?thesis by (simp only: near_def)
qed

lemma near_trunc:
  assumes "near 7 (of_nat n) y" and "n < 2 ^ 21"
  shows "ctrunc y = int n \<or> ctrunc y = int n - 1"
proof -
  have n: "(of_nat n :: rat) < 2 ^ 21" using assms(2) by (metis of_nat_less_iff of_nat_numeral of_nat_power)
  have "of_nat n * (1 - 1 / 2 ^ 24) ^ 7 \<le> y" and "y \<le> of_nat n * (1 + 1 / 2 ^ 24) ^ 7"
    using assms(1) by (simp_all only: near_def)
  moreover have "(of_nat n :: rat) * (1 - 1 / 2 ^ 21) \<le> of_nat n * (1 - 1 / 2 ^ 24) ^ 7"
    and "(of_nat n :: rat) * (1 + 1 / 2 ^ 24) ^ 7 \<le> of_nat n * (1 + 1 / 2 ^ 21)"
    by (rule mult_left_mono; simp add: power_divide eval_nat_numeral)+
  ultimately have "of_nat n * (1 - 1 / 2 ^ 21) \<le> y" and "y \<le> of_nat n * (1 + 1 / 2 ^ 21)"
    by linarith+
  moreover have "0 \<le> of_nat n * (1 - 1 / 2 ^ 21 :: rat)" by simp
  ultimately have "of_nat n - 1 < y" and "y < of_nat n + 1" and "0 \<le> y"
    using n by (simp_all add: field_simps)
  then show ?thesis unfolding ctrunc_def by (simp; linarith)
qed

lemma near_mono:
  assumes "near k x y" and "k \<le> l"
  shows "near l x y"
proof -
  have x: "0 \<le> x" and lo: "x * (1 - 1 / 2 ^ 24) ^ k \<le> y" and hi: "y \<le> x * (1 + 1 / 2 ^ 24) ^ k"
    using assms(1) by (simp_all only: near_def)
  have "(1 - 1 / 2 ^ 24 :: rat) ^ l \<le> (1 - 1 / 2 ^ 24) ^ k"
    using assms(2) by (intro power_decreasing) simp_all
  then have "x * (1 - 1 / 2 ^ 24) ^ l \<le> x * (1 - 1 / 2 ^ 24) ^ k" using x by (rule mult_left_mono)
  moreover have "(1 + 1 / 2 ^ 24 :: rat) ^ k \<le> (1 + 1 / 2 ^ 24) ^ l"
    using assms(2) by (intro power_increasing) simp_all
  then have "x * (1 + 1 / 2 ^ 24) ^ k \<le> x * (1 + 1 / 2 ^ 24) ^ l" using x by (rule mult_left_mono)
  ultimately show ?thesis using x lo hi unfolding near_def by (meson order.trans)
qed

lemma near_add [near_intros]:
  assumes "near k x y" and "near k x' y'"
  shows "near k (x + x') (y + y')"
  using assms unfolding near_def distrib_right by (auto intro: add_mono)

text \<open>Scaling and unscaling by powers of ten.\<close>

lemma near_scale10: "near k x y \<Longrightarrow> near (k + d) (x * 10 ^ d) (scale10 d y)"
proof (induction d arbitrary: k x y)
  case 0
  then show ?case by simp
next
  case (Suc d)
  have "near (Suc k) (x * 10) (f32 (y * 10))"
    using Suc.prems by (intro near_rnd near_scale) simp_all
  from Suc.IH [OF this] show ?case by (simp add: mult.assoc)
qed

lemma near_unscale10: "near k x y \<Longrightarrow> near (k + d) (x / 10 ^ d) (unscale10 d y)"
proof (induction d arbitrary: k x y)
  case 0
  then show ?case by simp
next
  case (Suc d)
  have "near k (x * (1 / 10)) (y * (1 / 10))" using Suc.prems by (rule near_scale) simp
  then have "near (Suc k) (x * (1 / 10)) (f32 (y * (1 / 10)))" by (rule near_rnd) simp
  then have "near (Suc k) (x / 10) (f32 (y / 10))" by simp
  from Suc.IH [OF this] show ?case by (simp add: field_simps)
qed

lemma near_div [near_intros]: "near k x y \<Longrightarrow> 0 < c \<Longrightarrow> near k (x / c) (y / c)"
  using near_scale [of k x y "1 / c"] by simp

text \<open>A reading in centimetres over a base in millimetres is stored to within one millimetre.\<close>

lemma water_near:
  assumes "n < 2 ^ 24" and "b < 10 ^ 7"
  shows "near 7 (of_nat (10 * n + b))
    (scale10 3 (f32 (f32 (f64 (f32 (of_nat n) / 100)) + unscale10 3 (f32 (of_nat b)))))"
proof -
  have n: "f32 (of_nat n) = of_nat n" and b: "f32 (of_nat b) = of_nat b"
    using rnd_int [of "int n" 24] rnd_int [of "int b" 24] assms by simp_all
  have "near 2 (of_nat n / 100) (f32 (f64 (f32 (of_nat n) / 100)))"
    unfolding n numeral_2_eq_2 by (intro near_intros near_refl) simp_all
  then have 1: "near 3 (of_nat n / 100) (f32 (f64 (f32 (of_nat n) / 100)))"
    by (rule near_mono) simp
  have "near (0 + 3) (of_nat b / 10 ^ 3) (unscale10 3 (f32 (of_nat b)))"
    unfolding b by (rule near_unscale10 near_refl of_nat_0_le_iff)+
  then have 2: "near 3 (of_nat b / 1000) (unscale10 3 (f32 (of_nat b)))" by simp
  have "near (Suc 3 + 3) ((of_nat n / 100 + of_nat b / 1000) * 10 ^ 3)
    (scale10 3 (f32 (f32 (f64 (f32 (of_nat n) / 100)) + unscale10 3 (f32 (of_nat b)))))"
    by (rule near_scale10, rule near_rnd [OF near_add [OF 1 2]]) simp
  moreover have "(of_nat n / 100 + of_nat b / 1000) * 10 ^ 3 = (of_nat (10 * n + b) :: rat)"
    by (simp add: field_simps)
  moreover have "Suc 3 + 3 = (7 :: nat)" by simp
  ultimately show ?thesis by (simp only:)
qed

lemma near_store:
  assumes "near 7 (of_nat N) (scale10 3 x)" and "N < 2 ^ 21"
  shows "\<exists>m. (m = N \<or> m + 1 = N) \<and> GetBCDSendata 0x3923 x = Some (of_nat (bcd_of m))"
proof -
  define t where "t = ctrunc (scale10 3 x)"
  have t: "t = int N \<or> t = int N - 1"
    using near_trunc [OF assms] by (simp only: t_def)
  have "0 \<le> t"
  proof (cases "N = 0")
    case True
    then have "scale10 3 x = 0" using assms(1) by (simp add: near_def)
    then show ?thesis by (simp add: t_def ctrunc_def)
  next
    case False
    then show ?thesis using t by auto
  qed
  then obtain m where m: "t = int m" using nonneg_int_cases by blast
  then have mN: "m = N \<or> m + 1 = N" using t by auto
  then have "to_int32 (scale10 3 x) = Some (int m)"
    using assms(2) m by (auto simp: to_int32_def t_def)
  then have "FloatoHex 4 3 x = Some (of_nat (bcd_of m))"
    using mN assms(2) by (intro FloatoHex_of_nat) auto
  then have "GetBCDSendata 0x3923 x = Some (of_nat (bcd_of m))" by (simp add: GetBCDSendata_def)
  then show ?thesis using mN by blast
qed

lemma water_store:
  assumes "10 * n + b < 2 ^ 21"
  shows "\<exists>m. (m = 10 * n + b \<or> m + 1 = 10 * n + b) \<and>
    GetBCDSendata 0x3923 (f32 (f32 (f64 (f32 (of_nat n) / 100)) + unscale10 3 (f32 (of_nat b))))
      = Some (of_nat (bcd_of m))"
  by (rule near_store [OF water_near]) (use assms in simp_all)

lemma water_raw_store:
  assumes "10 * n < 2 ^ 21"
  shows "\<exists>m. (m = 10 * n \<or> m + 1 = 10 * n) \<and>
    GetBCDSendata 0x3923 (f32 (f64 (f32 (of_nat n) / 100))) = Some (of_nat (bcd_of m))"
proof (rule near_store)
  have n: "f32 (of_nat n) = of_nat n" using rnd_int [of "int n" 24] assms by simp
  have "near 2 (of_nat n / 100) (f32 (f64 (f32 (of_nat n) / 100)))"
    unfolding n numeral_2_eq_2 by (intro near_intros near_refl) simp_all
  from near_scale10 [OF this, of 3] have "near 5 (of_nat (10 * n)) (scale10 3 (f32 (f64 (f32 (of_nat n) / 100))))"
    by (simp add: field_simps)
  then show "near 7 (of_nat (10 * n)) (scale10 3 (f32 (f64 (f32 (of_nat n) / 100))))"
    by (rule near_mono) simp
qed (use assms in simp)

end
