(* ===== verification/Board.thy ===== *)
theory Board
  imports Prelude
begin

text \<open>
  The hardware the firmware runs on, as a parameter. \<open>'w\<close> is the state of everything outside
  the program (flash chip, clock chip, sensors); a \<open>board\<close> holds the accesses the drivers make
  to it. Component theories state what they need of it as locales. Delays only let time pass
  and are left out. The state of the firmware is a record that starts with \<open>base\<close> and is
  extended by each component with its global variables.
\<close>

datatype port = GPIOA | GPIOB | GPIOC | GPIOD | GPIOE | GPIOF | GPIOG

text \<open>The Ethernet chip: an index register and a data register.\<close>

record 'w nic =
  nic_index :: "u16 \<Rightarrow> 'w \<Rightarrow> 'w"
  nic_which :: "'w \<Rightarrow> u16"
  nic_put :: "u16 \<Rightarrow> 'w \<Rightarrow> 'w"
  nic_get :: "'w \<Rightarrow> u16 \<times> 'w"

record 'w board =
  spi1 :: "'w \<Rightarrow> u8 list \<Rightarrow> 'w \<times> u8 list"
  spi2 :: "'w \<Rightarrow> u8 list \<Rightarrow> 'w \<times> u8 list"
  pin_out :: "port \<Rightarrow> nat \<Rightarrow> bool \<Rightarrow> 'w \<Rightarrow> 'w"
  pin_in :: "port \<Rightarrow> nat \<Rightarrow> 'w \<Rightarrow> bool"
  stray_in :: "'w \<Rightarrow> bool"
  uart2_tx :: "u8 list \<Rightarrow> 'w \<Rightarrow> 'w"
  uart2_rx :: "'w \<Rightarrow> u8 list option \<times> 'w"
  rs232_tx :: "u8 list \<Rightarrow> 'w \<Rightarrow> 'w"
  f_open :: "'w \<Rightarrow> nat option"
  f_read :: "nat \<Rightarrow> 'w \<Rightarrow> u8 list option \<times> 'w"
  ethernet :: "'w nic"
  unique_id :: u32

text \<open>
  \<open>spi1\<close> and \<open>spi2\<close> are one chip-select period of the flash chip and of the UART bridge.
  \<open>stray_in\<close> is what a pin read returns whose port and pin come from past the end of a table.
  \<open>uart2_rx\<close> is what has arrived from the modem when a delay ends, if anything has; \<open>f_open\<close>
  opens the picture file and tells its size, \<open>f_read\<close> reads at most so many bytes from it (\<open>None\<close>
  is an error of the file system). \<open>unique_id\<close> is the word of the processor's serial number that the
  Ethernet address is made of.
\<close>

text \<open>A board without the Ethernet chip.\<close>

definition no_nic :: "'w nic" where
  "no_nic = \<lparr>nic_index = (\<lambda>_ w. w), nic_which = (\<lambda>_. 0), nic_put = (\<lambda>_ w. w), nic_get = (\<lambda>w. (0, w))\<rparr>"

record 'w base =
  world :: 'w
  g_rainfall_pluse_count :: u32

end
