(* ===== verification/Sensor.thy ===== *)
theory Sensor
  imports Board
begin

text \<open>
  HARDWARE/Water-Rainfall-Sensor/sensor_water.c and the rain pulse interrupt of
  THREAD/thread.c. The water level sensor delivers a 13-bit Gray code over eight input lines,
  in two halves selected by the enable lines OE1 and OE2 (active low). The reading loop makes a
  fourteenth turn, past the end of its two tables; what that turn reads is \<open>stray_in\<close>.
\<close>

section \<open>The code\<close>

function GraytoDecimal_loop :: "u32 \<Rightarrow> u32 \<Rightarrow> u32" where
  "GraytoDecimal_loop x y =
     (let x = drop_bit 1 x in if x \<noteq> 0 then GraytoDecimal_loop x (y XOR x) else y)"
  by pat_completeness auto

definition GraytoDecimal :: "u32 \<Rightarrow> u32" where
  "GraytoDecimal x = GraytoDecimal_loop x x"

definition gpio_port :: "port list" where
  "gpio_port = [GPIOE, GPIOE, GPIOE, GPIOE, GPIOE, GPIOC, GPIOC, GPIOC, GPIOE, GPIOE, GPIOE, GPIOE, GPIOE]"

definition gpio_pin :: "nat list" where
  "gpio_pin = [2, 3, 4, 5, 6, 13, 14, 15, 2, 3, 4, 5, 6]"

definition OE1 :: "'w board \<Rightarrow> bool \<Rightarrow> 'w \<Rightarrow> 'w" where
  "OE1 b v = pin_out b GPIOC 4 v"

definition OE2 :: "'w board \<Rightarrow> bool \<Rightarrow> 'w \<Rightarrow> 'w" where
  "OE2 b v = pin_out b GPIOC 5 v"

definition gray_turn :: "'w board \<Rightarrow> nat \<Rightarrow> 'w \<times> u32 \<Rightarrow> 'w \<times> u32" where
  "gray_turn b i = (\<lambda>(w, waterlevel_data).
     let w = (if i = 8 then OE2 b False (OE1 b True w) else w);
         set = (case (rd gpio_port i, rd gpio_pin i) of
            (Some port, Some pin) \<Rightarrow> pin_in b port pin w | _ \<Rightarrow> stray_in b w)
     in (w, if set then waterlevel_data OR push_bit i 1 else waterlevel_data AND NOT (push_bit i 1)))"

definition GetGrayWaterLevelData :: "'w board \<Rightarrow> 'w \<Rightarrow> 'w \<times> u32" where
  "GetGrayWaterLevelData b w =
     (let w = OE2 b True (OE1 b False w);
          (w, waterlevel_data) = fold (gray_turn b) [0..<14] (w, 0);
          w = OE2 b True (OE1 b True w)
      in (w, waterlevel_data))"

definition GetWaterLevelData :: "'w board \<Rightarrow> 'w \<Rightarrow> 'w \<times> u32" where
  "GetWaterLevelData b w =
     (let (w, waterlevel_graydata) = GetGrayWaterLevelData b w
      in (w, GraytoDecimal waterlevel_graydata))"

definition EXTI1_IRQHandler :: "('w, 'z) base_scheme \<Rightarrow> ('w, 'z) base_scheme" where
  "EXTI1_IRQHandler s = s\<lparr>g_rainfall_pluse_count := g_rainfall_pluse_count s + 1\<rparr>"

lemma drop1_less: "drop_bit 1 x \<noteq> 0 \<Longrightarrow> unat (drop_bit 1 x) < unat x" for x :: u32
proof -
  assume n: "drop_bit 1 x \<noteq> 0"
  have e: "unat (drop_bit 1 x) = unat x div 2"
    by (simp only: unat_drop_bit_eq) (simp add: drop_bit_eq_div)
  then have "unat x div 2 \<noteq> 0" using n by (metis unat_eq_0)
  then show ?thesis using e by linarith
qed

termination GraytoDecimal_loop
proof (relation "measure (\<lambda>(x, y). unat x)")
  fix x y z :: u32
  assume "z = drop_bit 1 x" and "z \<noteq> 0"
  then have "unat z < unat x" using drop1_less by blast
  then show "((z, y XOR z), x, y) \<in> measure (\<lambda>(x, y). unat x)" by simp
qed simp

declare GraytoDecimal_loop.simps [simp del]

section \<open>Gray code\<close>

definition gray_encode :: "u32 \<Rightarrow> u32" where
  "gray_encode n = n XOR drop_bit 1 n"

lemma Gray_loop_encode: "GraytoDecimal_loop (gray_encode n) (y XOR gray_encode n) = y XOR n"
proof (induction "unat n" arbitrary: n y rule: less_induct)
  case less
  let ?m = "drop_bit 1 n"
  have d: "drop_bit 1 (gray_encode n) = gray_encode ?m"
    by (simp only: gray_encode_def drop_bit_xor)
  have z: "gray_encode k = 0 \<longleftrightarrow> k = 0" for k
  proof
    assume "gray_encode k = 0"
    then have "k = drop_bit 1 k" by (simp only: gray_encode_def xor_eq_0)
    then show "k = 0" using drop1_less [of k] by fastforce
  qed (simp add: gray_encode_def)
  show ?case
  proof (cases "?m = 0")
    case True
    then have "drop_bit 1 (gray_encode n) = 0" unfolding d z .
    then show ?thesis using True
      by (subst GraytoDecimal_loop.simps) (simp add: gray_encode_def)
  next
    case False
    then have nz: "drop_bit 1 (gray_encode n) \<noteq> 0" unfolding d z .
    have "GraytoDecimal_loop (gray_encode n) (y XOR gray_encode n)
        = GraytoDecimal_loop (gray_encode ?m) ((y XOR gray_encode n) XOR gray_encode ?m)"
      using nz by (subst GraytoDecimal_loop.simps) (simp only: Let_def d if_True simp_thms)
    also have "\<dots> = (y XOR gray_encode n) XOR ?m"
      using less [of ?m] drop1_less [OF False] by blast
    also have "\<dots> = y XOR n"
      by (simp only: gray_encode_def xor.assoc xor_self_eq xor.right_neutral)
    finally show ?thesis .
  qed
qed

lemma GraytoDecimal_encode: "GraytoDecimal (gray_encode n) = n"
  using Gray_loop_encode [of n 0] by (simp add: GraytoDecimal_def)

section \<open>The sensor lines\<close>

text \<open>\<open>code\<close> is the code on the sensor; with OE1 low the lines show bits 0 to 7, with OE2 low bits 8 to 12.\<close>

locale gray_sensor =
  fixes b :: "'w board" and code :: "'w \<Rightarrow> u32"
  assumes code_pins [simp]: "code (pin_out b p k v w) = code w"
    and low_half: "i < 8 \<Longrightarrow> pin_in b (gpio_port ! i) (gpio_pin ! i) (pin_out b GPIOC 5 True (pin_out b GPIOC 4 False w)) = bit (code w) i"
    and high_half: "i < 5 \<Longrightarrow> pin_in b (gpio_port ! i) (gpio_pin ! i) (pin_out b GPIOC 5 False (pin_out b GPIOC 4 True w)) = bit (code w) (8 + i)"
begin

lemma code_OE [simp]: "code (OE1 b v w) = code w" "code (OE2 b v w) = code w"
  by (simp_all add: OE1_def OE2_def)

lemma tables: "length gpio_port = 13" "length gpio_pin = 13"
  "i < 5 \<Longrightarrow> gpio_port ! (8 + i) = gpio_port ! i \<and> gpio_pin ! (8 + i) = gpio_pin ! i"
proof -
  show "length gpio_port = 13" "length gpio_pin = 13" by (simp_all add: gpio_port_def gpio_pin_def)
  assume "i < 5"
  then have "i \<in> {0, 1, 2, 3, 4}" by auto
  then show "gpio_port ! (8 + i) = gpio_port ! i \<and> gpio_pin ! (8 + i) = gpio_pin ! i"
    by (auto simp: gpio_port_def gpio_pin_def)
qed

text \<open>The world a turn leaves, and the bit it sets.\<close>

lemma turn:
  assumes "i < 13" and "i \<le> 8 \<Longrightarrow> w = OE2 b True (OE1 b False u)" and "8 < i \<Longrightarrow> w = OE2 b False (OE1 b True u)"
  shows "\<exists>u'. code u' = code u \<and> fst (gray_turn b i (w, d)) =
      (if i < 8 then OE2 b True (OE1 b False u') else OE2 b False (OE1 b True u'))
    \<and> snd (gray_turn b i (w, d)) = (if bit (code u) i then d OR push_bit i 1 else d AND NOT (push_bit i 1))"
proof (cases "i < 8")
  case True
  then have "pin_in b (gpio_port ! i) (gpio_pin ! i) w = bit (code u) i"
    using assms(2) low_half [OF True, of u] by (simp add: OE1_def OE2_def)
  then show ?thesis using True assms by (intro exI [of _ u]) (simp add: gray_turn_def tables)
next
  case False
  define u' where "u' = (if i = 8 then w else u)"
  have u': "code u' = code u" using assms(2) by (simp add: u'_def)
  have "pin_in b (gpio_port ! i) (gpio_pin ! i) (OE2 b False (OE1 b True u')) = bit (code u') i"
    using high_half [of "i - 8" u'] tables(3) [of "i - 8"] False assms(1) by (simp add: OE1_def OE2_def)
  then show ?thesis using False assms u'
    by (intro exI [of _ u']) (auto simp: gray_turn_def tables u'_def)
qed

lemma take_bit_turn:
  "take_bit (Suc m) (c :: u32) =
     (if bit c m then take_bit m c OR push_bit m 1 else take_bit m c AND NOT (push_bit m 1))"
  by (rule bit_word_eqI)
    (auto simp: bit_take_bit_iff bit_or_iff bit_and_iff bit_not_iff bit_push_bit_iff bit_1_iff less_Suc_eq
      simp del: push_bit_of_1)

lemma turns:
  "m \<le> 13 \<Longrightarrow> \<exists>u. code u = code w \<and> fold (gray_turn b) [0..<m] (OE2 b True (OE1 b False w), 0) =
      (if m \<le> 8 then OE2 b True (OE1 b False u) else OE2 b False (OE1 b True u), take_bit m (code w))"
proof (induction m)
  case 0
  then show ?case by auto
next
  case (Suc m)
  then obtain u where u: "code u = code w" "fold (gray_turn b) [0..<m] (OE2 b True (OE1 b False w), 0) =
      (if m \<le> 8 then OE2 b True (OE1 b False u) else OE2 b False (OE1 b True u), take_bit m (code w))" by auto
  let ?v = "if m \<le> 8 then OE2 b True (OE1 b False u) else OE2 b False (OE1 b True u)"
  have "m < 13" "m \<le> 8 \<Longrightarrow> ?v = OE2 b True (OE1 b False u)" "8 < m \<Longrightarrow> ?v = OE2 b False (OE1 b True u)"
    using Suc.prems by simp_all
  from turn [OF this, of "take_bit m (code w)"]
  obtain u' where u': "code u' = code u"
    "fst (gray_turn b m (?v, take_bit m (code w))) =
      (if m < 8 then OE2 b True (OE1 b False u') else OE2 b False (OE1 b True u'))"
    "snd (gray_turn b m (?v, take_bit m (code w))) = take_bit (Suc m) (code w)"
    unfolding take_bit_turn u(1) by blast
  have "fold (gray_turn b) [0..<Suc m] (OE2 b True (OE1 b False w), 0)
      = gray_turn b m (?v, take_bit m (code w))"
    by (simp only: upt_Suc le0 if_True fold_append o_apply fold_simps u(2))
  also have "\<dots> = (if Suc m \<le> 8 then OE2 b True (OE1 b False u') else OE2 b False (OE1 b True u'), take_bit (Suc m) (code w))"
    using u'(2,3) by (simp only: prod_eq_iff fst_conv snd_conv less_eq_Suc_le)
  finally show ?case using u'(1) u(1) by metis
qed

lemma GetGray_ok:
  assumes "\<And>w. \<not> stray_in b w"
  shows "snd (GetGrayWaterLevelData b w) = take_bit 13 (code w)"
proof -
  obtain v where v: "fold (gray_turn b) [0..<13] (OE2 b True (OE1 b False w), 0) = (v, take_bit 13 (code w))"
    using turns [of 13 w] by auto
  have "[0..<14] = [0..<13] @ [13]" by (simp add: upt_rec)
  then have "fold (gray_turn b) [0..<14] (OE2 b True (OE1 b False w), 0) = gray_turn b 13 (v, take_bit 13 (code w))"
    by (simp only: fold_append o_apply fold_simps v)
  also have "\<dots> = (v, take_bit 13 (code w) AND NOT (push_bit 13 1))"
    using assms by (simp add: gray_turn_def rd_def tables)
  also have "take_bit 13 (code w) AND NOT (push_bit 13 1) = take_bit 13 (code w)"
    by (rule bit_word_eqI) (auto simp: bit_take_bit_iff bit_and_iff bit_not_iff bit_push_bit_iff bit_1_iff
        simp del: push_bit_of_1)
  finally show ?thesis by (simp add: GetGrayWaterLevelData_def split_beta)
qed

lemma GetWaterLevelData_ok:
  assumes "\<And>w. \<not> stray_in b w" and "code w = gray_encode n" and "n < 2 ^ 13"
  shows "snd (GetWaterLevelData b w) = n"
proof -
  have "take_bit 13 n = n"
    using assms(3) by (simp add: word_unat_eq_iff unsigned_take_bit_eq take_bit_nat_eq_self word_less_nat_alt)
  have "take_bit 13 (gray_encode n) = gray_encode n"
  proof (rule bit_word_eqI)
    fix k
    have "bit n k \<Longrightarrow> k < 13" and "bit n (Suc k) \<Longrightarrow> Suc k < 13"
      using \<open>take_bit 13 n = n\<close> by (metis bit_take_bit_iff)+
    then show "bit (take_bit 13 (gray_encode n)) k = bit (gray_encode n) k"
      by (auto simp: gray_encode_def bit_take_bit_iff bit_xor_iff bit_drop_bit_eq)
  qed
  then show ?thesis
    using GetGray_ok [OF assms(1), of w] assms(2)
    by (simp add: GetWaterLevelData_def split_beta GraytoDecimal_encode)
qed

end

end
