(* ===== verification/SD3078.thy ===== *)
theory SD3078
  imports Board BCD
begin

text \<open>
  The clock chip driver HARDWARE/SD3078/sd3078rtc.c: I2C over two port pins, register reads and
  writes, the time of day, alarm, countdown, frequency output and battery voltage. Every line of
  the driver is a pin write or a pin read on the board; the delays between them are left out.
  Also the computation of the next wake-up alarm.
\<close>

record Time_Def =
  t_second :: u8
  t_minute :: u8
  t_hour :: u8
  t_week :: u8
  t_day :: u8
  t_month :: u8
  t_year :: u8

record CountDown_Def =
  d_clk :: u8
  IM :: u8
  init_val :: u32

section \<open>The bus\<close>

definition SCL_H :: "'w board \<Rightarrow> 'w \<Rightarrow> 'w" where "SCL_H b = pin_out b GPIOB 6 True"
definition SCL_L :: "'w board \<Rightarrow> 'w \<Rightarrow> 'w" where "SCL_L b = pin_out b GPIOB 6 False"
definition SDA_H :: "'w board \<Rightarrow> 'w \<Rightarrow> 'w" where "SDA_H b = pin_out b GPIOB 7 True"
definition SDA_L :: "'w board \<Rightarrow> 'w \<Rightarrow> 'w" where "SDA_L b = pin_out b GPIOB 7 False"
definition SDA_read :: "'w board \<Rightarrow> 'w \<Rightarrow> bool" where "SDA_read b = pin_in b GPIOB 7"

definition I2CStart :: "'w board \<Rightarrow> 'w \<Rightarrow> bool \<times> 'w" where
  "I2CStart b w =
     (let w = SDA_H b w; w = SCL_H b w
      in if \<not> SDA_read b w then (False, w)
         else let w = SDA_L b w; w = SCL_L b w in (True, w))"

definition I2CStop :: "'w board \<Rightarrow> 'w \<Rightarrow> 'w" where
  "I2CStop b w = (let w = SCL_L b w; w = SDA_L b w; w = SCL_H b w in SDA_H b w)"

definition I2CAck :: "'w board \<Rightarrow> 'w \<Rightarrow> 'w" where
  "I2CAck b w = (let w = SCL_L b w; w = SDA_L b w; w = SCL_H b w in SCL_L b w)"

definition I2CNoAck :: "'w board \<Rightarrow> 'w \<Rightarrow> 'w" where
  "I2CNoAck b w = (let w = SCL_L b w; w = SDA_H b w; w = SCL_H b w in SCL_L b w)"

definition I2CWaitAck :: "'w board \<Rightarrow> 'w \<Rightarrow> bool \<times> 'w" where
  "I2CWaitAck b w =
     (let w = SCL_L b w; w = SDA_H b w; w = SCL_H b w
      in if SDA_read b w then (False, SCL_L b w) else (True, SCL_L b w))"

definition send_bit :: "'w board \<Rightarrow> u8 \<times> 'w \<Rightarrow> u8 \<times> 'w" where
  "send_bit b = (\<lambda>(SendByte, w).
     let w = SCL_L b w;
         w = (if SendByte AND 0x80 \<noteq> 0 then SDA_H b w else SDA_L b w);
         SendByte = push_bit 1 SendByte
     in (SendByte, SCL_H b w))"

definition I2CSendByte :: "'w board \<Rightarrow> u8 \<Rightarrow> 'w \<Rightarrow> 'w" where
  "I2CSendByte b SendByte w = (let (_, w) = (send_bit b ^^ 8) (SendByte, w) in SCL_L b w)"

definition receive_bit :: "'w board \<Rightarrow> u8 \<times> 'w \<Rightarrow> u8 \<times> 'w" where
  "receive_bit b = (\<lambda>(ReceiveByte, w).
     let ReceiveByte = push_bit 1 ReceiveByte; w = SCL_L b w; w = SCL_H b w
     in (if SDA_read b w then ReceiveByte OR 0x1 else ReceiveByte, w))"

definition I2CReceiveByte :: "'w board \<Rightarrow> 'w \<Rightarrow> u8 \<times> 'w" where
  "I2CReceiveByte b w =
     (let w = SDA_H b w; (ReceiveByte, w) = (receive_bit b ^^ 8) (0, w) in (ReceiveByte, SCL_L b w))"

text \<open>A byte sent, its acknowledgement read and ignored; a byte received and acknowledged.\<close>

definition send_ack :: "'w board \<Rightarrow> u8 \<Rightarrow> 'w \<Rightarrow> 'w" where
  "send_ack b x w = snd (I2CWaitAck b (I2CSendByte b x w))"

definition receive_ack :: "'w board \<Rightarrow> 'w \<Rightarrow> u8 \<times> 'w" where
  "receive_ack b w = (let (x, w) = I2CReceiveByte b w in (x, I2CAck b w))"

section \<open>Registers\<close>

definition RTC_Address :: u8 where "RTC_Address = 0x64"

definition WriteRTC_Enable :: "'w board \<Rightarrow> 'w \<Rightarrow> bool \<times> 'w" where
  "WriteRTC_Enable b w =
     (let (started, w) = I2CStart b w
      in if \<not> started then (False, w)
         else let w = I2CSendByte b RTC_Address w; (ack, w) = I2CWaitAck b w
              in if \<not> ack then (False, I2CStop b w)
                 else let w = send_ack b 0x10 w; w = send_ack b 0x80 w; w = I2CStop b w;
                          w = snd (I2CStart b w);
                          w = send_ack b RTC_Address w; w = send_ack b 0x0F w; w = send_ack b 0x84 w
                      in (True, I2CStop b w))"

definition WriteRTC_Disable :: "'w board \<Rightarrow> 'w \<Rightarrow> bool \<times> 'w" where
  "WriteRTC_Disable b w =
     (let (started, w) = I2CStart b w
      in if \<not> started then (False, w)
         else let w = I2CSendByte b RTC_Address w; (ack, w) = I2CWaitAck b w
              in if \<not> ack then (False, I2CStop b w)
                 else let w = send_ack b 0x0F w; w = send_ack b 0x0 w; w = send_ack b 0x0 w
                      in (True, I2CStop b w))"

definition RTC_WriteDate :: "'w board \<Rightarrow> Time_Def \<Rightarrow> 'w \<Rightarrow> bool \<times> 'w" where
  "RTC_WriteDate b psRTC w =
     (let w = snd (WriteRTC_Enable b w);
          w = snd (I2CStart b w); w = I2CSendByte b RTC_Address w; (ack, w) = I2CWaitAck b w
      in if \<not> ack then (False, I2CStop b w)
         else let w = send_ack b 0 w;
                  w = send_ack b (t_second psRTC) w;
                  w = send_ack b (t_minute psRTC) w;
                  w = send_ack b (t_hour psRTC OR 0x80) w;
                  w = send_ack b (t_week psRTC) w;
                  w = send_ack b (t_day psRTC) w;
                  w = send_ack b (t_month psRTC) w;
                  w = send_ack b (t_year psRTC) w;
                  w = I2CStop b w;
                  w = snd (WriteRTC_Disable b w)
              in (True, w))"

definition RTC_ReadDate :: "'w board \<Rightarrow> Time_Def \<Rightarrow> 'w \<Rightarrow> bool \<times> Time_Def \<times> 'w" where
  "RTC_ReadDate b psRTC w =
     (let w = snd (I2CStart b w); w = I2CSendByte b RTC_Address w; (ack, w) = I2CWaitAck b w
      in if \<not> ack then (False, psRTC, I2CStop b w)
         else let w = send_ack b 0 w; w = snd (I2CStart b w); w = send_ack b (RTC_Address + 1) w;
                  (second, w) = receive_ack b w;
                  (minute, w) = receive_ack b w;
                  (hour, w) = receive_ack b w;
                  (week, w) = receive_ack b w;
                  (day, w) = receive_ack b w;
                  (month, w) = receive_ack b w;
                  (year, w) = I2CReceiveByte b w; w = I2CNoAck b w;
                  w = I2CStop b w
              in (True, \<lparr>t_second = second, t_minute = minute, t_hour = hour AND 0x7F, t_week = week,
                    t_day = day, t_month = month, t_year = year\<rparr>, w))"

text \<open>The data loop of \<open>I2CWriteSerial\<close> drives the acknowledge bit itself.\<close>

definition I2CWriteSerial :: "'w board \<Rightarrow> u8 \<Rightarrow> u8 \<Rightarrow> u8 \<Rightarrow> u8 list \<Rightarrow> 'w \<Rightarrow> (bool \<times> 'w) option" where
  "I2CWriteSerial b DeviceAddress Address n ps w = do {
     let w = (if DeviceAddress = RTC_Address then snd (WriteRTC_Enable b w) else w);
     let w = snd (I2CStart b w);
     let w = I2CSendByte b DeviceAddress w;
     let (ack, w) = I2CWaitAck b w;
     if \<not> ack then Some (False, I2CStop b w)
     else do {
       let w = send_ack b Address w;
       data \<leftarrow> slice ps 0 (unat n);
       let w = fold (\<lambda>x w. I2CAck b (I2CSendByte b x w)) data w;
       let w = I2CStop b w;
       let w = (if DeviceAddress = RTC_Address then snd (WriteRTC_Disable b w) else w);
       Some (True, w)
     }
   }"

fun receive_acks :: "'w board \<Rightarrow> nat \<Rightarrow> 'w \<Rightarrow> u8 list \<times> 'w" where
  "receive_acks b 0 w = ([], w)"
| "receive_acks b (Suc n) w =
     (let (x, w) = receive_ack b w; (xs, w) = receive_acks b n w in (x # xs, w))"

text \<open>\<open>for (; --length > 0; ps++)\<close> on an unsigned char; the last byte is not acknowledged.\<close>

definition I2CReadSerial :: "'w board \<Rightarrow> u8 \<Rightarrow> u8 \<Rightarrow> u8 \<Rightarrow> u8 list \<Rightarrow> 'w \<Rightarrow> (bool \<times> u8 list \<times> 'w) option" where
  "I2CReadSerial b DeviceAddress Address n ps w =
     (let w = snd (I2CStart b w);
          w = I2CSendByte b DeviceAddress w;
          (ack, w) = I2CWaitAck b w
      in if \<not> ack then Some (False, ps, I2CStop b w)
         else let w = send_ack b Address w; w = snd (I2CStart b w); w = send_ack b (DeviceAddress + 1) w;
                  (xs, w) = receive_acks b (unat (n - 1)) w;
                  (x, w) = I2CReceiveByte b w; w = I2CNoAck b w; w = I2CStop b w
              in (case blit ps 0 (xs @ [x]) of None \<Rightarrow> None | Some ps \<Rightarrow> Some (True, ps, w)))"

section \<open>Interrupts, alarm and voltage\<close>

definition Set_CountDown :: "'w board \<Rightarrow> CountDown_Def \<Rightarrow> 'w \<Rightarrow> 'w option" where
  "Set_CountDown b c w = do {
     let buf = [push_bit 6 (IM c) OR 0xB4, push_bit 4 (d_clk c), 0,
        ucast (init_val c AND 0x0000FF), ucast (drop_bit 8 (init_val c AND 0x00FF00)),
        ucast (drop_bit 16 (init_val c AND 0xFF0000))];
     (_, w) \<leftarrow> I2CWriteSerial b RTC_Address 0x10 1 [0xF0] w;
     (_, w) \<leftarrow> I2CWriteSerial b RTC_Address 0x10 6 buf w;
     Some w
   }"

definition Set_Alarm :: "'w board \<Rightarrow> u8 \<Rightarrow> Time_Def \<Rightarrow> 'w \<Rightarrow> 'w option" where
  "Set_Alarm b Enable_config psRTC w = do {
     let buf = [t_second psRTC, t_minute psRTC, t_hour psRTC, 0, t_day psRTC, t_month psRTC, t_year psRTC,
        Enable_config, 0xFF, 0x92];
     (_, w) \<leftarrow> I2CWriteSerial b RTC_Address 0x07 10 buf w;
     Some w
   }"

definition SetFrq :: "'w board \<Rightarrow> u8 \<Rightarrow> 'w \<Rightarrow> 'w option" where
  "SetFrq b F_Out w = do { (_, w) \<leftarrow> I2CWriteSerial b RTC_Address 0x10 2 [0xA1, F_Out] w; Some w }"

definition ClrINT :: "'w board \<Rightarrow> u8 \<Rightarrow> 'w \<Rightarrow> 'w option" where
  "ClrINT b int_EN w = do { (_, w) \<leftarrow> I2CWriteSerial b RTC_Address 0x10 1 [0x80 AND NOT int_EN] w; Some w }"

text \<open>The time for which \<open>SetNextFiveMinuteAlarm\<close> sets the alarm, from the current minute in BCD.\<close>

definition next_alarm :: "u8 \<Rightarrow> Time_Def" where
  "next_alarm curr_minute =
     (let minutes = drop_bit 4 curr_minute * 10 + (curr_minute AND 0x0f);
          alarm_minutes = (minutes div 5 + 1) * 5;
          alarm_minutes = alarm_minutes - 1;
          minute = (alarm_minutes div 10) * 16 + alarm_minutes mod 10;
          minute = (if curr_minute \<ge> minute then (if minute < 0x59 then minute + 0x05 else 0x04) else minute)
      in \<lparr>t_second = 0x50, t_minute = minute, t_hour = 0, t_week = 0, t_day = 0, t_month = 0, t_year = 0\<rparr>)"

definition SetNextFiveMinuteAlarm :: "'w board \<Rightarrow> Time_Def \<Rightarrow> 'w \<Rightarrow> 'w option" where
  "SetNextFiveMinuteAlarm b curr_time w = Set_Alarm b (0x02 OR 0x01) (next_alarm (t_minute curr_time)) w"

definition GetSD3078Voltage :: "'w board \<Rightarrow> 'w \<Rightarrow> (u16 \<times> 'w) option" where
  "GetSD3078Voltage b w = do {
     (_, read_buf, w) \<leftarrow> I2CReadSerial b RTC_Address 0x1A 2 (replicate 8 0) w;
     let voltage = ucast (drop_bit 7 (read_buf ! 0)) * 255 + ucast (read_buf ! 1);
     Some (voltage, w)
   }"

definition SetSD3078LowVoltage_Alarm :: "'w board \<Rightarrow> 'w \<Rightarrow> 'w option" where
  "SetSD3078LowVoltage_Alarm b w = do {
     (_, w) \<leftarrow> I2CWriteSerial b RTC_Address 0x19 1 [0x61] w;
     (_, _, w) \<leftarrow> I2CReadSerial b RTC_Address 0x19 1 [0] w;
     Some w
   }"

definition write_date :: "'w board \<Rightarrow> u8 \<Rightarrow> u8 \<Rightarrow> u8 \<Rightarrow> u8 \<Rightarrow> u8 \<Rightarrow> u8 \<Rightarrow> 'w \<Rightarrow> 'w" where
  "write_date b year month day hour minute seconds w =
     snd (RTC_WriteDate b \<lparr>t_second = seconds, t_minute = minute, t_hour = hour, t_week = 0,
        t_day = day, t_month = month, t_year = year\<rparr> w)"

section \<open>The wake-up minute\<close>

lemma next_alarm_table:
  "\<forall>m \<in> set [0..<60]. t_minute (next_alarm (of_nat (bcd2 m))) =
     (if m mod 5 = 4 then (if m = 59 then 0x04 else of_nat (bcd2 m) + 5)
      else of_nat (bcd2 (m - m mod 5 + 4)))"
  by code_simp

end
