(* ===== verification/Rtc.thy ===== *)
theory Rtc
  imports Prelude
begin

text \<open>
  The calendar of HARDWARE/RTC/rtc.c: seconds since 1970 in the counter of the STM32 and back
  to a date, the day of the week. \<open>RTC_SetCounter\<close>, \<open>RTC_SetAlarm\<close> and \<open>RTC_GetCounter\<close> are
  the two registers \<open>counter\<close> and \<open>alarm_reg\<close>; the static variable of \<open>RTC_Get\<close> is \<open>daycnt\<close>.
  The specification is the number of days of the proleptic Gregorian calendar.
\<close>

section \<open>The code\<close>

record calendar_obj =
  cal_hour :: u8
  cal_min :: u8
  cal_sec :: u8
  w_year :: u16
  w_month :: u8
  w_date :: u8
  week :: u8

record rtc =
  counter :: u32
  alarm_reg :: u32
  daycnt :: u16
  calendar :: calendar_obj

definition mon_table :: "u8 list" where
  "mon_table = [31, 28, 31, 30, 31, 30, 31, 31, 30, 31, 30, 31]"

definition table_week :: "u8 list" where
  "table_week = [0, 3, 3, 6, 1, 4, 6, 2, 5, 0, 3, 5]"

definition Is_Leap_Year :: "u16 \<Rightarrow> bool" where
  "Is_Leap_Year year =
     (if year mod 4 = 0 then
        (if year mod 100 = 0 then (if year mod 400 = 0 then True else False) else True)
      else False)"

text \<open>\<open>for (t = 1970; t < syear; t++)\<close>\<close>

definition year_secs :: "u16 \<Rightarrow> u32 \<Rightarrow> u32" where
  "year_secs syear seccount =
     fold (\<lambda>t seccount. if Is_Leap_Year (of_nat t) then seccount + 31622400 else seccount + 31536000)
       [1970..<unat syear] seccount"

text \<open>\<open>for (t = 0; t < smon; t++)\<close>, the months counted from \<open>t\<close>\<close>

fun month_secs :: "u16 \<Rightarrow> nat \<Rightarrow> nat \<Rightarrow> u32 \<Rightarrow> u32 option" where
  "month_secs syear 0 t seccount = Some seccount"
| "month_secs syear (Suc n) t seccount = do {
     m \<leftarrow> rd mon_table t;
     let seccount = seccount + ucast m * 86400;
     let seccount = (if Is_Leap_Year syear \<and> t = 1 then seccount + 86400 else seccount);
     month_secs syear n (Suc t) seccount
   }"

definition date_secs :: "u16 \<Rightarrow> u8 \<Rightarrow> u8 \<Rightarrow> u8 \<Rightarrow> u8 \<Rightarrow> u8 \<Rightarrow> u32 option" where
  "date_secs syear smon sday hour minute second = do {
     let seccount = year_secs syear 0;
     let smon = smon - 1;
     seccount \<leftarrow> month_secs syear (unat smon) 0 seccount;
     let seccount = seccount + word_of_int (uint sday - 1) * 86400;
     let seccount = seccount + ucast hour * 3600;
     let seccount = seccount + ucast minute * 60;
     Some (seccount + ucast second)
   }"

definition RTC_Set :: "rtc \<Rightarrow> u16 \<Rightarrow> u8 \<Rightarrow> u8 \<Rightarrow> u8 \<Rightarrow> u8 \<Rightarrow> u8 \<Rightarrow> (u8 \<times> rtc) option" where
  "RTC_Set s syear smon sday hour minute second =
     (if syear < 1970 \<or> syear > 2099 then Some (1, s)
      else do {
        seccount \<leftarrow> date_secs syear smon sday hour minute second;
        Some (0, s\<lparr>counter := seccount\<rparr>)
      })"

definition RTC_Alarm_Set :: "rtc \<Rightarrow> u16 \<Rightarrow> u8 \<Rightarrow> u8 \<Rightarrow> u8 \<Rightarrow> u8 \<Rightarrow> u8 \<Rightarrow> (u8 \<times> rtc) option" where
  "RTC_Alarm_Set s syear smon sday hour minute second =
     (if syear < 1970 \<or> syear > 2099 then Some (1, s)
      else do {
        seccount \<leftarrow> date_secs syear smon sday hour minute second;
        Some (0, s\<lparr>alarm_reg := seccount\<rparr>)
      })"

definition RTC_Get_Week :: "u16 \<Rightarrow> u8 \<Rightarrow> u8 \<Rightarrow> u8 option" where
  "RTC_Get_Week year month day = do {
     let yearH = (ucast (year div 100) :: u8);
     let yearL = (ucast (year mod 100) :: u8);
     let yearL = (if yearH > 19 then yearL + 100 else yearL);
     let temp2 = (ucast yearL + ucast (yearL div 4) :: u16);
     let temp2 = temp2 mod 7;
     w \<leftarrow> (if month = 0 then None else rd table_week (unat month - 1));
     let temp2 = temp2 + ucast day + ucast w;
     let temp2 = (if yearL mod 4 = 0 \<and> month < 3 then temp2 - 1 else temp2);
     Some (ucast (temp2 mod 7))
   }"

lemma mon_table_pos: "rd mon_table i = Some m \<Longrightarrow> 0 < m"
proof -
  assume a: "rd mon_table i = Some m"
  have "m \<in> set mon_table" using a by (auto simp: rd_def split: if_splits)
  then show ?thesis by (auto simp: mon_table_def)
qed

lemma sub_less: "k \<le> t \<Longrightarrow> 0 < k \<Longrightarrow> unat (t - k) < unat t" for t :: u32
  by (simp add: unat_sub word_le_nat_alt word_less_nat_alt)

text \<open>\<open>while (temp >= 365)\<close>\<close>

function get_year :: "u32 \<Rightarrow> u16 \<Rightarrow> u32 \<times> u16" where
  "get_year temp temp1 =
     (if temp \<ge> 365 then
        if Is_Leap_Year temp1 then
          if temp \<ge> 366 then get_year (temp - 366) (temp1 + 1) else (temp, temp1 + 1)
        else get_year (temp - 365) (temp1 + 1)
      else (temp, temp1))"
  by pat_completeness auto
termination
  by (relation "measure (\<lambda>(temp, temp1). unat temp)") (auto intro: sub_less)

text \<open>\<open>while (temp >= 28)\<close>; \<open>None\<close> is a read past the end of \<open>mon_table\<close>\<close>

function get_month :: "u16 \<Rightarrow> u32 \<Rightarrow> u16 \<Rightarrow> (u32 \<times> u16) option" where
  "get_month year temp temp1 =
     (if temp \<ge> 28 then
        if Is_Leap_Year year \<and> temp1 = 1 then
          if temp \<ge> 29 then get_month year (temp - 29) (temp1 + 1) else Some (temp, temp1)
        else (case rd mon_table (unat temp1) of
          None \<Rightarrow> None
        | Some m \<Rightarrow>
            if temp \<ge> ucast m then get_month year (temp - ucast m) (temp1 + 1) else Some (temp, temp1))
      else Some (temp, temp1))"
  by pat_completeness auto
termination
  by (relation "measure (\<lambda>(year, temp, temp1). unat temp)")
    (auto intro!: sub_less dest!: mon_table_pos simp: word_less_nat_alt)

definition RTC_Get :: "rtc \<Rightarrow> (u8 \<times> rtc) option" where
  "RTC_Get s = do {
     let timecount = counter s;
     let temp = timecount div 86400;
     s \<leftarrow> (if ucast (daycnt s) \<noteq> temp then do {
            let s = s\<lparr>daycnt := ucast temp\<rparr>;
            let (temp, temp1) = get_year temp 1970;
            let s = s\<lparr>calendar := (calendar s)\<lparr>w_year := temp1\<rparr>\<rparr>;
            (temp, temp1) \<leftarrow> get_month (w_year (calendar s)) temp 0;
            Some (s\<lparr>calendar := (calendar s)\<lparr>w_month := ucast temp1 + 1, w_date := ucast temp + 1\<rparr>\<rparr>)
          } else Some s);
     let temp = timecount mod 86400;
     let s = s\<lparr>calendar := (calendar s)\<lparr>cal_hour := ucast (temp div 3600),
 cal_min := ucast (temp mod 3600 div 60), cal_sec := ucast (temp mod 3600 mod 60)\<rparr>\<rparr>;
     w \<leftarrow> RTC_Get_Week (w_year (calendar s)) (w_month (calendar s)) (w_date (calendar s));
     Some (0, s\<lparr>calendar := (calendar s)\<lparr>week := w\<rparr>\<rparr>)
   }"

declare get_year.simps [simp del] get_month.simps [simp del]

section \<open>The Gregorian calendar\<close>

definition leap :: "nat \<Rightarrow> bool" where
  "leap y \<longleftrightarrow> (y mod 4 = 0 \<and> y mod 100 \<noteq> 0) \<or> y mod 400 = 0"

definition year_len :: "nat \<Rightarrow> nat" where
  "year_len y = (if leap y then 366 else 365)"

text \<open>Months are counted from 0 here.\<close>

definition month_len :: "nat \<Rightarrow> nat \<Rightarrow> nat" where
  "month_len y i = (if i = 1 \<and> leap y then 29 else [31, 28, 31, 30, 31, 30, 31, 31, 30, 31, 30, 31] ! i)"

definition span :: "(nat \<Rightarrow> nat) \<Rightarrow> nat \<Rightarrow> nat \<Rightarrow> nat" where
  "span f i j = sum_list (map f [i..<j])"

lemma span_Nil [simp]: "j \<le> i \<Longrightarrow> span f i j = 0"
  by (simp add: span_def)

lemma span_first: "i < j \<Longrightarrow> span f i j = f i + span f (Suc i) j"
  by (simp add: span_def upt_conv_Cons)

lemma span_last: "i \<le> j \<Longrightarrow> span f i (Suc j) = span f i j + f j"
  by (simp add: span_def)

lemma span_mono: "j \<le> k \<Longrightarrow> span f i j \<le> span f i k"
proof (cases "i \<le> j")
  case True
  assume "j \<le> k"
  then have "[i..<k] = [i..<j] @ [j..<k]" using True by (metis le_Suc_ex upt_add_eq_append)
  then show ?thesis by (simp add: span_def)
qed simp

definition day_number :: "nat \<Rightarrow> nat \<Rightarrow> nat \<Rightarrow> nat" where
  "day_number y m d = span year_len 1970 y + span (month_len y) 0 (m - 1) + (d - 1)"

definition valid_ymd :: "nat \<Rightarrow> nat \<Rightarrow> nat \<Rightarrow> bool" where
  "valid_ymd y m d \<longleftrightarrow> 1970 \<le> y \<and> y \<le> 2099 \<and> 1 \<le> m \<and> m \<le> 12 \<and> 1 \<le> d \<and> d \<le> month_len y (m - 1)"

lemma month_cases: "i < 12 \<Longrightarrow> i \<in> {0, 1, 2, 3, 4, 5, 6, 7, 8, 9, 10, 11 :: nat}"
  by (simp, presburger)

lemma month_len_bounds: "i < 12 \<Longrightarrow> 28 \<le> month_len y i \<and> month_len y i \<le> 31"
  by (drule month_cases) (auto simp: month_len_def)

lemma mon_table_rd: "i < 12 \<Longrightarrow> \<exists>m. rd mon_table i = Some m \<and> month_len y i = (if i = 1 \<and> leap y then 29 else unat m)
    \<and> (i = 1 \<longrightarrow> unat m = 28)"
  by (drule month_cases) (auto simp: mon_table_def month_len_def)

lemma year_span: "span (month_len y) 0 12 = year_len y"
  by (simp add: span_def month_len_def year_len_def upt_rec numeral_eq_Suc)

lemma u16_mod_eq_0:
  assumes "y < 65536" and "k < 65536"
  shows "(of_nat y :: u16) mod of_nat k = 0 \<longleftrightarrow> y mod k = 0"
  using assms by (simp add: word_unat_eq_iff unat_mod)

lemma Is_Leap_Year_eq: "y < 65536 \<Longrightarrow> Is_Leap_Year (of_nat y) = leap y"
proof -
  assume y: "y < 65536"
  note m = u16_mod_eq_0 [OF y]
  show ?thesis
    using m [of 4] m [of 100] m [of 400] unfolding Is_Leap_Year_def leap_def by (auto simp: mod_0_imp_dvd)
qed

section \<open>Setting the clock\<close>

lemma year_secs_eq:
  assumes "y < 65536"
  shows "year_secs (of_nat y) s = s + of_nat (86400 * span year_len 1970 y)"
proof -
  have loop: "fold (\<lambda>t s. if Is_Leap_Year (of_nat t) then s + 31622400 else s + 31536000) ts s
      = s + of_nat (86400 * sum_list (map year_len ts))" if "set ts \<subseteq> {..<65536}" for ts
    using that by (induction ts arbitrary: s) (auto simp: Is_Leap_Year_eq year_len_def algebra_simps)
  have "set [1970..<y] \<subseteq> {..<65536}" using assms by auto
  from loop [OF this] show ?thesis using assms by (simp add: year_secs_def span_def)
qed

lemma month_secs_eq:
  "\<lbrakk>y < 65536; t + n \<le> 12\<rbrakk> \<Longrightarrow>
   month_secs (of_nat y) n t s = Some (s + of_nat (86400 * span (month_len y) t (t + n)))"
proof (induction n arbitrary: t s)
  case 0
  then show ?case by simp
next
  case (Suc n)
  have t: "t < 12" using Suc.prems by simp
  obtain m where m: "rd mon_table t = Some m" "month_len y t = (if t = 1 \<and> leap y then 29 else unat m)"
    "t = 1 \<longrightarrow> unat m = 28"
    using mon_table_rd [OF t] by blast
  have u: "(ucast m :: u32) = of_nat (unat m)" by simp
  have "(if leap y \<and> t = 1 then s + ucast m * 86400 + 86400 else s + ucast m * 86400)
      = s + of_nat (86400 * month_len y t)"
    using m(3) unfolding u m(2) by (auto simp: algebra_simps)
  then show ?case
    using Suc m(1) span_first [of t "t + Suc n" "month_len y"]
    by (simp add: Is_Leap_Year_eq Let_def algebra_simps)
qed

lemma date_secs_eq:
  assumes "valid_ymd y m d"
  shows "date_secs (of_nat y) (of_nat m) (of_nat d) h mi se =
    Some (of_nat (86400 * day_number y m d + 3600 * unat h + 60 * unat mi + unat se))"
proof -
  have v: "y < 65536" "1 \<le> m" "m \<le> 12" "1 \<le> d" "d \<le> month_len y (m - 1)"
    using assms by (auto simp: valid_ymd_def)
  moreover have "m - 1 < 12" using v by simp
  ultimately have "d \<le> 31" using month_len_bounds [of "m - 1" y] by linarith
  have "(of_nat m :: u8) - 1 = of_nat (m - 1)" using v by (simp add: of_nat_diff)
  moreover have "unat (of_nat (m - 1) :: u8) = m - 1"
    by (rule unat_of_nat_small) (use v in simp)
  ultimately have m1: "unat ((of_nat m :: u8) - 1) = m - 1" by (simp only:)
  have "uint (of_nat d :: u8) - 1 = int (d - 1)" using v \<open>d \<le> 31\<close> by (simp add: uint_nat)
  then have d1: "(word_of_int (uint (of_nat d :: u8) - 1) :: u32) = of_nat (d - 1)" by simp
  have u: "(ucast x :: u32) = of_nat (unat x)" for x :: u8 by simp
  show ?thesis
    using month_secs_eq [OF v(1), of 0 "m - 1"] v
    by (simp only: date_secs_def Let_def bind.bind_lunit m1 year_secs_eq [OF v(1)] d1 u add_0 day_number_def)
      (simp add: algebra_simps)
qed

section \<open>Reading the clock\<close>

text \<open>Whole years, then whole months, are taken off.\<close>

lemma get_year_skip:
  "\<lbrakk>k \<le> y; y < 65535; span year_len k y + r < 2 ^ 32\<rbrakk> \<Longrightarrow>
   get_year (of_nat (span year_len k y + r)) (of_nat k) = get_year (of_nat r) (of_nat y)"
proof (induction "y - k" arbitrary: k)
  case 0
  then have "k = y" by simp
  then show ?case by simp
next
  case (Suc n)
  then have k: "k < y" "k < 65536" by auto
  let ?N = "span year_len k y + r"
  have N: "?N = year_len k + (span year_len (Suc k) y + r)"
    using k(1) by (simp add: span_first)
  define w w' where "w = (of_nat ?N :: u32)" and "w' = (of_nat (span year_len (Suc k) y + r) :: u32)"
  have ge: "of_nat j \<le> w \<longleftrightarrow> j \<le> ?N" if "j < 2 ^ 32" for j
  proof -
    have "?N < 2 ^ LENGTH(32)" and "j < 2 ^ LENGTH(32)" using that Suc.prems(3) by simp_all
    then show ?thesis unfolding word_le_nat_alt w_def by (simp only: unat_of_nat_small)
  qed
  have l: "year_len k \<le> ?N" using N by simp
  have s: "w - of_nat (year_len k) = w'" unfolding w_def w'_def N by simp
  have k1: "(of_nat k :: u16) + 1 = of_nat (Suc k)" by simp
  have "get_year w (of_nat k) = get_year w' (of_nat (Suc k))"
  proof (cases "leap k")
    case True
    then have "365 \<le> w" "366 \<le> w" "w - 366 = w'"
      using l s ge [of 365] ge [of 366] by (simp_all add: year_len_def)
    then show ?thesis using True
      by (subst get_year.simps) (simp only: if_True simp_thms Is_Leap_Year_eq [OF k(2)] k1)
  next
    case False
    then have "365 \<le> w" "w - 365 = w'"
      using l s ge [of 365] by (simp_all add: year_len_def)
    then show ?thesis using False
      by (subst get_year.simps) (simp only: if_True if_False simp_thms Is_Leap_Year_eq [OF k(2)] k1)
  qed
  also have "\<dots> = get_year (of_nat r) (of_nat y)"
    unfolding w'_def by (rule Suc.hyps(1)) (use Suc.hyps(2) Suc.prems N k(1) in auto)
  finally have "get_year w (of_nat k) = get_year (of_nat r) (of_nat y)" .
  then show ?case unfolding w_def .
qed

lemma get_year_eq:
  assumes "k \<le> y" and "y < 65535" and r: "r < year_len y" "\<not> (leap y \<and> r = 365)" and "span year_len k y + r < 2 ^ 32"
  shows "get_year (of_nat (span year_len k y + r)) (of_nat k) = (of_nat r, of_nat y)"
proof -
  have "r < 365" using r by (auto simp: year_len_def split: if_splits)
  then have "\<not> 365 \<le> (of_nat r :: u32)" by (simp add: word_le_nat_alt)
  then show ?thesis using get_year_skip [OF assms(1,2,5)] by (subst (asm) (2) get_year.simps) simp
qed

text \<open>On the last day of a leap year the loop stops one year late.\<close>

lemma get_year_last:
  assumes "k \<le> y" and "y < 65535" and "leap y" and "span year_len k y + 365 < 2 ^ 32"
  shows "get_year (of_nat (span year_len k y + 365)) (of_nat k) = (365, of_nat (Suc y))"
proof -
  have "get_year 365 (of_nat y) = (365, of_nat (Suc y))"
    using assms(2,3) by (subst get_year.simps) (simp add: Is_Leap_Year_eq)
  then show ?thesis using get_year_skip [OF assms(1,2,4)] by simp
qed

lemma get_month_skip:
  "\<lbrakk>k \<le> i; i \<le> 12; y < 65536; r < 32\<rbrakk> \<Longrightarrow>
   get_month (of_nat y) (of_nat (span (month_len y) k i + r)) (of_nat k) = get_month (of_nat y) (of_nat r) (of_nat i)"
proof (induction "i - k" arbitrary: k)
  case 0
  then have "k = i" by simp
  then show ?case by simp
next
  case (Suc n)
  then have k: "k < i" "k < 12" by auto
  obtain m where m: "rd mon_table k = Some m" "month_len y k = (if k = 1 \<and> leap y then 29 else unat m)"
    using mon_table_rd [OF k(2)] by blast
  let ?N = "span (month_len y) k i + r"
  have N: "?N = month_len y k + (span (month_len y) (Suc k) i + r)" using k(1) by (simp add: span_first)
  have u: "unat (of_nat k :: u16) = k" "(of_nat k :: u16) = 1 \<longleftrightarrow> k = 1"
    using k by (simp_all add: word_unat_eq_iff)
  have "span (month_len y) k i \<le> span (month_len y) 0 12"
  proof -
    have "span (month_len y) 0 i = span (month_len y) 0 k + span (month_len y) k i"
      using upt_add_eq_append [of 0 k "i - k"] k(1) by (simp add: span_def)
    then show ?thesis using span_mono [of i 12 "month_len y" 0] Suc.prems(2) by simp
  qed
  define w w' where "w = (of_nat ?N :: u32)" and "w' = (of_nat (span (month_len y) (Suc k) i + r) :: u32)"
  from \<open>span (month_len y) k i \<le> span (month_len y) 0 12\<close>
  have "?N < 2 ^ LENGTH(32)" using Suc.prems(4)
    by (simp add: year_span year_len_def split: if_splits)
  then have uN: "unat w = ?N" unfolding w_def by (rule unat_of_nat_small)
  have l: "month_len y k \<le> ?N" "28 \<le> month_len y k" using N month_len_bounds [OF k(2)] by simp_all
  have s: "w - of_nat (month_len y k) = w'" unfolding w_def w'_def N by simp
  have k1: "(of_nat k :: u16) + 1 = of_nat (Suc k)" by simp
  have um: "(ucast m :: u32) = of_nat (unat m)" by simp
  have "get_month (of_nat y) w (of_nat k) = get_month (of_nat y) w' (of_nat (Suc k))"
  proof (cases "k = 1 \<and> leap y")
    case True
    then have "month_len y k = 29" using m(2) by simp
    then have "28 \<le> w" "29 \<le> w" "w - 29 = w'"
      using l s by (simp_all add: word_le_nat_alt uN)
    moreover from True have t: "((of_nat k :: u16) = 1) = True" and ly: "leap y = True"
      using u(2) by blast+
    ultimately show ?thesis
      by (subst get_month.simps) (simp only: if_True simp_thms Is_Leap_Year_eq [OF Suc.prems(3)] t ly k1)
  next
    case False
    then have "28 \<le> w" "ucast m \<le> w" "w - ucast m = w'"
      using l s m(2) by (simp_all only: word_le_nat_alt uN um if_False) (simp_all add: word_le_nat_alt)
    moreover from False have f: "(leap y \<and> k = 1) = False" by blast
    ultimately show ?thesis using m(1)
      by (subst get_month.simps)
        (simp only: f if_True if_False simp_thms Is_Leap_Year_eq [OF Suc.prems(3)] u k1 option.case)
  qed
  also have "\<dots> = get_month (of_nat y) (of_nat r) (of_nat i)"
    unfolding w'_def by (rule Suc.hyps(1)) (use Suc.hyps(2) Suc.prems k(1) in auto)
  finally have "get_month (of_nat y) w (of_nat k) = get_month (of_nat y) (of_nat r) (of_nat i)" .
  then show ?case unfolding w_def .
qed

lemma get_month_eq:
  assumes "k \<le> i" and i12: "i < 12" and y: "y < 65536" and r: "r < month_len y i"
  shows "get_month (of_nat y) (of_nat (span (month_len y) k i + r)) (of_nat k) = Some (of_nat r, of_nat i)"
proof -
  obtain m where m: "rd mon_table i = Some m" "month_len y i = (if i = 1 \<and> leap y then 29 else unat m)"
    using mon_table_rd [OF i12] by blast
  have i: "unat (of_nat i :: u16) = i" "(of_nat i :: u16) = 1 \<longleftrightarrow> i = 1"
    using i12 by (simp_all add: word_unat_eq_iff)
  have "r < 32" using r month_len_bounds [OF i12, of y] by simp
  moreover from this have "unat (of_nat r :: u32) = r" by simp
  then have "get_month (of_nat y) (of_nat r) (of_nat i) = Some (of_nat r, of_nat i)"
    using m r y by (subst get_month.simps) (auto simp: i word_le_nat_alt Is_Leap_Year_eq split: if_splits)
  ultimately show ?thesis using get_month_skip [OF assms(1) less_imp_le [OF i12] y] by simp
qed

section \<open>The day of the week\<close>

text \<open>1 January 1970 was a Thursday; Sunday is 0.\<close>

definition weekday :: "nat \<Rightarrow> nat \<Rightarrow> nat \<Rightarrow> nat" where
  "weekday y m d = (day_number y m d + 4) mod 7"

text \<open>What the code adds for the year and for the month.\<close>

definition year_code :: "nat \<Rightarrow> nat" where
  "year_code y = (y - 1900) + (y - 1900) div 4"

definition month_code :: "nat \<Rightarrow> nat" where
  "month_code i = [0, 3, 3, 6, 1, 4, 6, 2, 5, 0, 3, 5] ! i"

lemma leap_div4:
  assumes "1970 \<le> y" and "y \<le> 2099"
  shows "leap y \<longleftrightarrow> y mod 4 = 0"
proof (cases "y mod 100 = 0")
  case True
  then obtain q where q: "y = 100 * q" by auto
  then have "q = 19 \<or> q = 20" using assms by presburger
  then have "y = 1900 \<or> y = 2000" using q by auto
  then show ?thesis using assms by (auto simp: leap_def)
next
  case False
  moreover have "y mod 400 = 0 \<longrightarrow> y mod 100 = 0" by presburger
  ultimately show ?thesis by (auto simp: leap_def)
qed

lemma div4_step: "Suc k div 4 = k div 4 + of_bool (Suc k mod 4 = 0)"
  by (cases "Suc k mod 4 = 0") (simp_all, presburger+)

lemma year_code_span:
  "\<lbrakk>1970 \<le> y; y \<le> 2099\<rbrakk> \<Longrightarrow>
   (year_code y + 1 + 6 * of_bool (leap y)) mod 7 = (span year_len 1970 y + 4) mod 7"
proof (induction y rule: dec_induct)
  case base
  show ?case by (simp add: year_code_def leap_def)
next
  case (step y)
  have c: "year_code (Suc y) = year_code y + 1 + of_bool (leap (Suc y))"
  proof -
    obtain k where k: "y = 1900 + k" using step le_Suc_ex [of 1900 y] by auto
    have "Suc (1900 + k) mod 4 = Suc k mod 4" by presburger
    then have "(Suc y - 1900) div 4 = (y - 1900) div 4 + of_bool (Suc y mod 4 = 0)"
      using div4_step [of k] unfolding k by simp
    moreover have "Suc y - 1900 = (y - 1900) + 1" using k by simp
    ultimately show ?thesis using step leap_div4 [of "Suc y"] unfolding year_code_def by simp
  qed
  define l l' D where "l = (of_bool (leap y) :: nat)" and "l' = (of_bool (leap (Suc y)) :: nat)"
    and "D = span year_len 1970 y"
  have "span year_len 1970 (Suc y) + 4 = (D + 4) + (365 + l)"
    using step by (simp add: span_last year_len_def D_def l_def)
  then have "(span year_len 1970 (Suc y) + 4) mod 7 = ((D + 4) mod 7 + (365 + l)) mod 7"
    by (simp only: mod_add_left_eq)
  also have "(D + 4) mod 7 = (year_code y + 1 + 6 * l) mod 7"
    using step by (simp add: D_def l_def)
  also have "((year_code y + 1 + 6 * l) mod 7 + (365 + l)) mod 7 = (year_code y + 2 + 7 * (52 + l)) mod 7"
    by (simp only: mod_add_left_eq) (simp add: algebra_simps)
  also have "\<dots> = (year_code y + 2) mod 7" by (rule mod_mult_self2)
  also have "\<dots> = (year_code y + 2 + 7 * l') mod 7" by (rule mod_mult_self2 [symmetric])
  also have "year_code y + 2 + 7 * l' = year_code (Suc y) + 1 + 6 * l'" by (simp add: c l'_def)
  finally show ?case by (simp only: l'_def)
qed

definition month_len_b :: "bool \<Rightarrow> nat \<Rightarrow> nat" where
  "month_len_b b i = (if i = 1 \<and> b then 29 else [31, 28, 31, 30, 31, 30, 31, 31, 30, 31, 30, 31] ! i)"

lemma month_code_table:
  "\<forall>i \<in> set [0..<12]. (span (month_len_b b) 0 i + of_bool (b \<and> i < 2)) mod 7 = (month_code i + of_bool b) mod 7"
  by (cases b) (simp_all only:, code_simp+)

lemma month_code_span:
  "i < 12 \<Longrightarrow> (span (month_len y) 0 i + of_bool (leap y \<and> i < 2)) mod 7 = (month_code i + of_bool (leap y)) mod 7"
proof -
  assume "i < 12"
  moreover have "month_len y = month_len_b (leap y)" by (rule ext) (simp add: month_len_def month_len_b_def)
  ultimately show ?thesis using month_code_table [of "leap y"] by simp
qed

lemma mod7_week:
  fixes yc mc D S d e l :: nat
  assumes "(yc + 1 + 6 * l) mod 7 = (D + 4) mod 7" and "(S + e) mod 7 = (mc + l) mod 7"
    and "1 \<le> d" and "e \<le> d"
  shows "(yc mod 7 + d + mc - e) mod 7 = (D + S + (d - 1) + 4) mod 7"
proof -
  obtain a b where 1: "yc + 1 + 6 * l + 7 * a = D + 4 + 7 * b"
    using assms(1) by (auto simp: nat_mod_eq_iff)
  obtain p q where 2: "S + e + 7 * p = mc + l + 7 * q"
    using assms(2) by (auto simp: nat_mod_eq_iff)
  have "yc mod 7 + 7 * (yc div 7) = yc" by simp
  moreover have "(yc mod 7 + d + mc - e) + e = yc mod 7 + d + mc" using assms(4) by simp
  moreover have "(d - 1) + 1 = d" using assms(3) by simp
  ultimately have "(yc mod 7 + d + mc - e) + 7 * (yc div 7 + l + a + q) = (D + S + (d - 1) + 4) + 7 * (b + p)"
    using 1 2 by (simp only: distrib_left)
  then show ?thesis unfolding nat_mod_eq_iff by blast
qed

lemma RTC_Get_Week_eq:
  assumes "1970 \<le> y" and "y \<le> 2099" and "1 \<le> m" and "m \<le> 12" and "1 \<le> d" and "d \<le> 31"
  shows "RTC_Get_Week (of_nat y) (of_nat m) (of_nat d) = Some (of_nat (weekday y m d))"
proof -
  let ?e = "of_bool (leap y \<and> m < 3) :: nat"
  define L where "L = (if y div 100 > 19 then y mod 100 + 100 else y mod 100)"
  have "19 \<le> y div 100" "y div 100 < 21" using assms(1,2) by simp_all
  then have "y div 100 = 19 \<or> y div 100 = 20" by linarith
  moreover have "100 * (y div 100) + y mod 100 = y" by (rule mult_div_mod_eq)
  ultimately have "y mod 100 + 1900 = y \<and> y div 100 = 19 \<or> y mod 100 + 2000 = y \<and> y div 100 = 20"
    by linarith
  moreover have "(r + 1900 = y \<and> q = 19) \<or> (r + 2000 = y \<and> q = 20) \<Longrightarrow> (if q > 19 then r + 100 else r) + 1900 = y"
    for q r :: nat by auto
  ultimately have "L + 1900 = y" unfolding L_def by blast
  then have L: "L = y - 1900" by linarith
  then have L200: "L < 200" using assms(2) by simp
  have y16: "unat (of_nat y :: u16) = y" using assms(2) by simp
  have H: "unat (ucast ((of_nat y :: u16) div 100) :: u8) = y div 100"
    using assms(2) by (subst unat_ucast_small) (simp_all add: unat_div y16)
  have M: "unat (ucast ((of_nat y :: u16) mod 100) :: u8) = y mod 100"
    by (subst unat_ucast_small) (simp_all add: unat_mod y16)
  define yL where "yL = (if (ucast ((of_nat y :: u16) div 100) :: u8) > 19
    then ucast ((of_nat y :: u16) mod 100) + 100 else (ucast ((of_nat y :: u16) mod 100) :: u8))"
  have "unat ((ucast ((of_nat y :: u16) mod 100) :: u8) + 100) = y mod 100 + 100"
    by (simp add: unat_word_ariths M)
  then have yL: "unat yL = L" by (simp add: yL_def L_def word_less_nat_alt H M)
  have t2: "unat (ucast yL + ucast (yL div 4) :: u16) = year_code y"
    using L200 yL by (simp add: unat_word_ariths unat_div year_code_def L)
  have m8: "unat (of_nat m :: u8) = m" "(of_nat m :: u8) \<noteq> 0" using assms(3,4) by (simp_all add: unat_eq_0 [symmetric])
  have d8: "unat (of_nat d :: u8) = d" using assms(6) by simp
  obtain w where w: "rd table_week (m - 1) = Some w" "unat w = month_code (m - 1)"
  proof -
    have "m - 1 < 12" using assms(4) by simp
    then have "m - 1 \<in> {0, 1, 2, 3, 4, 5, 6, 7, 8, 9, 10, 11}" by (rule month_cases)
    then have "\<exists>w. rd table_week (m - 1) = Some w \<and> unat w = month_code (m - 1)"
      by (auto simp: table_week_def month_code_def rd_def)
    then show thesis using that by blast
  qed
  have w7: "unat w < 7"
    using w(1) by (auto simp: table_week_def rd_def nth_Cons split: if_splits nat.splits)
  let ?s = "(ucast yL + ucast (yL div 4)) mod 7 + ucast (of_nat d :: u8) + ucast w :: u16"
  have s: "unat ?s = year_code y mod 7 + d + month_code (m - 1)"
  proof -
    let ?t = "(ucast yL + ucast (yL div 4)) mod 7 :: u16"
    have t: "unat ?t = year_code y mod 7" by (simp only: unat_mod t2) simp
    have "unat (?t + ucast (of_nat d :: u8)) = unat ?t + d"
      using assms(6) by (simp only: unat_word_ariths t) (simp add: d8 mod_less)
    then show ?thesis using w7 assms(6) unfolding t
      by (simp only: unat_word_ariths) (simp add: w(2) mod_less)
  qed
  have l4: "(yL mod 4 = 0 \<and> (of_nat m :: u8) < 3) = (leap y \<and> m < 3)"
  proof -
    have "L mod 4 = 0 \<longleftrightarrow> y mod 4 = 0" using L assms(1) by presburger
    then show ?thesis using leap_div4 [OF assms(1,2)]
      by (simp add: word_unat_eq_iff unat_mod yL word_less_nat_alt m8)
  qed
  have "unat (if yL mod 4 = 0 \<and> (of_nat m :: u8) < 3 then ?s - 1 else ?s) = unat ?s - ?e"
  proof (cases "leap y \<and> m < 3")
    case True
    have "1 \<le> ?s" unfolding word_le_nat_alt s using assms(5) by simp
    then show ?thesis unfolding l4 using True by (simp add: unat_sub)
  next
    case False
    then have e: "(leap y \<and> m < 3) = False" by blast
    show ?thesis unfolding l4 e by (simp only: if_False of_bool_eq diff_zero)
  qed
  then have "unat ((if yL mod 4 = 0 \<and> (of_nat m :: u8) < 3 then ?s - 1 else ?s) mod 7)
      = (year_code y mod 7 + d + month_code (m - 1) - ?e) mod 7"
    by (simp only: unat_mod s) simp
  also have "\<dots> = weekday y m d"
    unfolding weekday_def day_number_def
  proof (rule mod7_week)
    show "(year_code y + 1 + 6 * of_bool (leap y)) mod 7 = (span year_len 1970 y + 4) mod 7"
      by (rule year_code_span [OF assms(1,2)])
    show "(span (month_len y) 0 (m - 1) + ?e) mod 7 = (month_code (m - 1) + of_bool (leap y)) mod 7"
      using month_code_span [of "m - 1" y] assms(3,4) by (simp add: less_diff_conv2)
  qed (use assms(5) in simp_all)
  finally have "(ucast ((if yL mod 4 = 0 \<and> (of_nat m :: u8) < 3 then ?s - 1 else ?s) mod 7) :: u8) = of_nat (weekday y m d)"
    by (metis of_nat_unat)
  then show ?thesis
    using m8 w(1) by (simp only: RTC_Get_Week_def Let_def yL_def [symmetric] if_False bind.bind_lunit m8)
qed

section \<open>Setting, then reading\<close>

lemma span_year_le: "span year_len i j \<le> 366 * (j - i)"
proof -
  have "sum_list (map year_len ts) \<le> 366 * length ts" for ts
    by (induction ts) (auto simp: year_len_def)
  from this [of "[i..<j]"] show ?thesis by (simp add: span_def)
qed

lemma day_in_year:
  assumes v: "1 \<le> m" "m \<le> 12" "1 \<le> d" "d \<le> month_len y (m - 1)"
  shows "span (month_len y) 0 (m - 1) + (d - 1) < year_len y"
    and "leap y \<and> span (month_len y) 0 (m - 1) + (d - 1) = 365 \<Longrightarrow> m = 12 \<and> d = 31"
proof -
  have m: "span (month_len y) 0 m = span (month_len y) 0 (m - 1) + month_len y (m - 1)"
    using span_last [of 0 "m - 1" "month_len y"] v by simp
  have le: "span (month_len y) 0 m \<le> year_len y"
    using span_mono [OF v(2), of "month_len y" 0] by (simp only: year_span)
  then show "span (month_len y) 0 (m - 1) + (d - 1) < year_len y" using m v by linarith
  assume l: "leap y \<and> span (month_len y) 0 (m - 1) + (d - 1) = 365"
  then have yl: "year_len y = 366" and eq: "span (month_len y) 0 (m - 1) + (d - 1) = 365"
    by (simp_all add: year_len_def)
  have e: "span (month_len y) 0 m = year_len y" "d = month_len y (m - 1)"
    using m le v eq unfolding yl by linarith+
  have "m = 12"
  proof (rule ccontr)
    assume "m \<noteq> 12"
    then have "Suc m \<le> 12" using v by simp
    from span_mono [OF this, of "month_len y" 0]
    have "span (month_len y) 0 m + month_len y m \<le> year_len y"
      using span_last [of 0 m "month_len y"] by (simp add: year_span)
    then show False using e month_len_bounds [of m y] \<open>Suc m \<le> 12\<close> by simp
  qed
  then show "m = 12 \<and> d = 31" using e by (simp add: month_len_def)
qed

lemma time_of_day:
  fixes h mi se :: u8 and t :: u32
  assumes "unat h < 24" and "unat mi < 60" and "unat se < 60"
    and t: "unat t = 3600 * unat h + 60 * unat mi + unat se"
  shows "ucast (t div 3600) = h" and "ucast (t mod 3600 div 60) = mi" and "ucast (t mod 3600 mod 60) = se"
proof -
  have "unat t div 3600 = unat h"
    using assms by (intro div_nat_eqI) auto
  moreover have m: "unat t mod 3600 = 60 * unat mi + unat se"
  proof -
    have "unat t = (60 * unat mi + unat se) + 3600 * unat h" using t by simp
    then have "unat t mod 3600 = (60 * unat mi + unat se) mod 3600" by (simp only: mod_mult_self2)
    then show ?thesis using assms(2,3) by simp
  qed
  ultimately show "ucast (t div 3600) = h" "ucast (t mod 3600 div 60) = mi" "ucast (t mod 3600 mod 60) = se"
    using assms by (simp_all add: word_unat_eq_iff unat_ucast_small unat_div unat_mod)
qed

lemma ucast_inc:
  assumes "k < 31" and "8 \<le> LENGTH('a)"
  shows "(ucast (of_nat k :: 'a::len word) :: u8) + 1 = of_nat (Suc k)"
proof -
  have "k < 2 ^ LENGTH('a)"
    using assms power_increasing [of 8 "LENGTH('a)" "2 :: nat"] by simp
  then have "unat (ucast (of_nat k :: 'a word) :: u8) = unat (of_nat k :: u8)"
    using assms by (subst unat_ucast_small) simp_all
  then have "(ucast (of_nat k :: 'a word) :: u8) = of_nat k" by (simp only: word_unat_eq_iff)
  then show ?thesis by simp
qed

lemma Set_Get:
  assumes v: "valid_ymd y m d" and t: "unat h < 24" "unat mi < 60" "unat se < 60"
    and last: "\<not> (leap y \<and> m = 12 \<and> d = 31)"
    and fresh: "unat (daycnt s) \<noteq> day_number y m d"
  shows "\<exists>s' s''. RTC_Set s (of_nat y) (of_nat m) (of_nat d) h mi se = Some (0, s') \<and> RTC_Get s' = Some (0, s'')
    \<and> calendar s'' = \<lparr>cal_hour = h, cal_min = mi, cal_sec = se, w_year = of_nat y, w_month = of_nat m,
        w_date = of_nat d, week = of_nat (weekday y m d)\<rparr>"
proof -
  have b: "1970 \<le> y" "y \<le> 2099" "1 \<le> m" "m \<le> 12" "1 \<le> d" "d \<le> month_len y (m - 1)"
    using v by (auto simp: valid_ymd_def)
  have "m - 1 < 12" using b by simp
  then have d31: "d \<le> 31" using b(6) month_len_bounds [of "m - 1" y] by linarith
  define r where "r = span (month_len y) 0 (m - 1) + (d - 1)"
  have D: "day_number y m d = span year_len 1970 y + r" by (simp add: day_number_def r_def)
  have r: "r < year_len y" "\<not> (leap y \<and> r = 365)"
    using day_in_year [OF b(3-6)] last by (auto simp: r_def)
  have "year_len y \<le> 366" by (simp add: year_len_def)
  then have D47: "day_number y m d < 47581" using span_year_le [of 1970 y] b r by (simp add: D)
  define T where "T = 3600 * unat h + 60 * unat mi + unat se"
  have T: "T < 86400" using t by (simp add: T_def)
  define c where "c = (of_nat (86400 * day_number y m d + T) :: u32)"
  have "86400 * day_number y m d + T < 2 ^ LENGTH(32)" using D47 T by simp
  then have c: "unat c = 86400 * day_number y m d + T" unfolding c_def by (rule unat_of_nat_small)
  have cd: "c div 86400 = of_nat (day_number y m d)"
    using T D47 by (simp add: word_unat_eq_iff unat_div c)
  have cm: "unat (c mod 86400) = T" using T by (simp add: unat_mod c)
  have set: "RTC_Set s (of_nat y) (of_nat m) (of_nat d) h mi se = Some (0, s\<lparr>counter := c\<rparr>)"
  proof -
    have "\<not> ((of_nat y :: u16) < 1970 \<or> (of_nat y :: u16) > 2099)"
      using b by (simp add: word_less_nat_alt)
    then show ?thesis
      using date_secs_eq [OF v, of h mi se] by (simp add: RTC_Set_def c_def T_def add.assoc)
  qed
  have y: "get_year (of_nat (day_number y m d)) 1970 = (of_nat r, of_nat y)"
    using get_year_eq [OF b(1) _ r] b D47 by (simp add: D)
  have mo: "get_month (of_nat y) (of_nat r) 0 = Some (of_nat (d - 1), of_nat (m - 1))"
    using get_month_eq [of 0 "m - 1" y "d - 1"] b by (simp add: r_def)
  have neq: "(ucast (daycnt s) :: u32) \<noteq> of_nat (day_number y m d)"
    using fresh D47 by (simp add: word_unat_eq_iff)
  have m1: "(ucast (of_nat (m - 1) :: u16) :: u8) + 1 = of_nat m"
    using ucast_inc [of "m - 1", where 'a = 16] b by (simp del: of_nat_diff)
  have d1: "(ucast (of_nat (d - 1) :: u32) :: u8) + 1 = of_nat d"
    using ucast_inc [of "d - 1", where 'a = 32] b d31 by (simp del: of_nat_diff)
  have "RTC_Get (s\<lparr>counter := c\<rparr>) = Some (0, s\<lparr>counter := c, daycnt := ucast (c div 86400),
     calendar := \<lparr>cal_hour = h, cal_min = mi, cal_sec = se, w_year = of_nat y, w_month = of_nat m,
        w_date = of_nat d, week = of_nat (weekday y m d)\<rparr>\<rparr>)"
    using neq y mo m1 d1 RTC_Get_Week_eq [OF b(1-5) d31] time_of_day [OF t cm [unfolded T_def]]
    by (simp add: RTC_Get_def cd Let_def)
  then show ?thesis using set by simp
qed

text \<open>On 31 December of a leap year the date is read as month 13 of the next year, and the table of weekdays is
  read past its end.\<close>

lemma Get_last_day:
  assumes y: "1970 \<le> y" "y \<le> 2099" "leap y" and c: "counter s = of_nat (86400 * (span year_len 1970 y + 365) + e)" "e < 86400"
    and fresh: "unat (daycnt s) \<noteq> span year_len 1970 y + 365"
  shows "RTC_Get s = None"
proof -
  define D where "D = span year_len 1970 y + 365"
  have D: "D < 47581" using span_year_le [of 1970 y] y by (simp add: D_def)
  have "86400 * D + e < 2 ^ LENGTH(32)" using D c(2) by simp
  then have u: "unat (counter s) = 86400 * D + e" unfolding c(1) D_def [symmetric] by (rule unat_of_nat_small)
  have cd: "counter s div 86400 = of_nat D" using c(2) D by (simp add: word_unat_eq_iff unat_div u)
  have neq: "(ucast (daycnt s) :: u32) \<noteq> of_nat D" using fresh [folded D_def] D by (simp add: word_unat_eq_iff)
  have "get_year (of_nat D) 1970 = (365, of_nat (Suc y))"
    using get_year_last [OF y(1) _ y(3)] y(2) D by (simp add: D_def)
  moreover have "get_month (of_nat (Suc y)) 365 0 = Some (0, 12)"
  proof -
    have "y \<noteq> 2099" using y(3) by (auto simp: leap_def)
    moreover have "y mod 4 = 0" using leap_div4 [OF y(1,2)] y(3) by simp
    then have "Suc y mod 4 \<noteq> 0" by presburger
    ultimately have "\<not> leap (Suc y)" using leap_div4 [of "Suc y"] y(1,2) by simp
    then have "span (month_len (Suc y)) 0 12 = 365" by (simp add: year_span year_len_def)
    then have "get_month (of_nat (Suc y)) 365 0 = get_month (of_nat (Suc y)) 0 12"
      using get_month_skip [of 0 12 "Suc y" 0] y(2) by simp
    then show ?thesis by (subst (asm) (2) get_month.simps) simp
  qed
  ultimately show ?thesis
    using neq by (simp add: RTC_Get_def cd Let_def RTC_Get_Week_def table_week_def rd_def)
qed

end
