(* ===== verification/Memory_My.thy ===== *)
theory Memory_My
  imports Flash CFloat Sensor SD3078 Rtc
begin

text \<open>
  MEMORY/memory_my.c: where the five-minute readings and the operation parameters are kept in
  the flash. A reading of rain (3 bytes) or water level (4 bytes) has a slot that its date and
  time determine; rain and water, even and odd years have regions of their own, the parameters
  a sixth area. The theory shows that slots do not overlap and stay inside their regions, that
  what is saved is what is read, and that the parameter block survives its trip through flash.
\<close>

section \<open>Data\<close>

record RTU_operation_parameters_t =
  center_addr :: "u8 list"
  rtu_remote_addr :: "u8 list"
  password :: "u8 list"
  center_1_main_channel :: "u8 list"
  center_1_spare_channel :: "u8 list"
  center_2_main_channel :: "u8 list"
  center_2_spare_channel :: "u8 list"
  center_3_main_channel :: "u8 list"
  center_3_spare_channel :: "u8 list"
  center_4_main_channel :: "u8 list"
  center_4_spare_channel :: "u8 list"
  work_style :: u8
  remote_collect_factor :: "u8 list"
  time_interval_of_timing_message :: u8
  time_interval_of_plus_message :: u8
  rainfall_day_start_time :: u8
  sampling_interval :: "u8 list"
  waterlevel_save_interval :: u8
  rainfall_resolution :: u8
  waterlevel_resolution :: u8
  threshold_rainfall_value_of_plusemessage :: u8
  waterlevel_basevalue_1 :: "u8 list"
  waterlevel_correction_value_1 :: "u8 list"
  waterlevel_plusmessage_1 :: "u8 list"
  above_threshold_waterlevel_value_of_plusmeessag :: "u8 list"
  below_threshold_waterlevel_value_of_plusmessage :: "u8 list"
  flow_threshold_plusmessage :: "u8 list"

record date_t =
  d_year :: u8
  d_month :: u8
  d_day :: u8
  d_hour :: u8
  d_minute :: u8

record 'w mem = "'w base" +
  s_monthday :: "u16 list"
  g_rtu_parameters :: RTU_operation_parameters_t

definition init_monthday :: "u16 list" where
  "init_monthday = [31, 28, 31, 30, 31, 30, 31, 31, 30, 31, 30, 31]"

text \<open>The packed structure as it lies in memory.\<close>

definition param_sizes :: "nat list" where
  "param_sizes = [4, 5, 2, 10, 10, 10, 10, 10, 10, 10, 10, 1, 4, 1, 1, 1, 2, 1, 1, 1, 1, 4, 3, 2, 2, 2, 3]"

definition param_chunks :: "RTU_operation_parameters_t \<Rightarrow> u8 list list" where
  "param_chunks p = [center_addr p, rtu_remote_addr p, password p, center_1_main_channel p,
     center_1_spare_channel p, center_2_main_channel p, center_2_spare_channel p, center_3_main_channel p,
     center_3_spare_channel p, center_4_main_channel p, center_4_spare_channel p, [work_style p],
     remote_collect_factor p, [time_interval_of_timing_message p], [time_interval_of_plus_message p],
     [rainfall_day_start_time p], sampling_interval p, [waterlevel_save_interval p], [rainfall_resolution p],
     [waterlevel_resolution p], [threshold_rainfall_value_of_plusemessage p], waterlevel_basevalue_1 p,
     waterlevel_correction_value_1 p, waterlevel_plusmessage_1 p,
     above_threshold_waterlevel_value_of_plusmeessag p, below_threshold_waterlevel_value_of_plusmessage p,
     flow_threshold_plusmessage p]"

fun chunks :: "nat list \<Rightarrow> u8 list \<Rightarrow> u8 list list" where
  "chunks [] bs = []"
| "chunks (n # ns) bs = take n bs # chunks ns (drop n bs)"

definition param_bytes :: "RTU_operation_parameters_t \<Rightarrow> u8 list" where
  "param_bytes p = concat (param_chunks p)"

definition param_of_chunks :: "u8 list list \<Rightarrow> RTU_operation_parameters_t" where
  "param_of_chunks c = \<lparr>center_addr = c ! 0, rtu_remote_addr = c ! 1, password = c ! 2,
     center_1_main_channel = c ! 3, center_1_spare_channel = c ! 4, center_2_main_channel = c ! 5,
     center_2_spare_channel = c ! 6, center_3_main_channel = c ! 7, center_3_spare_channel = c ! 8,
     center_4_main_channel = c ! 9, center_4_spare_channel = c ! 10, work_style = c ! 11 ! 0,
     remote_collect_factor = c ! 12, time_interval_of_timing_message = c ! 13 ! 0,
     time_interval_of_plus_message = c ! 14 ! 0, rainfall_day_start_time = c ! 15 ! 0,
     sampling_interval = c ! 16, waterlevel_save_interval = c ! 17 ! 0, rainfall_resolution = c ! 18 ! 0,
     waterlevel_resolution = c ! 19 ! 0, threshold_rainfall_value_of_plusemessage = c ! 20 ! 0,
     waterlevel_basevalue_1 = c ! 21, waterlevel_correction_value_1 = c ! 22, waterlevel_plusmessage_1 = c ! 23,
     above_threshold_waterlevel_value_of_plusmeessag = c ! 24,
     below_threshold_waterlevel_value_of_plusmessage = c ! 25, flow_threshold_plusmessage = c ! 26\<rparr>"

definition param_of :: "u8 list \<Rightarrow> RTU_operation_parameters_t" where
  "param_of bs = param_of_chunks (chunks param_sizes bs)"

definition zero_parameters :: RTU_operation_parameters_t where
  "zero_parameters = param_of (replicate 121 0)"

text \<open>The arrays have the lengths the structure declares.\<close>

definition param_wf :: "RTU_operation_parameters_t \<Rightarrow> bool" where
  "param_wf p \<longleftrightarrow> map length (param_chunks p) = param_sizes"

section \<open>Flash accesses\<close>

definition flash_read :: "'w board \<Rightarrow> u32 \<Rightarrow> u16 \<Rightarrow> ('w, 'z) base_scheme \<Rightarrow> u8 list \<times> ('w, 'z) base_scheme" where
  "flash_read b a n s = (let (w, bs) = W25QXX_Read (spi1 b) (world s) a n in (bs, s\<lparr>world := w\<rparr>))"

definition flash_write :: "'w board \<Rightarrow> u8 list \<Rightarrow> u32 \<Rightarrow> u16 \<Rightarrow> ('w, 'z) base_scheme \<Rightarrow> ('w, 'z) base_scheme option" where
  "flash_write b bs a n s = do { w \<leftarrow> W25QXX_Write (spi1 b) (world s) bs a n; Some (s\<lparr>world := w\<rparr>) }"

section \<open>Addresses\<close>

definition Isleapyear :: "u16 \<Rightarrow> u16 list \<Rightarrow> u16 list" where
  "Isleapyear year md =
     (if (year mod 4 = 0 \<and> year mod 100 \<noteq> 0) \<or> year mod 400 = 0 then md[1 := 29] else md[1 := 28])"

definition IDR_RAINFALL_EVEN_BASE :: int where "IDR_RAINFALL_EVEN_BASE = 0x000000"
definition IDR_WATERLEVLE_EVEN_BASE :: int where "IDR_WATERLEVLE_EVEN_BASE = 0x400000"
definition IDR_RAINFALL_ODD_BASE :: int where "IDR_RAINFALL_ODD_BASE = 0x800000"
definition IDR_WATERLEVEL_ODD_BASE :: int where "IDR_WATERLEVEL_ODD_BASE = 0xC00000"
definition RAINFALL_DAY_START_VALUE :: u32 where "RAINFALL_DAY_START_VALUE = 0x080000"
definition IDR_RTU_PARAMETERS :: u32 where "IDR_RTU_PARAMETERS = 0x080010"

definition GetBaseAddr :: "date_t \<Rightarrow> u8 \<Rightarrow> int" where
  "GetBaseAddr date data_type =
     (if d_year date mod 2 = 0 then
        (if data_type = 0 then IDR_RAINFALL_EVEN_BASE else IDR_WATERLEVLE_EVEN_BASE)
      else (if data_type = 0 then IDR_RAINFALL_ODD_BASE else IDR_WATERLEVEL_ODD_BASE))"

definition GetMonthDays :: "u8 \<Rightarrow> u16 list \<Rightarrow> u8 list \<times> u16 list" where
  "GetMonthDays year md =
     (let years_short = 2000 + ucast (drop_bit 4 year) * 10 + ucast (year AND 0x0f);
          md = Isleapyear years_short md
      in (map ucast md, md))"

fun add_months :: "u16 list \<Rightarrow> nat \<Rightarrow> int option" where
  "add_months md 0 = Some 0"
| "add_months md (Suc i) = do { t \<leftarrow> add_months md i; d \<leftarrow> rd md i; Some (t + uint d) }"

text \<open>\<open>Inr\<close> is the address, \<open>Inl\<close> the error result; the month table is left changed in both cases.\<close>

definition GetAddress :: "date_t \<Rightarrow> u8 \<Rightarrow> u16 list \<Rightarrow> ((int + int) \<times> u16 list) option" where
  "GetAddress date data_type md = do {
     let single_group_length = (if data_type = 0 then 3 else 4);
     let md = Isleapyear (ucast (d_year date) + 2000) md;
     total_days \<leftarrow> (if d_month date > 1 then add_months md (unat (d_month date) - 1) else Some 0);
     let total_days = total_days + (uint (d_day date) - 1);
     let total_hours = total_days * 24 + uint (d_hour date);
     if d_minute date mod 5 = 0 then
       let total_groups = total_hours * (60 div 5) + uint (d_minute date div 5);
           temp_base_address = GetBaseAddr date data_type;
           temp_address = temp_base_address + single_group_length * total_groups
       in Some (Inr temp_address, md)
     else Some (Inl (- 1), md)
   }"

definition SaveDataToFlash :: "'w board \<Rightarrow> date_t \<Rightarrow> u8 \<Rightarrow> u8 list \<Rightarrow> nat \<Rightarrow> ('w, 'z) mem_scheme \<Rightarrow> (int \<times> ('w, 'z) mem_scheme) option" where
  "SaveDataToFlash b date data_type data data_len s = do {
     (r, md) \<leftarrow> GetAddress date data_type (s_monthday s);
     let s = s\<lparr>s_monthday := md\<rparr>;
     (case r of
        Inr address \<Rightarrow> do {
          s \<leftarrow> flash_write b data (word_of_int address) (of_nat (data_len * (if data_type = 0 then 3 else 4))) s;
          Some (0, s)
        }
      | Inl e \<Rightarrow> Some (- 1, s))
   }"

definition ReadDataFromFlash :: "'w board \<Rightarrow> date_t \<Rightarrow> u8 \<Rightarrow> u8 list \<Rightarrow> nat \<Rightarrow> ('w, 'z) mem_scheme \<Rightarrow> (int \<times> u8 list \<times> ('w, 'z) mem_scheme) option" where
  "ReadDataFromFlash b date data_type data data_len s = do {
     (r, md) \<leftarrow> GetAddress date data_type (s_monthday s);
     let s = s\<lparr>s_monthday := md\<rparr>;
     (case r of
        Inr address \<Rightarrow> do {
          let (bs, s) = flash_read b (word_of_int address) (of_nat data_len) s;
          data \<leftarrow> blit data 0 bs;
          Some (0, data, s)
        }
      | Inl e \<Rightarrow> Some (- 1, data, s))
   }"

section \<open>Parameters\<close>

definition RTU_parameters_Writedata :: "'w board \<Rightarrow> RTU_operation_parameters_t \<Rightarrow> ('w, 'z) mem_scheme \<Rightarrow> ('w, 'z) mem_scheme option" where
  "RTU_parameters_Writedata b parameter s = flash_write b (param_bytes parameter) IDR_RTU_PARAMETERS 121 s"

definition RTU_parameters_Readdata :: "'w board \<Rightarrow> ('w, 'z) mem_scheme \<Rightarrow> RTU_operation_parameters_t \<times> ('w, 'z) mem_scheme" where
  "RTU_parameters_Readdata b s =
     (let (bs, s) = flash_read b IDR_RTU_PARAMETERS 121 s in (param_of bs, s))"

definition default_parameters :: "RTU_operation_parameters_t \<Rightarrow> RTU_operation_parameters_t" where
  "default_parameters g =
     (let g = g\<lparr>time_interval_of_timing_message := 0x01, time_interval_of_plus_message := 0x05,
              sampling_interval := [0x03, 0x00], waterlevel_save_interval := 0x05, rainfall_resolution := 0x01\<rparr>;
          g = g\<lparr>waterlevel_save_interval := 0x01, threshold_rainfall_value_of_plusemessage := 0x00,
              waterlevel_basevalue_1 := [0x01, 0x00, 0x00, 0x00],
              waterlevel_correction_value_1 := [0x00, 0x00, 0x00], waterlevel_plusmessage_1 := [0x00, 0x00],
              above_threshold_waterlevel_value_of_plusmeessag := [0x00, 0x00],
              below_threshold_waterlevel_value_of_plusmessage := [0x00, 0x00],
              rtu_remote_addr := [0x00, 0x55, 0x00, 0x00, 0x01]\<rparr>
      in g\<lparr>center_addr := [0x00, 0x00, 0x00, 0x00]\<rparr>)"

definition RTU_Operation_parameter_init :: "'w board \<Rightarrow> ('w, 'z) mem_scheme \<Rightarrow> ('w, 'z) mem_scheme option" where
  "RTU_Operation_parameter_init b s =
     (let s = s\<lparr>g_rtu_parameters := default_parameters (g_rtu_parameters s)\<rparr>
      in flash_write b (param_bytes (g_rtu_parameters s)) IDR_RTU_PARAMETERS 121 s)"

section \<open>The five-minute record\<close>

definition TimeDefTodate :: "Time_Def \<Rightarrow> date_t" where
  "TimeDefTodate time = \<lparr>d_year = BCDToInteger (t_year time), d_month = BCDToInteger (t_month time),
     d_day = BCDToInteger (t_day time), d_hour = BCDToInteger (t_hour time),
     d_minute = BCDToInteger (t_minute time)\<rparr>"

definition rainfall_float :: "u32 \<Rightarrow> rat" where
  "rainfall_float pluse_count = f32 (f64 (of_nat (unat pluse_count) / 2))"

definition waterlevel_float :: "u32 \<Rightarrow> rat \<Rightarrow> rat" where
  "waterlevel_float reading basic_value = f32 (f32 (f64 (f32 (of_nat (unat reading)) / 100)) + basic_value)"

text \<open>\<open>real_time\<close> is what the stack holds; it is used when the clock chip does not answer.\<close>

definition SaveAndGetData_FiveMinute ::
    "'w board \<Rightarrow> Time_Def \<Rightarrow> ('w, 'z) mem_scheme \<Rightarrow> (u8 list \<times> u8 list \<times> ('w, 'z) mem_scheme) option" where
  "SaveAndGetData_FiveMinute b real_time s = do {
     let (_, real_time, w) = RTC_ReadDate b real_time (world s);
     let s = s\<lparr>world := w\<rparr>;
     let date = TimeDefTodate real_time;
     let (rtu_parameters, s) = RTU_parameters_Readdata b s;
     waterlevel_basic_value \<leftarrow> BCDSendataToFloat 0x23 (waterlevel_basevalue_1 rtu_parameters);
     rainfall_save_data \<leftarrow> GetBCDSendata 0x2619 (rainfall_float (g_rainfall_pluse_count s));
     let rainfall_data = store3 rainfall_save_data;
     (_, s) \<leftarrow> SaveDataToFlash b date 0 rainfall_data 1 s;
     let (w, reading) = GetWaterLevelData b (world s);
     let s = s\<lparr>world := w\<rparr>;
     waterlevel_save_data \<leftarrow> GetBCDSendata 0x3923 (waterlevel_float reading waterlevel_basic_value);
     let water_level_data = store4 waterlevel_save_data;
     (_, s) \<leftarrow> SaveDataToFlash b date 0x23 water_level_data 1 s;
     Some (rainfall_data, water_level_data, s)
   }"

section \<open>The parameter block\<close>

lemma chunks_concat: "chunks (map length xs) (concat xs) = xs"
  by (induction xs) simp_all

lemma single: "length xs = Suc 0 \<Longrightarrow> [xs ! 0] = xs"
  by (cases xs) simp_all

lemma param_of_bytes: "param_wf p \<Longrightarrow> param_of (param_bytes p) = p"
proof -
  assume "param_wf p"
  then have "chunks param_sizes (param_bytes p) = param_chunks p"
    unfolding param_wf_def param_bytes_def by (metis chunks_concat)
  then show ?thesis
    by (simp add: param_of_def param_of_chunks_def param_chunks_def numeral_eq_Suc)
qed

lemma length_param_bytes: "param_wf p \<Longrightarrow> length (param_bytes p) = 121"
  by (simp add: param_wf_def param_bytes_def length_concat param_sizes_def)

section \<open>Slots\<close>

definition md_ok :: "u16 list \<Rightarrow> bool" where
  "md_ok md \<longleftrightarrow> md[1 := 28] = init_monthday"

definition cal_year :: "date_t \<Rightarrow> nat" where
  "cal_year d = unat (d_year d) + 2000"

definition valid_date :: "date_t \<Rightarrow> bool" where
  "valid_date d \<longleftrightarrow> 1 \<le> unat (d_month d) \<and> unat (d_month d) \<le> 12 \<and> 1 \<le> unat (d_day d) \<and>
     unat (d_day d) \<le> month_len (cal_year d) (unat (d_month d) - 1) \<and> unat (d_hour d) < 24 \<and> unat (d_minute d) < 60"

definition year_day :: "date_t \<Rightarrow> nat" where
  "year_day d = span (month_len (cal_year d)) 0 (unat (d_month d) - 1) + (unat (d_day d) - 1)"

definition slot :: "date_t \<Rightarrow> nat" where
  "slot d = (year_day d * 24 + unat (d_hour d)) * 12 + unat (d_minute d) div 5"

definition slot_len :: "u8 \<Rightarrow> nat" where
  "slot_len data_type = (if data_type = 0 then 3 else 4)"

definition region :: "date_t \<Rightarrow> u8 \<Rightarrow> nat" where
  "region d data_type = (if data_type = 0 then 0 else 0x400000) + (unat (d_year d) mod 2) * 0x800000"

definition slot_addr :: "date_t \<Rightarrow> u8 \<Rightarrow> nat" where
  "slot_addr d data_type = region d data_type + slot_len data_type * slot d"

lemma md_ok_nth: "md_ok md \<Longrightarrow> i < 12 \<Longrightarrow> length md = 12 \<and> (i \<noteq> 1 \<longrightarrow> unat (md ! i) = month_len y i)"
proof -
  assume m: "md_ok md" and i: "i < 12"
  have "length (md[1 := 28]) = length init_monthday" using m by (simp only: md_ok_def)
  then have l: "length md = 12" by (simp add: init_monthday_def)
  have "i \<noteq> 1 \<Longrightarrow> md ! i = init_monthday ! i" using m by (metis md_ok_def nth_list_update_neq)
  then show ?thesis using l month_cases [OF i] by (auto simp: init_monthday_def month_len_def)
qed

lemma Isleapyear_ok:
  assumes "md_ok md" and "y < 65536"
  shows "md_ok (Isleapyear (of_nat y) md)"
    and "i < 12 \<Longrightarrow> unat (Isleapyear (of_nat y) md ! i) = month_len y i"
    and "length (Isleapyear (of_nat y) md) = 12"
proof -
  have l: "length md = 12" using md_ok_nth [OF assms(1), of 0] by simp
  have e: "Isleapyear (of_nat y) md = md[1 := if leap y then 29 else 28]"
    using u16_mod_eq_0 [OF assms(2), of 4] u16_mod_eq_0 [OF assms(2), of 100] u16_mod_eq_0 [OF assms(2), of 400]
    by (simp only: Isleapyear_def leap_def of_nat_numeral) simp
  show "md_ok (Isleapyear (of_nat y) md)" using assms(1) by (simp add: e md_ok_def)
  show "length (Isleapyear (of_nat y) md) = 12" using l by (simp add: e)
  show "unat (Isleapyear (of_nat y) md ! i) = month_len y i" if "i < 12"
    using md_ok_nth [OF assms(1) that, of y] l that by (cases "i = 1") (simp_all add: e month_len_def)
qed

lemma add_months_eq:
  assumes "\<And>i. i < 12 \<Longrightarrow> unat (md ! i) = month_len y i" and "length md = 12"
  shows "n \<le> 12 \<Longrightarrow> add_months md n = Some (int (span (month_len y) 0 n))"
proof (induction n)
  case (Suc n)
  have "rd md n = Some (md ! n)" using Suc.prems assms(2) by simp
  moreover have "uint (md ! n) = int (month_len y n)" using assms(1) [of n] Suc.prems by (simp add: uint_nat)
  moreover have "add_months md n = Some (int (span (month_len y) 0 n))" using Suc by simp
  ultimately show ?case by (simp add: span_last)
qed simp

lemma GetAddress_ok:
  assumes v: "valid_date d" and m5: "unat (d_minute d) mod 5 = 0" and md: "md_ok md"
  shows "\<exists>md'. md_ok md' \<and> GetAddress d data_type md = Some (Inr (int (slot_addr d data_type)), md')"
proof -
  have y: "cal_year d < 65536" "(ucast (d_year d) + 2000 :: u16) = of_nat (cal_year d)"
    using unsigned_less [of "d_year d", where ?'a = nat] by (simp_all add: cal_year_def)
  let ?md = "Isleapyear (ucast (d_year d) + 2000) md"
  note leap = Isleapyear_ok [OF md y(1), folded y(2)]
  have v': "1 \<le> unat (d_month d)" "unat (d_month d) \<le> 12" "1 \<le> unat (d_day d)"
    using v by (simp_all add: valid_date_def)
  have t: "(if d_month d > 1 then add_months ?md (unat (d_month d) - 1) else Some 0)
      = Some (int (span (month_len (cal_year d)) 0 (unat (d_month d) - 1)))"
    using add_months_eq [OF leap(2,3), of "unat (d_month d) - 1"] v' by (simp add: word_less_nat_alt)
  have m: "d_minute d mod 5 = 0" using m5 by (simp add: word_unat_eq_iff unat_mod)
  have u: "uint (d_day d) - 1 = int (unat (d_day d) - 1)" "uint (d_hour d) = int (unat (d_hour d))"
    "uint (d_minute d div 5) = int (unat (d_minute d) div 5)"
    using v'(3) by (simp_all only: uint_nat unat_div of_nat_diff) (simp_all add: unat_div)
  have a: "GetBaseAddr d data_type = int (region d data_type)"
  proof -
    have "d_year d mod 2 = 0 \<longleftrightarrow> unat (d_year d) mod 2 = 0" by (simp add: word_unat_eq_iff unat_mod)
    moreover have "unat (d_year d) mod 2 = 0 \<or> unat (d_year d) mod 2 = 1" by presburger
    ultimately show ?thesis
      by (auto simp: GetBaseAddr_def region_def IDR_RAINFALL_EVEN_BASE_def IDR_WATERLEVLE_EVEN_BASE_def
          IDR_RAINFALL_ODD_BASE_def IDR_WATERLEVEL_ODD_BASE_def)
  qed
  have len: "(if data_type = 0 then 3 else 4) = int (slot_len data_type)" by (simp add: slot_len_def)
  have "GetAddress d data_type md = Some (Inr (int (slot_addr d data_type)), ?md)"
    unfolding GetAddress_def Let_def t bind.bind_lunit
    by (simp only: m u a len if_True slot_addr_def slot_def year_day_def of_nat_add of_nat_mult of_nat_numeral) simp
  then show ?thesis using leap(1) by blast
qed

lemma GetAddress_odd_minute:
  assumes "valid_date d" and "unat (d_minute d) mod 5 \<noteq> 0" and "md_ok md"
  shows "\<exists>md'. md_ok md' \<and> GetAddress d data_type md = Some (Inl (- 1), md')"
proof -
  have y: "cal_year d < 65536" "(ucast (d_year d) + 2000 :: u16) = of_nat (cal_year d)"
    using unsigned_less [of "d_year d", where ?'a = nat] by (simp_all add: cal_year_def)
  note leap = Isleapyear_ok [OF assms(3) y(1), folded y(2)]
  have "unat (d_month d) \<le> 12" using assms(1) by (simp add: valid_date_def)
  moreover have "d_minute d mod 5 \<noteq> 0" using assms(2) by (simp add: word_unat_eq_iff unat_mod)
  ultimately show ?thesis
    using add_months_eq [OF leap(2,3), of "unat (d_month d) - 1"] leap(1)
    by (auto simp: GetAddress_def Let_def)
qed

lemma year_day_bound: "valid_date d \<Longrightarrow> year_day d < 366"
  using day_in_year(1) [of "unat (d_month d)" "unat (d_day d)" "cal_year d"]
  by (auto simp: valid_date_def year_day_def year_len_def split: if_splits)

lemma slot_bound: "valid_date d \<Longrightarrow> slot d < 105408"
proof -
  assume v: "valid_date d"
  then have "unat (d_hour d) < 24" "unat (d_minute d) div 5 < 12" by (auto simp: valid_date_def)
  moreover have "h < 24 \<Longrightarrow> m < 12 \<Longrightarrow> yd < 366 \<Longrightarrow> (yd * 24 + h) * 12 + m < 105408" for h m yd :: nat
    by (simp add: distrib_right)
  ultimately show ?thesis using year_day_bound [OF v] unfolding slot_def by blast
qed

lemma earlier_month:
  assumes "valid_date d" and "valid_date d'" and "cal_year d = cal_year d'" and "unat (d_month d) < unat (d_month d')"
  shows "year_day d < year_day d'"
proof -
  let ?y = "cal_year d" and ?m = "unat (d_month d)"
  have v: "1 \<le> ?m" "1 \<le> unat (d_day d)" "unat (d_day d) \<le> month_len ?y (?m - 1)"
    using assms(1) by (auto simp: valid_date_def)
  have "year_day d < span (month_len ?y) 0 (?m - 1) + month_len ?y (?m - 1)"
    using v unfolding year_day_def by linarith
  also have "\<dots> = span (month_len ?y) 0 ?m" using span_last [of 0 "?m - 1" "month_len ?y"] v(1) by simp
  also have "\<dots> \<le> span (month_len ?y) 0 (unat (d_month d') - 1)" using assms(4) by (intro span_mono) simp
  also have "\<dots> \<le> year_day d'" using assms(3) by (simp add: year_day_def)
  finally show ?thesis .
qed

lemma slot_inj:
  assumes v: "valid_date d" "valid_date d'" and y: "d_year d = d_year d'"
    and m5: "unat (d_minute d) mod 5 = 0" "unat (d_minute d') mod 5 = 0" and s: "slot d = slot d'"
  shows "d = (d' :: date_t)"
proof -
  have cy: "cal_year d = cal_year d'" using y by (simp add: cal_year_def)
  have b: "unat (d_hour d) < 24" "unat (d_minute d) div 5 < 12" "unat (d_hour d') < 24" "unat (d_minute d') div 5 < 12"
    using v by (auto simp: valid_date_def)
  have "slot d div 12 = year_day d * 24 + unat (d_hour d)" "slot d' div 12 = year_day d' * 24 + unat (d_hour d')"
    "slot d mod 12 = unat (d_minute d) div 5" "slot d' mod 12 = unat (d_minute d') div 5"
  proof -
    have dm: "m < 12 \<Longrightarrow> (X * 12 + m) div 12 = X \<and> (X * 12 + m) mod 12 = m" for X m :: nat by simp
    show "slot d div 12 = year_day d * 24 + unat (d_hour d)" "slot d' div 12 = year_day d' * 24 + unat (d_hour d')"
      "slot d mod 12 = unat (d_minute d) div 5" "slot d' mod 12 = unat (d_minute d') div 5"
      unfolding slot_def using dm [OF b(2)] dm [OF b(4)] by blast+
  qed
  then have h: "year_day d * 24 + unat (d_hour d) = year_day d' * 24 + unat (d_hour d')"
    and mi: "unat (d_minute d) div 5 = unat (d_minute d') div 5"
    using s by simp_all
  have "(year_day d * 24 + unat (d_hour d)) div 24 = year_day d" "(year_day d' * 24 + unat (d_hour d')) div 24 = year_day d'"
    using b by simp_all
  then have yd: "year_day d = year_day d'" using h by simp
  then have "unat (d_month d) = unat (d_month d')"
    using earlier_month [OF v cy] earlier_month [OF v(2,1) cy [symmetric]] by linarith
  then have mo: "d_month d = d_month d'" and da: "unat (d_day d) - 1 = unat (d_day d') - 1"
    using yd cy by (simp_all add: year_day_def word_unat_eq_iff [where 'a = 8])
  have "1 \<le> unat (d_day d)" "1 \<le> unat (d_day d')" using v by (simp_all only: valid_date_def)
  then have "unat (d_day d) = unat (d_day d')" using da by linarith
  then have da': "d_day d = d_day d'" by (simp only: word_unat_eq_iff)
  have "unat (d_hour d) = unat (d_hour d')" using h yd by simp
  then have ho: "d_hour d = d_hour d'" by (simp only: word_unat_eq_iff)
  have five: "5 * (k div 5) = k" if "k mod 5 = 0" for k :: nat using that by auto
  have "unat (d_minute d) = unat (d_minute d')" using mi five [OF m5(1)] five [OF m5(2)] by metis
  then have mi': "d_minute d = d_minute d'" by (simp only: word_unat_eq_iff)
  show ?thesis by (rule date_t.equality) (simp_all add: y mo da' ho mi')
qed

lemma slot_in_region:
  assumes "valid_date d"
  shows "slot_addr d data_type + slot_len data_type \<le> region d data_type + (if data_type = 0 then 0x04D340 else 0x066F00)"
  using slot_bound [OF assms] by (simp add: slot_addr_def slot_len_def)

lemma region_le: "region d data_type \<le> 0xC00000"
proof -
  have "unat (d_year d) mod 2 \<le> 1" by simp
  then show ?thesis unfolding region_def by auto
qed

section \<open>On a board whose flash keeps the data sheet\<close>

locale flash_board = nor_flash "spi1 b" cells busy wel
  for b :: "'w board" and cells :: "'w \<Rightarrow> nat \<Rightarrow> u8" and busy :: "'w \<Rightarrow> nat" and wel :: "'w \<Rightarrow> bool"
begin

lemma flash_write_ok:
  assumes "busy (world s) = 0" and "0 < unat n" and "unat a + unat n \<le> 2 ^ 24" and "unat n = length bs"
  shows "\<exists>w. flash_write b bs a n s = Some (s\<lparr>world := w\<rparr>) \<and> busy w = 0 \<and>
    cells w = mem_write (cells (world s)) (unat a) bs"
  using store_law [OF assms(1-3), of bs] assms(4) by (auto simp: flash_write_def)

lemma flash_read_ok:
  assumes "busy (world s) = 0" and "unat a + unat n \<le> 2 ^ 24"
  shows "\<exists>w. flash_read b a n s = (mem_read (cells (world s)) (unat a) (unat n), s\<lparr>world := w\<rparr>) \<and> busy w = 0 \<and>
    cells w = cells (world s)"
  using read_law [OF assms] by (auto simp: flash_read_def)

lemma slot_word:
  assumes "valid_date d"
  shows "unat (word_of_int (int (slot_addr d t)) :: u32) = slot_addr d t"
    and "slot_addr d t + slot_len t \<le> 2 ^ 24"
proof -
  show "slot_addr d t + slot_len t \<le> 2 ^ 24"
    using slot_in_region [OF assms, of t] region_le [of d t] by (simp split: if_splits)
  then have "slot_addr d t < 2 ^ LENGTH(32)" by simp
  then show "unat (word_of_int (int (slot_addr d t)) :: u32) = slot_addr d t"
    unfolding of_int_of_nat_eq by (rule unat_of_nat_small)
qed

lemma save_ok:
  assumes "valid_date d" and "unat (d_minute d) mod 5 = 0" and "md_ok (s_monthday s)" and "busy (world s) = 0"
    and "length data = slot_len t"
  shows "\<exists>md w. SaveDataToFlash b d t data 1 s = Some (0, s\<lparr>s_monthday := md, world := w\<rparr>) \<and> busy w = 0 \<and> md_ok md \<and>
    cells w = mem_write (cells (world s)) (slot_addr d t) data"
proof -
  obtain md where md: "md_ok md" "GetAddress d t (s_monthday s) = Some (Inr (int (slot_addr d t)), md)"
    using GetAddress_ok [OF assms(1-3)] by blast
  let ?s = "s\<lparr>s_monthday := md\<rparr>" and ?a = "word_of_int (int (slot_addr d t)) :: u32"
  have n: "unat (of_nat (1 * (if t = 0 then 3 else 4)) :: u16) = slot_len t" by (simp add: slot_len_def)
  have "busy (world ?s) = 0" "0 < unat (of_nat (1 * (if t = 0 then 3 else 4)) :: u16)"
    "unat ?a + unat (of_nat (1 * (if t = 0 then 3 else 4)) :: u16) \<le> 2 ^ 24"
    "unat (of_nat (1 * (if t = 0 then 3 else 4)) :: u16) = length data"
    unfolding n slot_word(1) [OF assms(1)] using assms slot_word(2) [OF assms(1), of t] by (simp_all add: slot_len_def)
  from flash_write_ok [OF this] obtain w where
    "flash_write b data ?a (of_nat (1 * (if t = 0 then 3 else 4))) ?s = Some (?s\<lparr>world := w\<rparr>)" "busy w = 0"
    "cells w = mem_write (cells (world s)) (slot_addr d t) data"
    unfolding slot_word(1) [OF assms(1)] by auto
  then show ?thesis
    using md by (intro exI [of _ md] exI [of _ w]) (simp add: SaveDataToFlash_def del: of_nat_mult)
qed

lemma read_data_ok:
  assumes "valid_date d" and "unat (d_minute d) mod 5 = 0" and "md_ok (s_monthday s)" and "busy (world s) = 0"
    and "slot_addr d t + n \<le> 2 ^ 24" and "n < 65536" and "length buf = n"
  shows "\<exists>md w. ReadDataFromFlash b d t buf n s =
      Some (0, mem_read (cells (world s)) (slot_addr d t) n, s\<lparr>s_monthday := md, world := w\<rparr>) \<and>
    busy w = 0 \<and> md_ok md \<and> cells w = cells (world s)"
proof -
  obtain md where md: "md_ok md" "GetAddress d t (s_monthday s) = Some (Inr (int (slot_addr d t)), md)"
    using GetAddress_ok [OF assms(1-3)] by blast
  let ?s = "s\<lparr>s_monthday := md\<rparr>" and ?a = "word_of_int (int (slot_addr d t)) :: u32"
  have n: "unat (of_nat n :: u16) = n" using assms(6) by simp
  obtain w where "flash_read b ?a (of_nat n) ?s = (mem_read (cells (world s)) (slot_addr d t) n, ?s\<lparr>world := w\<rparr>)"
    "busy w = 0" "cells w = cells (world s)"
    using flash_read_ok [of ?s ?a "of_nat n"] assms(4,5) unfolding n slot_word(1) [OF assms(1)] by auto
  then show ?thesis
    using md assms(7) by (intro exI [of _ md] exI [of _ w]) (simp add: ReadDataFromFlash_def blit_def)
qed

lemma parameters_ok:
  assumes "busy (world s) = 0" and "param_wf p"
  shows "\<exists>s' s''. RTU_parameters_Writedata b p s = Some s' \<and> RTU_parameters_Readdata b s' = (p, s'') \<and>
    busy (world s'') = 0 \<and> cells (world s'') = mem_write (cells (world s)) 0x080010 (param_bytes p)"
proof -
  have l: "unat (121 :: u16) = length (param_bytes p)" using length_param_bytes [OF assms(2)] by simp
  obtain w where w: "flash_write b (param_bytes p) IDR_RTU_PARAMETERS 121 s = Some (s\<lparr>world := w\<rparr>)" "busy w = 0"
    "cells w = mem_write (cells (world s)) 0x080010 (param_bytes p)"
    using flash_write_ok [OF assms(1), of 121 IDR_RTU_PARAMETERS "param_bytes p"] l
    by (auto simp: IDR_RTU_PARAMETERS_def)
  obtain w' where "flash_read b IDR_RTU_PARAMETERS 121 (s\<lparr>world := w\<rparr>) =
      (mem_read (cells w) 0x080010 121, s\<lparr>world := w'\<rparr>)" "busy w' = 0" "cells w' = cells w"
    using flash_read_ok [of "s\<lparr>world := w\<rparr>" IDR_RTU_PARAMETERS 121] w(2) by (auto simp: IDR_RTU_PARAMETERS_def)
  moreover have "mem_read (cells w) 0x080010 121 = param_bytes p"
    using mem_read_write_same [of "cells (world s)" "0x080010" "param_bytes p"] length_param_bytes [OF assms(2)] w(3) by simp
  ultimately show ?thesis
    using w param_of_bytes [OF assms(2)]
    by (simp add: RTU_parameters_Writedata_def RTU_parameters_Readdata_def)
qed

end

end
