(* ===== verification/Frames.thy ===== *)
theory Frames
  imports Memory_My
begin

text \<open>
  The packed message structures of PROTOCOL/protocol.h, and their bytes as the \<open>#pragma pack(1)\<close>
  layout puts them in memory (the firmware sends a message by sending the memory of its
  structure). Incoming messages are the other way round: a cast of the receive buffer to a
  structure is a parser of its bytes. The common beginning of the message contents is the base
  record that the m_content records extend.
\<close>

section \<open>Parts of messages\<close>

record message_header_t =
  h_start_id :: u16
  h_center_addr :: u8
  h_remote_addr :: "u8 list"
  h_password :: u16
  h_fun_id :: u8
  h_frame_id_len :: u16
  h_content_start_id :: u8

record pkt_time_data_t =
  p_year :: u8
  p_month :: u8
  p_day :: u8
  p_hour :: u8
  p_minute :: u8
  p_second :: u8

record observ_time_t =
  o_id :: u16
  o_year :: u8
  o_month :: u8
  o_day :: u8
  o_hour :: u8
  o_minute :: u8

record timeperiod_t =
  e_year :: u8
  e_month :: u8
  e_day :: u8
  e_hour :: u8

record upmessage_header_content_t =
  c_sn :: u16
  c_pkt_time :: pkt_time_data_t
  c_remote_addr_id :: u16
  c_remote_addr :: "u8 list"
  c_class_id :: u8
  c_observ_time :: observ_time_t

definition message_header_bytes :: "message_header_t \<Rightarrow> u8 list" where
  "message_header_bytes h = le16 (h_start_id h) @ [h_center_addr h] @ h_remote_addr h @ le16 (h_password h) @
     [h_fun_id h] @ le16 (h_frame_id_len h) @ [h_content_start_id h]"

definition pkt_time_bytes :: "pkt_time_data_t \<Rightarrow> u8 list" where
  "pkt_time_bytes t = [p_year t, p_month t, p_day t, p_hour t, p_minute t, p_second t]"

definition observ_time_bytes :: "observ_time_t \<Rightarrow> u8 list" where
  "observ_time_bytes t = le16 (o_id t) @ [o_year t, o_month t, o_day t, o_hour t, o_minute t]"

definition timeperiod_bytes :: "timeperiod_t \<Rightarrow> u8 list" where
  "timeperiod_bytes t = [e_year t, e_month t, e_day t, e_hour t]"

definition upmessage_header_content_bytes :: "'z upmessage_header_content_t_scheme \<Rightarrow> u8 list" where
  "upmessage_header_content_bytes c = le16 (c_sn c) @ pkt_time_bytes (c_pkt_time c) @
     le16 (c_remote_addr_id c) @ c_remote_addr c @ [c_class_id c] @ observ_time_bytes (c_observ_time c)"

section \<open>Messages to the centre\<close>

record plus_message_content_t = upmessage_header_content_t +
  five_min_precipit_id :: u16
  five_min_precipit_data :: "u8 list"
  water_level_id :: u16
  water_level_data :: "u8 list"
  cumula_precipit_id :: u16
  cumula_precipit_data :: "u8 list"
  voltage_id :: u16
  voltage_data :: "u8 list"

record hour_message_content_t = upmessage_header_content_t +
  hour_five_precipit_id :: u16
  hour_five_prcipit_data :: "u8 list"
  hm_cumula_precipit_id :: u16
  hm_cumula_precipit_data :: "u8 list"
  hour_five_waterlevel_id :: u16
  hour_five_waterlevel_data :: "u16 list"
  hm_water_level_id :: u16
  hm_water_level_data :: "u8 list"
  hm_voltage_id :: u16
  hm_voltage_data :: "u8 list"

record queryrealdata_up_content_t = upmessage_header_content_t +
  precipit_id :: u16
  precipit_data :: "u8 list"
  rd_cumula_precipit_id :: u16
  rd_cumula_precipit_data :: "u8 list"
  rd_water_level_id :: u16
  rd_water_level_data :: "u8 list"
  rd_voltage_id :: u16
  rd_voltage_data :: "u8 list"

record querrytimeperiod_up_content_t = upmessage_header_content_t +
  up_time_period_id :: "u8 list"
  up_element_id :: u16
  start_addr :: u32
  data_length :: u32

text \<open>The structures of header, content, end mark and checksum differ in the content alone.\<close>

record 'c message_t =
  m_header :: message_header_t
  m_content :: 'c
  m_content_end_id :: u8
  m_crc :: u16

type_synonym plus_message_t = "plus_message_content_t message_t"
type_synonym hour_message_t = "hour_message_content_t message_t"
type_synonym queryrealdata_upmessage_t = "queryrealdata_up_content_t message_t"

record calibration_time_upmsssage_t =
  cu_header :: message_header_t
  cu_sn :: u16
  cu_pkt_time :: pkt_time_data_t
  cu_remote_addr_id :: u16
  cu_remote_addr :: "u8 list"
  cu_content_end_id :: u8
  cu_crc :: u16

record querrytimeperiod_upmessage_t =
  q_header :: message_header_t
  q_total_pkts_sn :: "u8 list"
  q_content :: querrytimeperiod_up_content_t
  q_content_end_id :: u8
  q_crc :: u16

definition plus_content_bytes :: "plus_message_content_t \<Rightarrow> u8 list" where
  "plus_content_bytes c = upmessage_header_content_bytes c @
     le16 (five_min_precipit_id c) @ five_min_precipit_data c @ le16 (water_level_id c) @ water_level_data c @
     le16 (cumula_precipit_id c) @ cumula_precipit_data c @ le16 (voltage_id c) @ voltage_data c"

definition hour_content_bytes :: "hour_message_content_t \<Rightarrow> u8 list" where
  "hour_content_bytes c = upmessage_header_content_bytes c @
     le16 (hour_five_precipit_id c) @ hour_five_prcipit_data c @
     le16 (hm_cumula_precipit_id c) @ hm_cumula_precipit_data c @
     le16 (hour_five_waterlevel_id c) @ concat (map le16 (hour_five_waterlevel_data c)) @
     le16 (hm_water_level_id c) @ hm_water_level_data c @ le16 (hm_voltage_id c) @ hm_voltage_data c"

definition queryrealdata_content_bytes :: "queryrealdata_up_content_t \<Rightarrow> u8 list" where
  "queryrealdata_content_bytes c = upmessage_header_content_bytes c @
     le16 (precipit_id c) @ precipit_data c @ le16 (rd_cumula_precipit_id c) @ rd_cumula_precipit_data c @
     le16 (rd_water_level_id c) @ rd_water_level_data c @ le16 (rd_voltage_id c) @ rd_voltage_data c"

definition message_bytes :: "('c \<Rightarrow> u8 list) \<Rightarrow> ('c, 'z) message_t_scheme \<Rightarrow> u8 list" where
  "message_bytes content_bytes m = message_header_bytes (m_header m) @ content_bytes (m_content m) @
     [m_content_end_id m] @ le16 (m_crc m)"

abbreviation "plus_message_bytes \<equiv> message_bytes plus_content_bytes"
abbreviation "hour_message_bytes \<equiv> message_bytes hour_content_bytes"
abbreviation "queryrealdata_bytes \<equiv> message_bytes queryrealdata_content_bytes"

definition calibration_time_up_bytes :: "calibration_time_upmsssage_t \<Rightarrow> u8 list" where
  "calibration_time_up_bytes m = message_header_bytes (cu_header m) @ le16 (cu_sn m) @
     pkt_time_bytes (cu_pkt_time m) @ le16 (cu_remote_addr_id m) @ cu_remote_addr m @
     [cu_content_end_id m] @ le16 (cu_crc m)"

text \<open>The part of a time period message that is sent: all before the flash address and length.\<close>

definition querrytimeperiod_up_bytes :: "querrytimeperiod_upmessage_t \<Rightarrow> u8 list" where
  "querrytimeperiod_up_bytes m = message_header_bytes (q_header m) @ q_total_pkts_sn m @
     upmessage_header_content_bytes (q_content m) @ up_time_period_id (q_content m) @
     le16 (up_element_id (q_content m))"

section \<open>Messages from the centre\<close>

text \<open>A parameter of the set and query messages: its guide identifier and its value.\<close>

type_synonym 'v guided = "u16 \<times> 'v"

record setparameter_content_t =
  sp_sn :: u16
  sp_pkt_time :: pkt_time_data_t
  sp_center_addr :: "u8 list guided"
  sp_rtu_remote_addr :: "u8 list guided"
  sp_password :: "u8 list guided"
  sp_center_1_main_channel :: "u8 list guided"
  sp_center_1_spare_channel :: "u8 list guided"
  sp_center_2_main_channel :: "u8 list guided"
  sp_center_2_spare_channel :: "u8 list guided"
  sp_center_3_main_channel :: "u8 list guided"
  sp_center_3_spare_channel :: "u8 list guided"
  sp_center_4_main_channel :: "u8 list guided"
  sp_center_4_spare_channel :: "u8 list guided"
  sp_work_style :: "u8 guided"
  sp_remote_collect_factor :: "u8 list guided"
  sp_time_interval_of_timing_message :: "u8 guided"
  sp_time_interval_of_plus_message :: "u8 guided"
  sp_rainfall_day_start_time :: "u8 guided"
  sp_sampling_interval :: "u8 list guided"
  sp_waterlevel_save_interval :: "u8 guided"
  sp_rainfall_resolution :: "u8 guided"
  sp_waterlevel_resolution :: "u8 guided"
  sp_threshold_rainfall_value_of_plusemessage :: "u8 guided"
  sp_waterlevel_plusmessage_1 :: "u8 list guided"
  sp_above_threshold_waterlevel_value_of_plusmeessage :: "u8 list guided"
  sp_below_threshold_waterlevel_value_of_plusmessage :: "u8 list guided"
  sp_flow_threshold_plusmessage :: "u8 list guided"

type_synonym setparameter_message_t = "setparameter_content_t message_t"

record querrytimeperiod_down_content_t =
  td_sn :: u16
  td_pkt_time :: pkt_time_data_t
  td_start_time :: timeperiod_t
  td_end_time :: timeperiod_t
  td_time_period_id :: "u8 list"
  td_precipit_id :: u16

definition guided_bytes :: "u8 list guided \<Rightarrow> u8 list" where
  "guided_bytes g = le16 (fst g) @ snd g"

definition guided1_bytes :: "u8 guided \<Rightarrow> u8 list" where
  "guided1_bytes g = le16 (fst g) @ [snd g]"

definition setparameter_content_chunks :: "setparameter_content_t \<Rightarrow> u8 list list" where
  "setparameter_content_chunks c =
     [le16 (sp_sn c), pkt_time_bytes (sp_pkt_time c),
      guided_bytes (sp_center_addr c), guided_bytes (sp_rtu_remote_addr c), guided_bytes (sp_password c),
      guided_bytes (sp_center_1_main_channel c), guided_bytes (sp_center_1_spare_channel c),
      guided_bytes (sp_center_2_main_channel c), guided_bytes (sp_center_2_spare_channel c),
      guided_bytes (sp_center_3_main_channel c), guided_bytes (sp_center_3_spare_channel c),
      guided_bytes (sp_center_4_main_channel c), guided_bytes (sp_center_4_spare_channel c),
      guided1_bytes (sp_work_style c), guided_bytes (sp_remote_collect_factor c),
      guided1_bytes (sp_time_interval_of_timing_message c), guided1_bytes (sp_time_interval_of_plus_message c),
      guided1_bytes (sp_rainfall_day_start_time c), guided_bytes (sp_sampling_interval c),
      guided1_bytes (sp_waterlevel_save_interval c), guided1_bytes (sp_rainfall_resolution c),
      guided1_bytes (sp_waterlevel_resolution c), guided1_bytes (sp_threshold_rainfall_value_of_plusemessage c),
      guided_bytes (sp_waterlevel_plusmessage_1 c), guided_bytes (sp_above_threshold_waterlevel_value_of_plusmeessage c),
      guided_bytes (sp_below_threshold_waterlevel_value_of_plusmessage c), guided_bytes (sp_flow_threshold_plusmessage c)]"

definition setparameter_content_bytes :: "setparameter_content_t \<Rightarrow> u8 list" where
  "setparameter_content_bytes c = concat (setparameter_content_chunks c)"

definition setparameter_sizes :: "nat list" where
  "setparameter_sizes = [2, 6, 6, 7, 4, 12, 12, 12, 12, 12, 12, 12, 12, 3, 6, 3, 3, 3, 4, 3, 3, 3, 3, 4, 4, 4, 5]"

definition querrytimeperiod_down_bytes :: "querrytimeperiod_down_content_t \<Rightarrow> u8 list" where
  "querrytimeperiod_down_bytes c = le16 (td_sn c) @ pkt_time_bytes (td_pkt_time c) @
     timeperiod_bytes (td_start_time c) @ timeperiod_bytes (td_end_time c) @ td_time_period_id c @ le16 (td_precipit_id c)"

section \<open>The receive buffer as a structure\<close>

definition message_header_of :: "u8 list \<Rightarrow> message_header_t option" where
  "message_header_of buff = do {
     h \<leftarrow> slice buff 0 14;
     Some \<lparr>h_start_id = of_le16 (h ! 0) (h ! 1), h_center_addr = h ! 2, h_remote_addr = take 5 (drop 3 h),
       h_password = of_le16 (h ! 8) (h ! 9), h_fun_id = h ! 10, h_frame_id_len = of_le16 (h ! 11) (h ! 12),
       h_content_start_id = h ! 13\<rparr>
   }"

definition pkt_time_of :: "u8 list \<Rightarrow> pkt_time_data_t" where
  "pkt_time_of t = \<lparr>p_year = t ! 0, p_month = t ! 1, p_day = t ! 2, p_hour = t ! 3, p_minute = t ! 4, p_second = t ! 5\<rparr>"

definition timeperiod_of :: "u8 list \<Rightarrow> timeperiod_t" where
  "timeperiod_of t = \<lparr>e_year = t ! 0, e_month = t ! 1, e_day = t ! 2, e_hour = t ! 3\<rparr>"

text \<open>The time in a \<open>calibration_time_downmsssage_t\<close> lies after the header and the serial number.\<close>

definition calibration_time_of :: "u8 list \<Rightarrow> pkt_time_data_t option" where
  "calibration_time_of buff = map_option pkt_time_of (slice buff 16 6)"

definition querrytimeperiod_down_of :: "u8 list \<Rightarrow> querrytimeperiod_down_content_t option" where
  "querrytimeperiod_down_of buff = do {
     c \<leftarrow> slice buff 14 23;
     Some \<lparr>td_sn = of_le16 (c ! 0) (c ! 1), td_pkt_time = pkt_time_of (drop 2 c), td_start_time = timeperiod_of (drop 8 c),
       td_end_time = timeperiod_of (drop 12 c), td_time_period_id = take 5 (drop 16 c),
       td_precipit_id = of_le16 (c ! 21) (c ! 22)\<rparr>
   }"

definition guided_of :: "u8 list \<Rightarrow> u8 list guided" where
  "guided_of g = (of_le16 (g ! 0) (g ! 1), drop 2 g)"

definition guided1_of :: "u8 list \<Rightarrow> u8 guided" where
  "guided1_of g = (of_le16 (g ! 0) (g ! 1), g ! 2)"

definition setparameter_of_chunks :: "u8 list list \<Rightarrow> setparameter_content_t" where
  "setparameter_of_chunks cs = \<lparr>sp_sn = of_le16 (cs ! 0 ! 0) (cs ! 0 ! 1), sp_pkt_time = pkt_time_of (cs ! 1),
     sp_center_addr = guided_of (cs ! 2), sp_rtu_remote_addr = guided_of (cs ! 3), sp_password = guided_of (cs ! 4),
     sp_center_1_main_channel = guided_of (cs ! 5), sp_center_1_spare_channel = guided_of (cs ! 6),
     sp_center_2_main_channel = guided_of (cs ! 7), sp_center_2_spare_channel = guided_of (cs ! 8),
     sp_center_3_main_channel = guided_of (cs ! 9), sp_center_3_spare_channel = guided_of (cs ! 10),
     sp_center_4_main_channel = guided_of (cs ! 11), sp_center_4_spare_channel = guided_of (cs ! 12),
     sp_work_style = guided1_of (cs ! 13), sp_remote_collect_factor = guided_of (cs ! 14),
     sp_time_interval_of_timing_message = guided1_of (cs ! 15), sp_time_interval_of_plus_message = guided1_of (cs ! 16),
     sp_rainfall_day_start_time = guided1_of (cs ! 17), sp_sampling_interval = guided_of (cs ! 18),
     sp_waterlevel_save_interval = guided1_of (cs ! 19), sp_rainfall_resolution = guided1_of (cs ! 20),
     sp_waterlevel_resolution = guided1_of (cs ! 21), sp_threshold_rainfall_value_of_plusemessage = guided1_of (cs ! 22),
     sp_waterlevel_plusmessage_1 = guided_of (cs ! 23), sp_above_threshold_waterlevel_value_of_plusmeessage = guided_of (cs ! 24),
     sp_below_threshold_waterlevel_value_of_plusmessage = guided_of (cs ! 25), sp_flow_threshold_plusmessage = guided_of (cs ! 26)\<rparr>"

definition setparameter_of :: "u8 list \<Rightarrow> setparameter_content_t option" where
  "setparameter_of buff = do {
     c \<leftarrow> slice buff 14 172;
     Some (setparameter_of_chunks (chunks setparameter_sizes c))
   }"

section \<open>Layout\<close>

lemma length_header [layout_simps]: "length (h_remote_addr h) = 5 \<Longrightarrow> length (message_header_bytes h) = 14"
  by (simp add: message_header_bytes_def)

lemma length_pkt_time [simp, layout_simps]: "length (pkt_time_bytes t) = 6"
  by (simp add: pkt_time_bytes_def)

lemma length_observ_time [simp, layout_simps]: "length (observ_time_bytes t) = 7"
  by (simp add: observ_time_bytes_def)

lemma length_header_content [layout_simps]:
  "length (c_remote_addr c) = 5 \<Longrightarrow> length (upmessage_header_content_bytes c) = 23"
  by (simp add: upmessage_header_content_bytes_def)

lemma le16_nth [simp]: "of_le16 (le16 w ! 0) (le16 w ! 1) = w" "of_le16 (le16 w ! 0) (le16 w ! Suc 0) = w"
  by (simp_all add: le16_def)

lemma take_le16 [simp]: "le16 w ! 0 = ucast w" "le16 w ! Suc 0 = ucast (drop_bit 8 w)"
  by (simp_all add: le16_def)

section \<open>Parsing what was laid out\<close>

lemma pkt_time_of_bytes [simp]: "pkt_time_of (pkt_time_bytes t @ rest) = t" "pkt_time_of (pkt_time_bytes t) = t"
  by (simp_all add: pkt_time_of_def pkt_time_bytes_def)

lemma timeperiod_of_bytes [simp]: "timeperiod_of (timeperiod_bytes t @ rest) = t"
  by (simp add: timeperiod_of_def timeperiod_bytes_def)

lemma five_cases:
  assumes "length xs = 5" obtains a b c d e where "xs = [a, b, c, d, e]"
proof -
  from assms obtain a xs1 where 1: "xs = a # xs1" "length xs1 = 4" by (cases xs) auto
  from 1(2) obtain b xs2 where 2: "xs1 = b # xs2" "length xs2 = 3" by (cases xs1) auto
  from 2(2) obtain c xs3 where 3: "xs2 = c # xs3" "length xs3 = 2" by (cases xs2) auto
  from 3(2) obtain d xs4 where 4: "xs3 = d # xs4" "length xs4 = 1" by (cases xs3) auto
  from 4(2) obtain e where "xs4 = [e]" by (cases xs4) auto
  then show ?thesis using that 1 2 3 4 by simp
qed

lemma message_header_of_bytes:
  assumes "length (h_remote_addr h) = 5"
  shows "message_header_of (message_header_bytes h @ rest) = Some (h :: message_header_t)"
proof -
  obtain a b c d e where r: "h_remote_addr h = [a, b, c, d, e]" using assms by (rule five_cases)
  then show ?thesis
    by (cases h) (simp add: message_header_of_def message_header_bytes_def le16_def)
qed

lemma length_querrytimeperiod_down [layout_simps]:
  "length (td_time_period_id c) = 5 \<Longrightarrow> length (querrytimeperiod_down_bytes c) = 23"
  by (simp add: querrytimeperiod_down_bytes_def timeperiod_bytes_def)

lemma querrytimeperiod_down_of_bytes:
  assumes "length hdr = 14" and "length (td_time_period_id c) = 5"
  shows "querrytimeperiod_down_of (hdr @ querrytimeperiod_down_bytes c @ rest) = Some (c :: querrytimeperiod_down_content_t)"
proof -
  obtain a b d e f where r: "td_time_period_id c = [a, b, d, e, f]" using assms(2) by (rule five_cases)
  then have "querrytimeperiod_down_bytes c = le16 (td_sn c) @ pkt_time_bytes (td_pkt_time c) @
     timeperiod_bytes (td_start_time c) @ timeperiod_bytes (td_end_time c) @ [a, b, d, e, f] @ le16 (td_precipit_id c)"
    by (simp add: querrytimeperiod_down_bytes_def)
  moreover have "slice (hdr @ querrytimeperiod_down_bytes c @ rest) 14 23 = Some (querrytimeperiod_down_bytes c)"
    using assms length_querrytimeperiod_down [OF assms(2)] by (simp add: slice_def)
  ultimately show ?thesis using r
    by (cases c) (simp add: querrytimeperiod_down_of_def le16_def pkt_time_bytes_def timeperiod_bytes_def
        pkt_time_of_def timeperiod_of_def)
qed

definition setparameter_wf :: "setparameter_content_t \<Rightarrow> bool" where
  "setparameter_wf c \<longleftrightarrow> map length (setparameter_content_chunks c) = setparameter_sizes"

lemma guided_of_bytes [simp]: "guided_of (guided_bytes g) = g"
  by (simp add: guided_of_def guided_bytes_def le16_def)

lemma guided1_of_bytes [simp]: "guided1_of (guided1_bytes g) = g"
  by (simp add: guided1_of_def guided1_bytes_def le16_def)

lemma setparameter_of_chunks [simp]: "setparameter_of_chunks (setparameter_content_chunks c) = c"
  by (simp add: setparameter_of_chunks_def setparameter_content_chunks_def)

lemma length_setparameter: "setparameter_wf c \<Longrightarrow> length (setparameter_content_bytes c) = 172"
  by (simp add: setparameter_wf_def setparameter_content_bytes_def length_concat setparameter_sizes_def)

lemma setparameter_of_bytes:
  assumes "length hdr = 14" and "setparameter_wf c"
  shows "setparameter_of (hdr @ setparameter_content_bytes c @ rest) = Some c"
proof -
  have "chunks setparameter_sizes (setparameter_content_bytes c) = setparameter_content_chunks c"
    using assms(2) unfolding setparameter_wf_def setparameter_content_bytes_def by (metis chunks_concat)
  moreover have "slice (hdr @ setparameter_content_bytes c @ rest) 14 172 = Some (setparameter_content_bytes c)"
    using assms length_setparameter [OF assms(2)] by (simp add: slice_def)
  ultimately show ?thesis by (simp add: setparameter_of_def)
qed

end
