(* ===== verification/CRC.thy ===== *)
theory CRC
  imports Prelude
begin

text \<open>
  The frame check of 4G/4g.c: \<open>InvertUint8\<close>, \<open>InvertUint16\<close> and \<open>CRC16_MODBUS\<close>, a CRC with
  polynomial 0x8005 over bit-reversed bytes. The specification is the reflected form with
  polynomial 0xA001, which needs no reversal; its linearity and injectivity give what the
  frames rely on: a frame followed by its own CRC checks to 0, and a change within two
  neighbouring bytes is always noticed.
\<close>

section \<open>The code\<close>

definition InvertUint8 :: "u8 \<Rightarrow> u8" where
  "InvertUint8 src =
     fold (\<lambda>i tmp. if src AND push_bit i 1 \<noteq> 0 then tmp OR push_bit (7 - i) 1 else tmp) [0..<8] 0"

definition InvertUint16 :: "u16 \<Rightarrow> u16" where
  "InvertUint16 src =
     fold (\<lambda>i tmp. if src AND push_bit i 1 \<noteq> 0 then tmp OR push_bit (15 - i) 1 else tmp) [0..<16] 0"

definition crc_shift :: "u16 \<Rightarrow> u16" where
  "crc_shift wCRCin =
     (if wCRCin AND 0x8000 \<noteq> 0 then push_bit 1 wCRCin XOR 0x8005 else push_bit 1 wCRCin)"

definition crc_byte :: "u16 \<Rightarrow> u8 \<Rightarrow> u16" where
  "crc_byte wCRCin wChar = (crc_shift ^^ 8) (wCRCin XOR push_bit 8 (ucast (InvertUint8 wChar)))"

text \<open>\<open>while (usDataLen--)\<close>; \<open>None\<close> is a read past the end of the message buffer.\<close>

fun crc_loop :: "u8 list \<Rightarrow> nat \<Rightarrow> u16 \<Rightarrow> u16 option" where
  "crc_loop puchMsg 0 wCRCin = Some wCRCin"
| "crc_loop [] (Suc usDataLen) wCRCin = None"
| "crc_loop (wChar # puchMsg) (Suc usDataLen) wCRCin = crc_loop puchMsg usDataLen (crc_byte wCRCin wChar)"

definition CRC16_MODBUS :: "u8 list \<Rightarrow> nat \<Rightarrow> u16 option" where
  "CRC16_MODBUS puchMsg usDataLen = do {
     wCRCin \<leftarrow> crc_loop puchMsg usDataLen 0xFFFF;
     Some (InvertUint16 wCRCin)
   }"

section \<open>The reflected form\<close>

definition ref_shift :: "u16 \<Rightarrow> u16" where
  "ref_shift w = (if bit w 0 then drop_bit 1 w XOR 0xA001 else drop_bit 1 w)"

definition ref_byte :: "u16 \<Rightarrow> u8 \<Rightarrow> u16" where
  "ref_byte w b = (ref_shift ^^ 8) (w XOR ucast b)"

definition crc16 :: "u8 list \<Rightarrow> u16" where
  "crc16 bs = foldl ref_byte 0xFFFF bs"

section \<open>Bit reversal\<close>

lemma and_push1: "(w AND push_bit i 1 \<noteq> 0) = bit w i" for w :: "'a::len word"
  by (simp add: and_exp_eq_0_iff_not_bit push_bit_of_1)

text \<open>The reversal loop of either width, \<open>L\<close> being the index of the top bit.\<close>

lemma bit_reverse_loop:
  fixes s :: "'a::len word"
  assumes "LENGTH('a) = Suc L" and "n \<le> L"
  shows "m \<le> Suc L \<Longrightarrow>
    bit (fold (\<lambda>i tmp. if bit s i then tmp OR push_bit (L - i) 1 else tmp) [0..<m] (0::'a word)) n
      \<longleftrightarrow> L - n < m \<and> bit s (L - n)"
proof (induction m)
  case 0
  then show ?case by simp
next
  case (Suc m)
  have "bit (push_bit (L - m) 1 :: 'a word) n \<longleftrightarrow> L - n = m"
    using assms Suc.prems by (auto simp: bit_push_bit_iff bit_1_iff simp del: push_bit_of_1)
  then show ?case
    using Suc.IH Suc.prems by (auto simp: bit_or_iff less_Suc_eq simp del: push_bit_of_1)
qed

lemma bit_InvertUint8: "bit (InvertUint8 s) n \<longleftrightarrow> n < 8 \<and> bit s (7 - n)"
  using bit_reverse_loop [of 7 n 8 s] bit_imp_le_length [of "InvertUint8 s" n]
  by (cases "n < 8") (auto simp: InvertUint8_def and_push1 simp del: push_bit_of_1)

lemma bit_InvertUint16: "bit (InvertUint16 s) n \<longleftrightarrow> n < 16 \<and> bit s (15 - n)"
  using bit_reverse_loop [of 15 n 16 s] bit_imp_le_length [of "InvertUint16 s" n]
  by (cases "n < 16") (auto simp: InvertUint16_def and_push1 simp del: push_bit_of_1)

lemma InvertUint16_invol [simp]: "InvertUint16 (InvertUint16 w) = w"
  by (rule bit_word_eqI) (auto simp: bit_InvertUint16)

lemma InvertUint16_xor: "InvertUint16 (v XOR w) = InvertUint16 v XOR InvertUint16 w"
  by (rule bit_word_eqI) (auto simp: bit_InvertUint16 bit_simps)

lemma InvertUint16_push_Invert8: "InvertUint16 (push_bit 8 (ucast (InvertUint8 b))) = ucast b"
proof (rule bit_word_eqI)
  fix n :: nat
  have "7 - (7 - n) = n" if "n < 8" using that by arith
  then show "bit (InvertUint16 (push_bit 8 (ucast (InvertUint8 b)))) n = bit (ucast b :: u16) n"
    using bit_imp_le_length [of b n]
    by (cases "n < 8") (auto simp: bit_InvertUint16 bit_InvertUint8 bit_simps)
qed

lemma InvertUint16_const: "InvertUint16 0xFFFF = 0xFFFF" "InvertUint16 0x8005 = 0xA001"
  by code_simp+

lemma InvertUint16_push1: "InvertUint16 (push_bit 1 w) = drop_bit 1 (InvertUint16 w)"
  by (rule bit_word_eqI)
    (auto simp only: bit_InvertUint16 bit_push_bit_iff bit_drop_bit_eq o_def, auto simp: numeral_eq_Suc dest: bit_imp_le_length)

lemma InvertUint16_shift: "InvertUint16 (crc_shift w) = ref_shift (InvertUint16 w)"
proof -
  have "(0x8000 :: u16) = push_bit 15 1" by simp
  then have "(w AND 0x8000 \<noteq> 0) = bit (InvertUint16 w) 0"
    by (simp only: and_push1 bit_InvertUint16) simp
  then show ?thesis
    by (simp only: crc_shift_def ref_shift_def InvertUint16_xor InvertUint16_push1 InvertUint16_const
        if_distrib [of InvertUint16])
qed

lemma InvertUint16_byte: "InvertUint16 (crc_byte w b) = ref_byte (InvertUint16 w) b"
proof -
  have "InvertUint16 ((crc_shift ^^ k) v) = (ref_shift ^^ k) (InvertUint16 v)" for k v
    by (induction k) (simp_all add: InvertUint16_shift)
  then show ?thesis
    by (simp add: crc_byte_def ref_byte_def InvertUint16_xor InvertUint16_push_Invert8)
qed

lemma crc_loop_eq:
  "crc_loop bs n w =
     (if n \<le> length bs then Some (InvertUint16 (foldl ref_byte (InvertUint16 w) (take n bs))) else None)"
  by (induction bs n w rule: crc_loop.induct) (simp_all add: InvertUint16_byte)

lemma CRC16_MODBUS_eq:
  "CRC16_MODBUS bs n = (if n \<le> length bs then Some (crc16 (take n bs)) else None)"
  by (simp add: CRC16_MODBUS_def crc_loop_eq crc16_def InvertUint16_const)

section \<open>Linearity and injectivity\<close>

lemma ref_shift_xor: "ref_shift (v XOR w) = ref_shift v XOR ref_shift w"
proof -
  have x: "(x XOR c) XOR y = (x XOR y) XOR c" "x XOR (y XOR c) = (x XOR y) XOR c"
    "((x XOR y) XOR c) XOR c = x XOR y" for x y c :: u16
    by (rule bit_word_eqI, auto simp: bit_xor_iff)+
  show ?thesis
    by (cases "bit v 0"; cases "bit w 0") (simp_all only: ref_shift_def bit_xor_iff drop_bit_xor x if_True if_False simp_thms)
qed

lemma ref_shifts_xor: "(ref_shift ^^ k) (v XOR w) = (ref_shift ^^ k) v XOR (ref_shift ^^ k) w"
  by (induction k) (simp_all add: ref_shift_xor)

lemma ref_shift_eq_0: "ref_shift w = 0 \<longleftrightarrow> w = 0"
proof
  assume z: "ref_shift w = 0"
  have top: "bit (0xA001 :: u16) 15" by simp
  have "\<not> bit (ref_shift w) 15" using z by simp
  moreover have "\<not> bit w 16" using bit_imp_le_length [of w 16] by auto
  ultimately have b: "\<not> bit w 0"
    using top by (auto simp: ref_shift_def bit_xor_iff bit_drop_bit_eq)
  then have "drop_bit 1 w = 0" using z by (simp add: ref_shift_def)
  then have "\<not> bit w (Suc n)" for n using bit_drop_bit_eq [of 1 w] by (metis bit_0_eq bot_apply comp_apply plus_1_eq_Suc bot_bool_def)
  then show "w = 0" using b by (intro bit_word_eqI) (metis bit_0_eq bot_apply bot_bool_def not0_implies_Suc)
qed (simp add: ref_shift_def)

lemma ref_shifts_inj: "(ref_shift ^^ k) v = (ref_shift ^^ k) w \<longleftrightarrow> v = w"
proof -
  have z: "(ref_shift ^^ k) u = 0 \<longleftrightarrow> u = 0" for u
    by (induction k) (simp_all add: ref_shift_eq_0)
  have "(ref_shift ^^ k) v = (ref_shift ^^ k) w \<longleftrightarrow> (ref_shift ^^ k) (v XOR w) = 0"
    by (simp add: ref_shifts_xor xor_eq_0)
  then show ?thesis by (simp add: z xor_eq_0)
qed

lemma ref_shifts_zero: "\<forall>n < k. \<not> bit w n \<Longrightarrow> (ref_shift ^^ k) w = drop_bit k w"
proof (induction k)
  case 0
  then show ?case by simp
next
  case (Suc k)
  then have "(ref_shift ^^ k) w = drop_bit k w" and "\<not> bit (drop_bit k w) 0"
    by (simp_all add: bit_drop_bit_eq)
  then show ?case by (simp add: ref_shift_def [of "drop_bit k w"])
qed

lemma foldl_ref_inj: "foldl ref_byte v bs = foldl ref_byte w bs \<longleftrightarrow> v = w"
  by (induction bs arbitrary: v w) (simp_all add: ref_byte_def ref_shifts_inj xor_cancel)

text \<open>Two bytes in a row are one 16-bit value added to the state.\<close>

lemma ref_byte2: "ref_byte (ref_byte w a) b = (ref_shift ^^ 16) (w XOR of_le16 a b)"
proof -
  have b: "(ref_shift ^^ 8) (push_bit 8 (ucast b)) = (ucast b :: u16)"
    by (subst ref_shifts_zero)
      (auto simp: bit_simps intro!: bit_word_eqI dest: bit_imp_le_length [where 'a = 8, simplified])
  have e: "of_le16 a b = ucast a XOR push_bit 8 (ucast b)"
    by (rule bit_word_eqI) (auto simp: of_le16_def bit_simps dest: bit_imp_le_length)
  have "(ref_shift ^^ 16) x = (ref_shift ^^ 8) ((ref_shift ^^ 8) x)" for x
    using funpow_add [of 8 8 ref_shift] by (simp add: fun_eq_iff)
  then show ?thesis
    by (simp add: ref_byte_def e ref_shifts_xor b xor.assoc)
qed

lemma of_le16_inj: "of_le16 a b = of_le16 c d \<longleftrightarrow> a = c \<and> b = d"
  by (metis of_le16_lo of_le16_hi)

lemma crc16_trailer: "crc16 (bs @ le16 (crc16 bs)) = 0"
proof -
  have "crc16 (bs @ le16 (crc16 bs)) = (ref_shift ^^ 16) (crc16 bs XOR crc16 bs)"
    by (simp add: crc16_def le16_def ref_byte2)
  then show ?thesis by (simp add: ref_shifts_zero)
qed

lemma crc16_burst:
  "crc16 (xs @ [a, b] @ ys) = crc16 (xs @ [c, d] @ ys) \<longleftrightarrow> a = c \<and> b = d"
proof -
  have "crc16 (xs @ [a, b] @ ys) = crc16 (xs @ [c, d] @ ys) \<longleftrightarrow>
      crc16 xs XOR of_le16 a b = crc16 xs XOR of_le16 c d"
    by (simp add: crc16_def foldl_ref_inj ref_byte2 ref_shifts_inj)
  also have "\<dots> \<longleftrightarrow> of_le16 a b = of_le16 c d" by (metis xor.commute xor_cancel)
  finally show ?thesis by (simp add: of_le16_inj)
qed

end
