(* ===== verification/Gprs.thy ===== *)
theory Gprs
  imports CRC Memory_My
begin

text \<open>
  The 4G modem: 4G/4g.c, the receive interrupt of 4G/DMAUSART2/dmausart.c and the short message
  commands of 4G/short_letter.c. A command is a string sent over the serial port and a reply
  searched in the receive buffer; the interrupt fills that buffer while the program waits, so
  every wait is a step in which the board may deliver bytes. The theory holds the
  connection state machine; what travels over the connection is in \<open>Gprs_Data\<close>.
\<close>

section \<open>C strings\<close>

definition bytes :: "string \<Rightarrow> u8 list" where
  "bytes s = map (\<lambda>c. of_nat (of_char c)) s"

definition crlf :: "u8 list" where "crlf = [0x0D, 0x0A]"

text \<open>The string a buffer holds: the bytes before the first NUL.\<close>

definition c_str :: "u8 list \<Rightarrow> u8 list" where
  "c_str buf = takeWhile (\<lambda>x. x \<noteq> 0) buf"

fun prefixed :: "u8 list \<Rightarrow> u8 list \<Rightarrow> bool" where
  "prefixed [] hay = True"
| "prefixed (n # needle) [] = False"
| "prefixed (n # needle) (h # hay) = (n = h \<and> prefixed needle hay)"

fun find_sub :: "u8 list \<Rightarrow> u8 list \<Rightarrow> nat option" where
  "find_sub needle [] = (if needle = [] then Some 0 else None)"
| "find_sub needle (h # hay) =
     (if prefixed needle (h # hay) then Some 0 else map_option Suc (find_sub needle hay))"

definition strstr :: "u8 list \<Rightarrow> u8 list \<Rightarrow> nat option" where
  "strstr buf needle = find_sub needle (c_str buf)"

text \<open>Decimal digits, as \<open>sprintf\<close> prints an unsigned number.\<close>

fun decimal :: "nat \<Rightarrow> u8 list" where
  "decimal n = (if n < 10 then [0x30 + of_nat n] else decimal (n div 10) @ [0x30 + of_nat (n mod 10)])"

declare decimal.simps [simp del]

section \<open>State\<close>

record up_frame_t =
  u_start_id :: u16
  u_center_addr :: u8
  u_remote_addr :: "u8 list"
  u_password :: u16
  u_fun_id :: u8
  u_frame_id_len :: u16
  u_content_start_id :: u8
  total_pkts_and_cur_sn :: "u8 list"
  picture :: "u8 list"
  u_content_end_id :: u8
  u_crc :: u16

text \<open>\<open>picture\<close> holds the bytes of the union; its member \<open>pic_info\<close> has the data at offset 25.\<close>

record 'w gprs = "'w mem" +
  DMA_usart2_Buf :: "u8 list"
  g_usart2_receive_cnt :: nat
  g_usart2_receive_stat :: bool
  s_gprs_init_flag :: bool
  s_gprs_net_flag :: bool
  s_gprs_connect_flag :: bool
  s_error_cnt :: u8
  s_error_flag :: u8
  send_atcipsend_erro_count :: int
  g_gprs_receive_data_buff :: "u8 list"
  g_gprs_receive_data_length :: u8
  g_single_retransmit_count :: u32
  frame :: up_frame_t
  pic_size :: int
  cur_sn :: u16
  s_sysTime :: Time_Def

definition DMA_Rec_Len :: nat where "DMA_Rec_Len = 200"

section \<open>The serial port\<close>

definition Usart2_Send :: "'w board \<Rightarrow> u8 list \<Rightarrow> ('w, 'z) base_scheme \<Rightarrow> ('w, 'z) base_scheme" where
  "Usart2_Send b buf s = s\<lparr>world := uart2_tx b buf (world s)\<rparr>"

text \<open>The interrupt at the end of a burst: the DMA has put it at the start of the buffer.\<close>

definition USART2_IRQHandler :: "u8 list \<Rightarrow> ('w, 'z) gprs_scheme \<Rightarrow> ('w, 'z) gprs_scheme" where
  "USART2_IRQHandler burst s =
     (let got = take DMA_Rec_Len burst
      in s\<lparr>DMA_usart2_Buf := got @ drop (length got) (DMA_usart2_Buf s),
           g_usart2_receive_cnt := length got, g_usart2_receive_stat := (length got > 0)\<rparr>)"

definition delay :: "'w board \<Rightarrow> ('w, 'z) gprs_scheme \<Rightarrow> ('w, 'z) gprs_scheme" where
  "delay b s = (let (r, w) = uart2_rx b (world s); s = s\<lparr>world := w\<rparr>
     in case r of None \<Rightarrow> s | Some burst \<Rightarrow> USART2_IRQHandler burst s)"

definition gprs_send_string :: "'w board \<Rightarrow> u8 list \<Rightarrow> ('w, 'z) base_scheme \<Rightarrow> ('w, 'z) base_scheme" where
  "gprs_send_string b send_data s = Usart2_Send b (c_str send_data) s"

text \<open>\<open>while (timeout_value--)\<close>: true when the reply has been seen.\<close>

fun wait_ack :: "'w board \<Rightarrow> u8 list \<Rightarrow> nat \<Rightarrow> ('w, 'z) gprs_scheme \<Rightarrow> bool \<times> ('w, 'z) gprs_scheme" where
  "wait_ack b ack 0 s = (False, s)"
| "wait_ack b ack (Suc timeout_value) s =
     (if g_usart2_receive_stat s then
        let s = s\<lparr>g_usart2_receive_stat := False\<rparr>
        in if strstr (DMA_usart2_Buf s) ack \<noteq> None
           then (True, s\<lparr>DMA_usart2_Buf := replicate (length (DMA_usart2_Buf s)) 0\<rparr>)
           else wait_ack b ack timeout_value (delay b s)
      else wait_ack b ack timeout_value (delay b s))"

text \<open>The result is true on failure, as the code's is 1.\<close>

fun gprs_send_cmd :: "'w board \<Rightarrow> u8 list \<Rightarrow> u8 list \<Rightarrow> nat \<Rightarrow> nat \<Rightarrow> ('w, 'z) gprs_scheme \<Rightarrow> bool \<times> ('w, 'z) gprs_scheme" where
  "gprs_send_cmd b cmd ack timeout 0 s = (True, s)"
| "gprs_send_cmd b cmd ack timeout (Suc retime) s =
     (let s = gprs_send_string b cmd s; (ok, s) = wait_ack b ack timeout s
      in if ok then (False, s) else gprs_send_cmd b cmd ack timeout retime s)"

section \<open>Connecting\<close>

text \<open>A list of commands, each with the error it stands for; the first that fails ends the list.\<close>

fun at_sequence :: "'w board \<Rightarrow> (string \<times> string \<times> nat \<times> nat \<times> u8) list \<Rightarrow> ('w, 'z) gprs_scheme \<Rightarrow> u8 \<times> ('w, 'z) gprs_scheme" where
  "at_sequence b [] s = (0, s)"
| "at_sequence b ((cmd, ack, timeout, retime, e) # rest) s =
     (let (failed, s) = gprs_send_cmd b (bytes cmd @ crlf) (bytes ack) timeout retime s
      in if failed then (e, s) else at_sequence b rest s)"

definition init_commands :: "(string \<times> string \<times> nat \<times> nat \<times> u8) list" where
  "init_commands = [(''AT'', ''OK'', 500, 5, 1), (''AT+CPIN?'', ''OK'', 200, 2, 3), (''AT+CPSI?'', ''OK'', 200, 2, 5),
     (''AT+CGATT?'', ''OK'', 200, 2, 6), (''ATE0'', ''OK'', 200, 5, 2)]"

definition gprs_init :: "'w board \<Rightarrow> ('w, 'z) gprs_scheme \<Rightarrow> u8 \<times> ('w, 'z) gprs_scheme" where
  "gprs_init b s =
     (let (e, s) = at_sequence b init_commands s
      in if e \<noteq> 0 then (e, s) else (0, s\<lparr>s_gprs_init_flag := True\<rparr>))"

definition net_commands :: "(string \<times> string \<times> nat \<times> nat \<times> u8) list" where
  "net_commands = [(''AT+NETCLOSE'', ''+NETCLOSE:'', 500, 2, 7), (''AT+CIPMODE=0'', ''OK'', 200, 2, 8),
     (''AT+CIPHEAD=1'', ''OK'', 200, 2, 9), (''AT+CSOCKSETPN=1'', ''OK'', 200, 2, 10),
     (''AT+NETOPEN'', ''+NETOPEN: 0'', 500, 1, 11)]"

definition gprs_net_config :: "'w board \<Rightarrow> ('w, 'z) gprs_scheme \<Rightarrow> u8 \<times> ('w, 'z) gprs_scheme" where
  "gprs_net_config b s =
     (let (e, s) = at_sequence b net_commands s
      in if e \<noteq> 0 then (e, s) else (0, s\<lparr>s_gprs_net_flag := True\<rparr>))"

definition connect_commands :: "(string \<times> string \<times> nat \<times> nat \<times> u8) list" where
  "connect_commands = [(''AT+CIPOPEN=0,\"TCP\",\"218.94.97.35\",5009'', ''+CIPOPEN:'', 500, 2, 13),
     (''AT+CIPOPEN=1,\"TCP\",\"106.15.234.181\",5009'', ''+CIPOPEN:'', 500, 2, 13)]"

definition gprs_connect :: "'w board \<Rightarrow> ('w, 'z) gprs_scheme \<Rightarrow> u8 \<times> ('w, 'z) gprs_scheme" where
  "gprs_connect b s =
     (let s = delay b s; (e, s) = at_sequence b connect_commands s
      in if e \<noteq> 0 then (e, s)
         else let s = delay b s; s = s\<lparr>s_gprs_connect_flag := True\<rparr>; s = delay b s in (0, s))"

definition disconnect_commands :: "(string \<times> string \<times> nat \<times> nat \<times> u8) list" where
  "disconnect_commands = [(''AT+CIPCLOSE=0'', ''OK'', 500, 2, 16), (''AT+CIPCLOSE=1'', ''OK'', 500, 2, 16)]"

definition gprs_disconnect :: "'w board \<Rightarrow> ('w, 'z) gprs_scheme \<Rightarrow> u8 \<times> ('w, 'z) gprs_scheme" where
  "gprs_disconnect b s = at_sequence b disconnect_commands s"

definition GPRS_Reset :: "'w board \<Rightarrow> ('w, 'z) gprs_scheme \<Rightarrow> ('w, 'z) gprs_scheme" where
  "GPRS_Reset b s =
     (let s = s\<lparr>world := pin_out b GPIOB 8 True (world s)\<rparr>; s = delay b s
      in s\<lparr>world := pin_out b GPIOB 8 False (world s)\<rparr>)"

definition gprs_enter_sleep_mode :: "'w board \<Rightarrow> ('w, 'z) gprs_scheme \<Rightarrow> u8 \<times> ('w, 'z) gprs_scheme" where
  "gprs_enter_sleep_mode b s =
     (let (failed, s) = gprs_send_cmd b (bytes ''AT+CSCLK=1'' @ crlf) (bytes ''OK'') 200 2 s
      in if failed then (1, s) else (0, s\<lparr>world := pin_out b GPIOG 14 True (world s)\<rparr>))"

definition gprs_exit_sleep_mode :: "'w board \<Rightarrow> ('w, 'z) base_scheme \<Rightarrow> ('w, 'z) base_scheme" where
  "gprs_exit_sleep_mode b s = s\<lparr>world := pin_out b GPIOG 14 False (world s)\<rparr>"

definition err_process :: "'w board \<Rightarrow> u8 \<Rightarrow> ('w, 'z) gprs_scheme \<Rightarrow> ('w, 'z) gprs_scheme" where
  "err_process b err s =
     (let s = (if err = 1 then s\<lparr>s_error_cnt := 4\<rparr> else s);
          s = s\<lparr>s_gprs_init_flag := False, s_gprs_net_flag := False, s_gprs_connect_flag := False\<rparr>;
          s = s\<lparr>s_error_cnt := s_error_cnt s + 1\<rparr>
      in if s_error_cnt s \<ge> 3 then GPRS_Reset b (s\<lparr>s_error_cnt := 0\<rparr>) else s)"

text \<open>The turns of \<open>GPRS_4G_Init\<close>: \<open>Inr\<close> has returned 0, \<open>Inl\<close> goes round again.\<close>

definition init_turn :: "'w board \<Rightarrow> ('w, 'z) gprs_scheme \<Rightarrow> ('w, 'z) gprs_scheme + ('w, 'z) gprs_scheme" where
  "init_turn b s =
     (let s = (if \<not> s_gprs_init_flag s \<and> \<not> s_gprs_connect_flag s \<and> \<not> s_gprs_net_flag s
               then let (e, s) = gprs_init b s in s\<lparr>s_error_flag := e\<rparr> else s);
          s = (if \<not> s_gprs_net_flag s \<and> \<not> s_gprs_connect_flag s \<and> s_gprs_init_flag s
               then let (e, s) = gprs_net_config b s in s\<lparr>s_error_flag := e\<rparr> else s);
          tried = (s_gprs_init_flag s \<and> s_gprs_net_flag s \<and> \<not> s_gprs_connect_flag s);
          s = (if tried then let (e, s) = gprs_connect b s in s\<lparr>s_error_flag := e\<rparr> else s)
      in if tried \<and> s_error_flag s = 0 then Inr s
         else if (\<not> s_gprs_init_flag s \<or> \<not> s_gprs_net_flag s \<or> \<not> s_gprs_connect_flag s) \<and> s_error_flag s \<noteq> 0
              then Inl (err_process b (s_error_flag s) s)
              else Inl s)"

fun init_turns :: "'w board \<Rightarrow> nat \<Rightarrow> ('w, 'z) gprs_scheme \<Rightarrow> int \<times> ('w, 'z) gprs_scheme" where
  "init_turns b 0 s = (- 1, s)"
| "init_turns b (Suc time) s = (case init_turn b s of Inr s \<Rightarrow> (0, s) | Inl s \<Rightarrow> init_turns b time s)"

definition GPRS_4G_Init :: "'w board \<Rightarrow> ('w, 'z) gprs_scheme \<Rightarrow> int \<times> ('w, 'z) gprs_scheme" where
  "GPRS_4G_Init b s =
     init_turns b 3 (s\<lparr>s_gprs_init_flag := False, s_gprs_net_flag := False, s_gprs_connect_flag := False, s_error_flag := 0\<rparr>)"

section \<open>The connection state machine\<close>

text \<open>Talking to the modem does not touch the connection flags or the error counter.\<close>

definition link :: "('w, 'z) gprs_scheme \<Rightarrow> bool \<times> bool \<times> bool \<times> u8" where
  "link s = (s_gprs_init_flag s, s_gprs_net_flag s, s_gprs_connect_flag s, s_error_cnt s)"

named_theorems link_frame

lemma link_IRQ [link_frame]: "link (USART2_IRQHandler bs s) = link s"
  by (simp add: link_def USART2_IRQHandler_def Let_def)

lemma link_world [link_frame]: "link (world_update f s) = link s"
  by (simp add: link_def)

lemma link_stat [link_frame]: "link (g_usart2_receive_stat_update f s) = link s"
  by (simp add: link_def)

lemma link_buf [link_frame]: "link (DMA_usart2_Buf_update f s) = link s"
  by (simp add: link_def)

lemma link_flag [link_frame]: "link (s_error_flag_update f s) = link s"
  by (simp add: link_def)

lemma link_delay [link_frame]: "link (delay b s) = link s"
  by (simp add: delay_def Let_def split_beta link_frame split: option.splits)

lemma link_send [link_frame]: "link (gprs_send_string b x s) = link s"
  by (simp add: gprs_send_string_def Usart2_Send_def link_def)

lemma link_wait_ack [link_frame]: "link (snd (wait_ack b ack n s)) = link s"
  by (induction b ack n s rule: wait_ack.induct) (auto simp: Let_def link_frame)

lemma link_send_cmd [link_frame]: "link (snd (gprs_send_cmd b cmd ack t r s)) = link s"
proof (induction r arbitrary: s)
  case (Suc r)
  have "link (snd (wait_ack b ack t (gprs_send_string b cmd s))) = link s"
    by (simp only: link_frame)
  then show ?case using Suc by (simp add: Let_def split_beta)
qed simp

lemma link_sequence [link_frame]: "link (snd (at_sequence b cmds s)) = link s"
proof (induction cmds arbitrary: s)
  case (Cons c cmds)
  obtain cmd ack t r e where c: "c = (cmd, ack, t, r, e)" by (cases c) auto
  show ?case unfolding c using Cons by (simp add: Let_def split_beta link_send_cmd)
qed simp

lemma gprs_init_link:
  "gprs_init b s = (e, s') \<Longrightarrow> link s' = (if e = 0 then (True, snd (link s)) else link s)"
  using link_sequence [of b init_commands s]
  by (auto simp: gprs_init_def Let_def split_beta link_def split: if_splits)

lemma gprs_net_link:
  "gprs_net_config b s = (e, s') \<Longrightarrow> link s' = (if e = 0 then (fst (link s), True, snd (snd (link s))) else link s)"
  using link_sequence [of b net_commands s]
  by (auto simp: gprs_net_config_def Let_def split_beta link_def split: if_splits)

lemma gprs_connect_link:
  assumes "gprs_connect b s = (e, s')"
  shows "link s' = (if e = 0 then (fst (link s), fst (snd (link s)), True, snd (snd (snd (link s)))) else link s)"
proof -
  define r where "r = at_sequence b connect_commands (delay b s)"
  have l: "link (snd r) = link s" by (simp only: r_def link_frame)
  define u where "u = (delay b (snd r))\<lparr>s_gprs_connect_flag := True\<rparr>"
  have "link (delay b u) = link u" and "link (delay b (snd r)) = link s" by (simp_all only: link_frame l)
  then have "link (delay b u) = (fst (link s), fst (snd (link s)), True, snd (snd (snd (link s))))"
    by (simp add: u_def link_def)
  then show ?thesis using assms l
    by (auto simp: gprs_connect_def Let_def split_beta r_def [symmetric] u_def [symmetric] split: if_splits)
qed

lemma GPRS_Reset_link [link_frame]: "link (GPRS_Reset b s) = link s"
  by (simp add: GPRS_Reset_def Let_def link_frame)

lemma err_process_link:
  "link (err_process b e s) =
     (False, False, False, (let n = (if e = 1 then 5 else s_error_cnt s + 1) in if n \<ge> 3 then 0 else n))"
  unfolding err_process_def Let_def by (auto simp: link_frame) (simp_all add: link_def)

lemma init_turn_link:
  assumes "link s = (False, False, False, n)"
  shows "(\<exists>s'. init_turn b s = Inr s' \<and> link s' = (True, True, True, n)) \<or>
    (\<exists>s' (e::u8). init_turn b s = Inl s' \<and> e \<noteq> 0 \<and>
       link s' = (False, False, False, (let k = (if e = 1 then 5 else n + 1) in if k \<ge> 3 then 0 else k)))"
proof -
  have s: "\<not> s_gprs_init_flag s" "\<not> s_gprs_net_flag s" "\<not> s_gprs_connect_flag s" "s_error_cnt s = n"
    using assms by (simp_all add: link_def)
  obtain e1 s1 where 1: "gprs_init b s = (e1, s1)" by fastforce
  define t1 where "t1 = s1\<lparr>s_error_flag := e1\<rparr>"
  have l1: "link t1 = (if e1 = 0 then (True, False, False, n) else (False, False, False, n))"
    unfolding t1_def link_flag using gprs_init_link [OF 1] assms by simp
  show ?thesis
  proof (cases "e1 = 0")
    case False
    have "init_turn b s = Inl (err_process b e1 t1)"
      using False s l1 by (simp add: init_turn_def 1 t1_def link_def)
    moreover have "s_error_cnt t1 = n" using l1 by (simp add: link_def split: if_splits)
    ultimately show ?thesis using False err_process_link [of b e1 t1]
      by (intro disjI2 exI [of _ "err_process b e1 t1"] exI [of _ e1]) simp
  next
    case True
    obtain e2 s2 where 2: "gprs_net_config b t1 = (e2, s2)" by fastforce
    define t2 where "t2 = s2\<lparr>s_error_flag := e2\<rparr>"
    have l2: "link t2 = (if e2 = 0 then (True, True, False, n) else (True, False, False, n))"
      unfolding t2_def link_flag using gprs_net_link [OF 2] l1 True by simp
    show ?thesis
    proof (cases "e2 = 0")
      case False
      have "init_turn b s = Inl (err_process b e2 t2)"
        using False s l1 l2 2 True by (simp add: init_turn_def 1 t1_def t2_def link_def)
      moreover have "s_error_cnt t2 = n" using l2 by (simp add: link_def split: if_splits)
    ultimately show ?thesis using False err_process_link [of b e2 t2]
      by (intro disjI2 exI [of _ "err_process b e2 t2"] exI [of _ e2]) simp
    next
      case e2: True
      obtain e3 s3 where 3: "gprs_connect b t2 = (e3, s3)" by fastforce
      define t3 where "t3 = s3\<lparr>s_error_flag := e3\<rparr>"
      have l3: "link t3 = (if e3 = 0 then (True, True, True, n) else (True, True, False, n))"
        unfolding t3_def link_flag using gprs_connect_link [OF 3] l2 e2 by simp
      have turn: "init_turn b s = (if e3 = 0 then Inr t3 else Inl (err_process b e3 t3))"
        using s l1 l2 l3 2 3 True e2
        by (cases "e3 = 0") (simp_all add: init_turn_def 1 t1_def t2_def t3_def link_def Let_def)
      have "s_error_cnt t3 = n" using l3 by (simp add: link_def split: if_splits)
      then show ?thesis
      proof (cases "e3 = 0")
        case False
        then show ?thesis using turn \<open>s_error_cnt t3 = n\<close> err_process_link [of b e3 t3]
          by (intro disjI2 exI [of _ "err_process b e3 t3"] exI [of _ e3]) simp
      qed (use turn l3 in simp)
    qed
  qed
qed

lemma init_turns_link:
  "\<lbrakk>link s = (False, False, False, n); n < 3\<rbrakk> \<Longrightarrow>
   \<exists>r s'. init_turns b k s = (r, s') \<and> s_error_cnt s' < 3 \<and>
     (r = 0 \<and> s_gprs_init_flag s' \<and> s_gprs_net_flag s' \<and> s_gprs_connect_flag s' \<or>
      r = - 1 \<and> \<not> s_gprs_init_flag s' \<and> \<not> s_gprs_net_flag s' \<and> \<not> s_gprs_connect_flag s')"
proof (induction k arbitrary: s n)
  case 0
  then show ?case by (simp add: link_def)
next
  case (Suc k)
  consider s' where "init_turn b s = Inr s'" "link s' = (True, True, True, n)"
    | s' m where "init_turn b s = Inl s'" "link s' = (False, False, False, m)" "m < 3"
    using init_turn_link [OF Suc.prems(1), of b] Suc.prems(2) by (auto simp: Let_def split: if_splits)
  then show ?case
  proof cases
    case 1
    then show ?thesis using Suc.prems(2) by (simp add: link_def)
  next
    case 2
    then show ?thesis using Suc.IH [OF 2(2,3)] by simp
  qed
qed

end
