(* ===== verification/Gprs_Data.thy ===== *)
theory Gprs_Data
  imports Gprs
begin

text \<open>
  What travels over the modem connection of 4G/4g.c: sending a block of data, the frames that
  carry a picture to the server, the check of the answer, and the parser of a received
  \<open>RECV FROM\<close> block; the short message and GPS commands of 4G/short_letter.c.
\<close>

section \<open>Sending\<close>

definition gprs_send_string_len :: "'w board \<Rightarrow> u8 list \<Rightarrow> nat \<Rightarrow> ('w, 'z) gprs_scheme \<Rightarrow> (int \<times> ('w, 'z) gprs_scheme) option" where
  "gprs_send_string_len b send_data len s = do {
     let cmd = bytes ''AT+CIPSEND=0,'' @ decimal len @ crlf;
     let (failed, s) = gprs_send_cmd b cmd (bytes ''>'') 400 1 s;
     let s = s\<lparr>send_atcipsend_erro_count := (if failed then send_atcipsend_erro_count s + 1 else 0)\<rparr>;
     if send_atcipsend_erro_count s = 5 then Some (- 1, s)
     else do {
       let s = delay b s;
       out \<leftarrow> slice send_data 0 len;
       let s = Usart2_Send b out s;
       let s = delay b s;
       let offset = 16;
       resend \<leftarrow> (if strstr (DMA_usart2_Buf s) (bytes ''OK'') = None
                  then map_option (\<lambda>x. x = 0x02) (rd send_data offset) else Some False);
       if resend then do {
         let (_, s) = gprs_send_cmd b cmd (bytes ''+CIPSEND:'') 400 1 s;
         Some (0, Usart2_Send b out s)
       } else Some (0, s)
     }
   }"

section \<open>Picture frames\<close>

definition MAX_CONTENT_LEN :: nat where "MAX_CONTENT_LEN = 1000"
definition TRANS_CONTENT_LEN :: nat where "TRANS_CONTENT_LEN = 900"

text \<open>The bytes of the structure before \<open>total_pkts_and_cur_sn\<close>, and from it to the end of the union.\<close>

definition up_header_bytes :: "up_frame_t \<Rightarrow> u8 list" where
  "up_header_bytes f = le16 (u_start_id f) @ [u_center_addr f] @ u_remote_addr f @ le16 (u_password f) @
     [u_fun_id f] @ le16 (u_frame_id_len f) @ [u_content_start_id f]"

definition up_content_bytes :: "up_frame_t \<Rightarrow> u8 list" where
  "up_content_bytes f = total_pkts_and_cur_sn f @ picture f"

definition up_frame_wf :: "up_frame_t \<Rightarrow> bool" where
  "up_frame_wf f \<longleftrightarrow> length (u_remote_addr f) = 5 \<and> length (total_pkts_and_cur_sn f) = 3 \<and> length (picture f) = 925"

text \<open>The bytes \<open>wp_send_data\<close> puts in its buffer; the checksum goes high byte first.\<close>

definition wp_bytes :: "up_frame_t \<Rightarrow> nat \<Rightarrow> (u8 list \<times> u16) option" where
  "wp_bytes f len = do {
     content \<leftarrow> slice (up_content_bytes f) 0 len;
     let buf = up_header_bytes f @ content @ [u_content_end_id f];
     crc \<leftarrow> CRC16_MODBUS buf (length buf);
     let buf = buf @ [ucast (drop_bit 8 (crc AND 0xff00)), ucast (crc AND 0xff)];
     if length buf \<le> MAX_CONTENT_LEN then Some (buf, crc) else None
   }"

definition wp_send_data :: "'w board \<Rightarrow> nat \<Rightarrow> ('w, 'z) gprs_scheme \<Rightarrow> (int \<times> ('w, 'z) gprs_scheme) option" where
  "wp_send_data b len s = do {
     (buf, crc) \<leftarrow> wp_bytes (frame s) len;
     let s = s\<lparr>frame := (frame s)\<lparr>u_crc := crc\<rparr>\<rparr>;
     (r, s) \<leftarrow> gprs_send_string_len b buf (length buf) s;
     Some (if r \<noteq> 0 then - 1 else 0, s)
   }"

definition FrameConstantInit :: "'w board \<Rightarrow> ('w, 'z) gprs_scheme \<Rightarrow> ('w, 'z) gprs_scheme" where
  "FrameConstantInit b s =
     (let (rtu_parameters, s) = RTU_parameters_Readdata b s
      in s\<lparr>frame := (frame s)\<lparr>u_start_id := 0x7E7E, u_center_addr := 0x01,
           u_remote_addr := rtu_remote_addr rtu_parameters, u_password := 0x0000, u_fun_id := 0x36,
           u_content_start_id := 0x16\<rparr>\<rparr>)"

definition OpenAndGetPictureSize :: "'w board \<Rightarrow> ('w, 'z) gprs_scheme \<Rightarrow> (int \<times> int \<times> ('w, 'z) gprs_scheme)" where
  "OpenAndGetPictureSize b s =
     (case f_open b (world s) of
        None \<Rightarrow> (- 1, 0, s)
      | Some f_size \<Rightarrow>
          let s = s\<lparr>pic_size := int f_size\<rparr>;
              total_pkts = f_size div TRANS_CONTENT_LEN + 1;
              t = (of_nat total_pkts :: u32);
              s = s\<lparr>frame := (frame s)\<lparr>total_pkts_and_cur_sn :=
                    [ucast (drop_bit 4 t), push_bit 4 (ucast t AND 0xf), 0x01]\<rparr>\<rparr>
          in (0, int total_pkts, s))"

text \<open>The first part of a new picture: the head of \<open>pic_info\<close>, then the data at offset 25.\<close>

definition pic_info_head :: "u16 \<Rightarrow> u8 list \<Rightarrow> Time_Def \<Rightarrow> u8 list" where
  "pic_info_head sn remote_addr t = le16 sn @ [0x19, 0x07, 0x02, 0x10, 0x18, 0x38] @ le16 0xf1f1 @ remote_addr @ [0x48] @
     le16 0xF0F0 @ [t_year t, t_month t, t_day t, t_hour t, t_minute t] @ le16 0xF3F3"

definition UpdateFrameContentData ::
    "'w board \<Rightarrow> u8 list \<Rightarrow> nat \<Rightarrow> bool \<Rightarrow> ('w, 'z) gprs_scheme \<Rightarrow> (int \<times> nat \<times> ('w, 'z) gprs_scheme) option" where
  "UpdateFrameContentData b buf len open_new_picture_flag s = do {
     let (par, s) = RTU_parameters_Readdata b s;
     let s = (if open_new_picture_flag then s\<lparr>cur_sn := 1\<rparr> else s);
     let s = s\<lparr>pic_size := pic_size s - int len\<rparr>;
     let first = (cur_sn s AND 0xfff = 0x1);
     data \<leftarrow> slice buf 0 len;
     s \<leftarrow> (if first then do {
            let (_, t, w) = RTC_ReadDate b (s_sysTime s) (world s);
            let s = s\<lparr>s_sysTime := t, world := w\<rparr>;
            let sn = of_le16 (picture (frame s) ! 0) (picture (frame s) ! 1) + 1;
            pic \<leftarrow> blit (picture (frame s)) 0 (pic_info_head (swap16 sn) (rtu_remote_addr par) t);
            pic \<leftarrow> blit pic 25 data;
            Some (s\<lparr>frame := (frame s)\<lparr>picture := pic\<rparr>\<rparr>)
          } else do {
            pic \<leftarrow> blit (picture (frame s)) 0 data;
            Some (s\<lparr>frame := (frame s)\<lparr>picture := pic\<rparr>\<rparr>)
          });
     let end_id = (if pic_size s \<le> 0 then 0x03 else 0x17);
     let len = len + 3;
     let len = (if first then len + 25 else len);
     let l = (of_nat len :: u32);
     let p = total_pkts_and_cur_sn (frame s);
     let p = p[2 := ucast (cur_sn s AND 0xFF)];
     let p = p[1 := p ! 1 AND NOT 0xF];
     let p = p[1 := p ! 1 OR ucast (drop_bit 8 (cur_sn s) AND 0xF)];
     let s = s\<lparr>frame := (frame s)\<lparr>u_content_end_id := end_id,
        u_frame_id_len := ucast (push_bit 8 (l AND 0xff) OR (drop_bit 8 l AND 0xff)), total_pkts_and_cur_sn := p\<rparr>\<rparr>;
     let s = s\<lparr>cur_sn := cur_sn s + 1\<rparr>;
     Some (uint (cur_sn s) - 1, len, s)
   }"

section \<open>The answer\<close>

definition check_frame :: "u8 list \<Rightarrow> nat \<Rightarrow> bool option" where
  "check_frame buf off = do {
     down_frame \<leftarrow> slice buf off 28;
     calculate_crc \<leftarrow> CRC16_MODBUS down_frame 26;
     Some (of_le16 (down_frame ! 26) (down_frame ! 27) = swap16 calculate_crc)
   }"

fun CheckReceive_loop :: "'w board \<Rightarrow> nat \<Rightarrow> ('w, 'z) gprs_scheme \<Rightarrow> (int \<times> ('w, 'z) gprs_scheme) option" where
  "CheckReceive_loop b 0 s = Some (- 1, s)"
| "CheckReceive_loop b (Suc i) s =
     (let s = delay b s
      in if g_usart2_receive_stat s then do {
           let s = s\<lparr>g_usart2_receive_stat := False\<rparr>;
           buf \<leftarrow> wr (DMA_usart2_Buf s) (g_usart2_receive_cnt s) 0;
           let s = s\<lparr>DMA_usart2_Buf := buf\<rparr>;
           (case strstr buf [0x7E, 0x7E] of
              None \<Rightarrow> Some (- 1, s)
            | Some off \<Rightarrow> do { ok \<leftarrow> check_frame buf off; Some (if ok then 0 else - 1, s) })
         }
         else CheckReceive_loop b i s)"

definition CheckReceive :: "'w board \<Rightarrow> ('w, 'z) gprs_scheme \<Rightarrow> (int \<times> ('w, 'z) gprs_scheme) option" where
  "CheckReceive b s = CheckReceive_loop b 3 s"

text \<open>The loop ends when the file is read to its end, or at the first error.\<close>

partial_function (option) SendPicture_loop ::
    "'w board \<Rightarrow> bool \<Rightarrow> ('w, 'z) gprs_scheme \<Rightarrow> (int \<times> ('w, 'z) gprs_scheme) option" where
  "SendPicture_loop b open_new_picture_flag s =
     (case f_read b TRANS_CONTENT_LEN (world s) of
        (None, w) \<Rightarrow> Some (- 1, s\<lparr>world := w\<rparr>)
      | (Some [], w) \<Rightarrow> Some (0, s\<lparr>world := w\<rparr>)
      | (Some (x # xs), w) \<Rightarrow>
          let s = s\<lparr>world := w\<rparr>; br = length (x # xs);
              buf = (x # xs) @ replicate (MAX_CONTENT_LEN - br) 0
          in Option.bind (UpdateFrameContentData b buf br open_new_picture_flag s) (\<lambda>(_, br, s).
             Option.bind (wp_send_data b br s) (\<lambda>(r, s).
               if r \<noteq> 0 then Some (- 1, s)
               else Option.bind (CheckReceive b (delay b s)) (\<lambda>(c, s).
                 let s = (if c \<noteq> 0 then s\<lparr>g_single_retransmit_count := g_single_retransmit_count s + 1\<rparr> else s)
                 in SendPicture_loop b False s))))"

definition SendPictureToServer :: "'w board \<Rightarrow> ('w, 'z) gprs_scheme \<Rightarrow> (int \<times> ('w, 'z) gprs_scheme) option" where
  "SendPictureToServer b s =
     (let s = FrameConstantInit b s; (r, _, s) = OpenAndGetPictureSize b s
      in if r \<noteq> 0 then Some (- 1, s) else SendPicture_loop b True s)"

section \<open>Received data\<close>

text \<open>
  \<open>strtok\<close> on a buffer from a position: the token's place (\<open>None\<close> when there is none), the buffer
  with the delimiter overwritten, and where the next call starts.
\<close>

definition strtok :: "u8 list \<Rightarrow> u8 list \<Rightarrow> nat \<Rightarrow> (nat option \<times> u8 list \<times> nat) option" where
  "strtok delims buf i = do {
     let i = i + length (takeWhile (\<lambda>x. x \<in> set delims) (drop i buf));
     x \<leftarrow> rd buf i;
     if x = 0 then Some (None, buf, i)
     else do {
       let j = i + length (takeWhile (\<lambda>x. x \<noteq> 0 \<and> x \<notin> set delims) (drop i buf));
       y \<leftarrow> rd buf j;
       if y = 0 then Some (Some i, buf, j) else Some (Some i, buf[j := 0], j + 1)
     }
   }"

definition GetIntData_FromString :: "u8 list \<Rightarrow> nat option" where
  "GetIntData_FromString buff =
     (let digits = filter (\<lambda>x. 0x30 \<le> x \<and> x \<le> 0x39) (c_str buff)
      in if length digits < 5 then Some (fold (\<lambda>d n. n * 10 + unat (d - 0x30)) digits 0) else None)"

definition Analysis_Data_FromGPRS ::
    "u8 list \<Rightarrow> u8 list \<Rightarrow> u8 list \<Rightarrow> u8 list \<Rightarrow> (nat \<times> u8 list \<times> u8 list \<times> u8 list \<times> u8 list) option" where
  "Analysis_Data_FromGPRS src_buff ip_information port recv_data =
     (if strstr src_buff (bytes ''RECV FROM'') = None then Some (0, src_buff, ip_information, port, recv_data)
      else do {
        (_, buf, i) \<leftarrow> strtok [0x3A] src_buff 0;
        (t, buf, i) \<leftarrow> strtok [0x3A] buf i;
        k \<leftarrow> t;
        ip_information \<leftarrow> blit ip_information 0 (c_str (drop k buf) @ [0]);
        (t, buf, i) \<leftarrow> strtok crlf buf i;
        k \<leftarrow> t;
        port \<leftarrow> blit port 0 (c_str (drop k buf) @ [0]);
        (t, buf, i) \<leftarrow> strtok crlf buf i;
        k \<leftarrow> t;
        data_length \<leftarrow> GetIntData_FromString (drop k buf);
        (t, buf, i) \<leftarrow> strtok crlf buf i;
        k \<leftarrow> t;
        data \<leftarrow> slice buf k data_length;
        recv_data \<leftarrow> blit recv_data 0 data;
        Some (data_length, buf, ip_information, port, recv_data)
      })"

section \<open>Short messages and position\<close>

definition GetTeleCmd :: "u8 list \<Rightarrow> u8 list option" where
  "GetTeleCmd tele_number =
     (let buff = bytes ''AT+CMGS='' @ [0x22] @ c_str tele_number @ [0x22] @ crlf
      in if length buff < 30 then Some buff else None)"

definition short_letter_setup :: "'w board \<Rightarrow> ('w, 'z) gprs_scheme \<Rightarrow> bool \<times> ('w, 'z) gprs_scheme" where
  "short_letter_setup b s =
     (let ask = (\<lambda>cmd ack s. gprs_send_cmd b (bytes cmd @ crlf) (bytes ack) 200 1 s);
          (f, s) = ask ''AT+CPMS?'' ''OK'' s
      in if f then (True, s)
         else let (f, s) = ask ''AT+CMGF=1'' ''OK'' s
         in if f then (True, s)
         else let (f, s) = ask ''AT+CSMP?'' ''+CSMP:17,11,0,0'' s; (f, s) = (if f then ask ''AT+CSMP=17,11,0,0'' ''OK'' s else (False, s))
         in if f then (True, s)
         else let (f, s) = ask ''AT+CSCS?'' ''+CSCS:\"IRA\"'' s; (f, s) = (if f then ask ''AT+CSCS=\"IRA\"'' ''OK'' s else (False, s))
         in (f, s))"

definition Send_short_letter :: "'w board \<Rightarrow> u8 list \<Rightarrow> u8 list \<Rightarrow> nat \<Rightarrow> ('w, 'z) gprs_scheme \<Rightarrow> (int \<times> ('w, 'z) gprs_scheme) option" where
  "Send_short_letter b tele_number buff len s = do {
     tele_cmd \<leftarrow> GetTeleCmd tele_number;
     let (f, s) = short_letter_setup b s;
     if f then Some (- 1, s)
     else do {
       let (f, s) = gprs_send_cmd b tele_cmd (bytes ''>'') 400 1 s;
       if f then Some (- 1, s)
       else do {
         out \<leftarrow> slice buff 0 len;
         let s = Usart2_Send b out s;
         Some (0, gprs_send_string b [0x1A] s)
       }
     }
   }"

section \<open>Position\<close>

text \<open>\<open>while (time--)\<close>: true when the modem came up.\<close>

fun gps_start :: "'w board \<Rightarrow> nat \<Rightarrow> ('w, 'z) gprs_scheme \<Rightarrow> bool \<times> ('w, 'z) gprs_scheme" where
  "gps_start b 0 s = (False, s)"
| "gps_start b (Suc time) s =
     (let (e, s) = gprs_init b s in if e = 0 then (True, s) else gps_start b time (delay b (GPRS_Reset b s)))"

text \<open>The first of two answers is kept; a modem that says nothing keeps the loop going.\<close>

partial_function (option) gps_answer ::
    "'w board \<Rightarrow> nat \<Rightarrow> u8 list \<Rightarrow> nat \<Rightarrow> ('w, 'z) gprs_scheme \<Rightarrow> (u8 list \<times> nat \<times> ('w, 'z) gprs_scheme) option" where
  "gps_answer b time buff len s =
     (if g_usart2_receive_stat s then
        let s = s\<lparr>g_usart2_receive_stat := False\<rparr>
        in Option.bind (if time = 0 then Option.bind (slice (DMA_usart2_Buf s) 0 (g_usart2_receive_cnt s)) (\<lambda>x.
               map_option (\<lambda>buff. (buff, g_usart2_receive_cnt s)) (blit buff 0 x)) else Some (buff, len))
             (\<lambda>(buff, len). if time = 1 then Some (buff, len, s) else gps_answer b (time + 1) buff len (delay b s))
      else gps_answer b time buff len (delay b s))"

definition GetGPS_Inforation ::
    "'w board \<Rightarrow> u8 list \<Rightarrow> nat \<Rightarrow> ('w, 'z) gprs_scheme \<Rightarrow> (int \<times> u8 list \<times> nat \<times> ('w, 'z) gprs_scheme) option" where
  "GetGPS_Inforation b buff len s =
     (let (up, s) = gps_start b 2 s
      in if \<not> up then Some (- 1, buff, len, s)
         else let (failed, s) = gprs_send_cmd b (bytes ''AT+CGPS=1'' @ crlf) (bytes ''OK'') 200 2 s
         in if failed then Some (- 1, buff, len, s)
         else do {
           (buff, len, s) \<leftarrow> gps_answer b 0 buff len (gprs_send_string b (bytes ''AT+CGPSINFO'' @ crlf) s);
           let (failed, s) = gprs_send_cmd b (bytes ''AT+CGPS=0'' @ crlf) (bytes ''OK'') 200 2 s;
           Some (if failed then - 1 else 0, buff, len, s)
         })"

end
