(* ===== verification/Protocol.thy ===== *)
theory Protocol
  imports Frames Gprs_Data Sensor CRC
begin

text \<open>
  PROTOCOL/protocol.c: the messages the station sends (added report, hourly report, real-time
  data, time period data, parameters, clock) and what it does with the commands it receives.
  Each \<open>..._init\<close> function fills a message from the clock, the parameters in flash and the
  sensors; the messages with their own checksum carry it in the last two bytes.
\<close>

section \<open>Constants\<close>

abbreviation NETWORK_S0H :: u16 where "NETWORK_S0H \<equiv> 0x7E7E"
abbreviation NETWORK_STX :: u8 where "NETWORK_STX \<equiv> 0x02"
abbreviation NETWORK_ETX :: u8 where "NETWORK_ETX \<equiv> 0x03"
abbreviation NETWORK_ACK :: u8 where "NETWORK_ACK \<equiv> 0x06"
abbreviation NETWORK_NAK :: u8 where "NETWORK_NAK \<equiv> 0x15"
abbreviation NETWORK_ETB :: u8 where "NETWORK_ETB \<equiv> 0x17"
abbreviation PLUS_MESSAGE_FUNID :: u8 where "PLUS_MESSAGE_FUNID \<equiv> 0x33"
abbreviation HOUR_MESSAGE_FUNID :: u8 where "HOUR_MESSAGE_FUNID \<equiv> 0x34"
abbreviation QUERY_REALDATA_FUNID :: u8 where "QUERY_REALDATA_FUNID \<equiv> 0x37"
abbreviation QUERY_TIME_PERIOD_FUNID :: u8 where "QUERY_TIME_PERIOD_FUNID \<equiv> 0x38"
abbreviation SET_REAL_TIME :: u8 where "SET_REAL_TIME \<equiv> 0x4A"
abbreviation SET_PARAMETER_FUNID :: u8 where "SET_PARAMETER_FUNID \<equiv> 0x41"
abbreviation QUERY_PARAMETER_FUNID :: u8 where "QUERY_PARAMETER_FUNID \<equiv> 0x40"
abbreviation ENTER_RESPONSE_MODE :: u8 where "ENTER_RESPONSE_MODE \<equiv> 0x01"
abbreviation ENTER_NORMAL_MODE :: u8 where "ENTER_NORMAL_MODE \<equiv> 0x02"
abbreviation FIVE_MIN_PRECIPIT_ID :: u16 where "FIVE_MIN_PRECIPIT_ID \<equiv> 0x2219"
abbreviation CUMULA_PRECIPIT_ID :: u16 where "CUMULA_PRECIPIT_ID \<equiv> 0x2619"
abbreviation WATER_LEVEL_ID :: u16 where "WATER_LEVEL_ID \<equiv> 0x3923"
abbreviation VOLTAGE_ID :: u16 where "VOLTAGE_ID \<equiv> 0x3812"
abbreviation HOUR_FIVE_MIN_PRECIPIT_ID :: u16 where "HOUR_FIVE_MIN_PRECIPIT_ID \<equiv> 0xF460"
abbreviation HOUR_FIVE_WATERLEVEL_ID :: u16 where "HOUR_FIVE_WATERLEVEL_ID \<equiv> 0xF5C0"
abbreviation RAINFALL_TYPE :: u8 where "RAINFALL_TYPE \<equiv> 0"
abbreviation WATERLEVEL_TYPE :: u8 where "WATERLEVEL_TYPE \<equiv> 1"
abbreviation SERIAL_2 :: u8 where "SERIAL_2 \<equiv> 2"
abbreviation RS232_3 :: u8 where "RS232_3 \<equiv> 3"

section \<open>State\<close>

text \<open>
  The global and static variables. \<open>stack_time\<close>, \<open>stack_minute\<close> and \<open>stack_parameters\<close> are what
  the stack holds where the code reads a local variable it has not set: a clock reading that
  failed, the minute of \<open>read_date\<close>, and the base values of \<open>write_parameters\<close>.
\<close>

record 'w proto = "'w gprs" +
  sn :: u16
  g_plus_message :: plus_message_t
  g_hour_message :: hour_message_t
  g_queryrealdata_upmessage :: queryrealdata_upmessage_t
  last_rainfall_pluse_count :: u32
  last_fiveminute_rainfall_data_count :: int
  last_month :: u8
  RS232_3_Recv :: "u8 list"
  RS232_3_Recv_Address :: nat
  stack_time :: Time_Def
  stack_minute :: u8
  stack_parameters :: RTU_operation_parameters_t

definition RS232_3_Send_buf :: "'w board \<Rightarrow> u8 list \<Rightarrow> ('w, 'z) base_scheme \<Rightarrow> ('w, 'z) base_scheme" where
  "RS232_3_Send_buf b buf s = s\<lparr>world := rs232_tx b buf (world s)\<rparr>"

text \<open>A clock reading into a local variable.\<close>

definition read_systime :: "'w board \<Rightarrow> ('w, 'z) proto_scheme \<Rightarrow> Time_Def \<times> ('w, 'z) proto_scheme" where
  "read_systime b s = (let (_, t, w) = RTC_ReadDate b (stack_time s) (world s) in (t, s\<lparr>world := w\<rparr>))"

section \<open>Stored data of a period\<close>

definition timeperiod_date :: "timeperiod_t \<Rightarrow> date_t" where
  "timeperiod_date t = \<lparr>d_year = BCDToInteger (e_year t), d_month = BCDToInteger (e_month t),
     d_day = BCDToInteger (e_day t), d_hour = BCDToInteger (e_hour t), d_minute = 0\<rparr>"

definition GetByteLength ::
    "timeperiod_t \<Rightarrow> timeperiod_t \<Rightarrow> u8 \<Rightarrow> int \<Rightarrow> int \<Rightarrow> u16 list \<Rightarrow> ((int \<times> int \<times> int) \<times> u16 list) option" where
  "GetByteLength start_time end_time data_type address_start address_end md = do {
     (r, md) \<leftarrow> GetAddress (timeperiod_date start_time) data_type md;
     (case r of Inl _ \<Rightarrow> Some ((- 1, address_start, address_end), md)
      | Inr address_start \<Rightarrow> do {
          (r, md) \<leftarrow> GetAddress (timeperiod_date end_time) data_type md;
          (case r of Inl _ \<Rightarrow> Some ((- 1, address_start, address_end), md)
           | Inr address_end \<Rightarrow> Some ((address_end - address_start, address_start, address_end), md))
        })
   }"

definition ReadData_ByTimePeriod ::
    "'w board \<Rightarrow> timeperiod_t \<Rightarrow> timeperiod_t \<Rightarrow> u8 \<Rightarrow> u8 list \<Rightarrow> ('w, 'z) mem_scheme \<Rightarrow> (int \<times> u8 list \<times> ('w, 'z) mem_scheme) option" where
  "ReadData_ByTimePeriod b start_time end_time data_type data s = do {
     ((byte_length, addr_start, addr_end), md) \<leftarrow> GetByteLength start_time end_time data_type 0 0 (s_monthday s);
     let s = s\<lparr>s_monthday := md\<rparr>;
     let (bs, s) = flash_read b (word_of_int addr_start) (word_of_int byte_length) s;
     data \<leftarrow> blit data 0 bs;
     Some (byte_length, data, s)
   }"

definition SaveDayStartRainfall :: "'w board \<Rightarrow> ('w, 'z) base_scheme \<Rightarrow> ('w, 'z) base_scheme option" where
  "SaveDayStartRainfall b s = flash_write b (le32 (g_rainfall_pluse_count s)) RAINFALL_DAY_START_VALUE 4 s"

definition ReadDayStartRainfall :: "'w board \<Rightarrow> ('w, 'z) base_scheme \<Rightarrow> u32 \<times> ('w, 'z) base_scheme" where
  "ReadDayStartRainfall b s =
     (let (bs, s) = flash_read b RAINFALL_DAY_START_VALUE 4 s in (of_le32 (bs ! 0) (bs ! 1) (bs ! 2) (bs ! 3), s))"

section \<open>Fields\<close>

definition password_field :: "RTU_operation_parameters_t \<Rightarrow> u16" where
  "password_field rtu_parameters =
     (push_bit 8 (ucast (password rtu_parameters ! 0)) AND 0xff00) OR (ucast (password rtu_parameters ! 1) AND 0x00ff)"

definition pkt_time_at :: "Time_Def \<Rightarrow> pkt_time_data_t" where
  "pkt_time_at systime = \<lparr>p_year = t_year systime, p_month = t_month systime, p_day = t_day systime,
     p_hour = t_hour systime, p_minute = t_minute systime, p_second = t_second systime\<rparr>"

definition observ_time_at :: "Time_Def \<Rightarrow> observ_time_t" where
  "observ_time_at systime = \<lparr>o_id = 0xF0F0, o_year = t_year systime, o_month = t_month systime, o_day = t_day systime,
     o_hour = t_hour systime, o_minute = t_minute systime\<rparr>"

text \<open>\<open>(float)reading / 100.0\<close> of the water level, and a signed pulse count times 0.5.\<close>

definition waterlevel_raw :: "int \<Rightarrow> rat" where
  "waterlevel_raw reading = f32 (f64 (f32 (of_int reading) / 100))"

definition pulses_float :: "int \<Rightarrow> rat" where
  "pulses_float n = f32 (f64 (of_int n / 2))"

definition sub32 :: "int \<Rightarrow> int \<Rightarrow> int option" where
  "sub32 x y = (if - (2 ^ 31) \<le> x - y \<and> x - y < 2 ^ 31 then Some (x - y) else None)"

section \<open>Real-time data\<close>

definition QueryRealData_Init :: "'w board \<Rightarrow> ('w, 'z) proto_scheme \<Rightarrow> ('w, 'z) proto_scheme option" where
  "QueryRealData_Init b s = do {
     let (rtu_parameters, s) = RTU_parameters_Readdata b s;
     let (systime, s) = read_systime b s;
     let current_rainfall = g_rainfall_pluse_count s - last_rainfall_pluse_count s;
     current_rainfall_store \<leftarrow> GetBCDSendata FIVE_MIN_PRECIPIT_ID (rainfall_float current_rainfall);
     cumulate_rainfall_store \<leftarrow> GetBCDSendata CUMULA_PRECIPIT_ID (rainfall_float (g_rainfall_pluse_count s));
     let (w, reading) = GetWaterLevelData b (world s);
     let s = s\<lparr>world := w\<rparr>;
     water_level_store \<leftarrow> GetBCDSendata WATER_LEVEL_ID (waterlevel_raw (uint reading));
     let m = \<lparr>
       m_header = \<lparr>h_start_id = NETWORK_S0H, h_center_addr = center_addr rtu_parameters ! 0,
         h_remote_addr = rtu_remote_addr rtu_parameters, h_password = password_field rtu_parameters,
         h_fun_id = QUERY_REALDATA_FUNID, h_frame_id_len = swap16 43, h_content_start_id = NETWORK_ETX\<rparr>,
       m_content = \<lparr>c_sn = swap16 (sn s), c_pkt_time = pkt_time_at systime, c_remote_addr_id = 0xF1F1,
         c_remote_addr = rtu_remote_addr rtu_parameters, c_class_id = 0x48, c_observ_time = observ_time_at systime,
         precipit_id = swap16 FIVE_MIN_PRECIPIT_ID, precipit_data = store3 current_rainfall_store,
         rd_cumula_precipit_id = swap16 CUMULA_PRECIPIT_ID, rd_cumula_precipit_data = store3 cumulate_rainfall_store,
         rd_water_level_id = swap16 WATER_LEVEL_ID, rd_water_level_data = store4 water_level_store,
         rd_voltage_id = swap16 VOLTAGE_ID, rd_voltage_data = [0x12, 0x00]\<rparr>,
       m_content_end_id = NETWORK_ETX, m_crc = m_crc (g_queryrealdata_upmessage s)\<rparr>;
     c \<leftarrow> CRC16_MODBUS (queryrealdata_bytes m) 58;
     Some (s\<lparr>g_queryrealdata_upmessage := m\<lparr>m_crc := c\<rparr>,
             last_rainfall_pluse_count := g_rainfall_pluse_count s, sn := sn s + 1\<rparr>)
   }"

section \<open>Added report\<close>

definition plus_message_init :: "'w board \<Rightarrow> ('w, 'z) proto_scheme \<Rightarrow> ('w, 'z) proto_scheme option" where
  "plus_message_init b s = do {
     let (rtu_parameters, s) = RTU_parameters_Readdata b s;
     waterlevel_basic_value \<leftarrow> BCDSendataToFloat 0x23 (waterlevel_basevalue_1 rtu_parameters);
     let (systime, s) = read_systime b s;
     let real_rainfall_data_count = sint (g_rainfall_pluse_count s);
     increase \<leftarrow> sub32 real_rainfall_data_count (last_fiveminute_rainfall_data_count s);
     let s = s\<lparr>last_fiveminute_rainfall_data_count := real_rainfall_data_count\<rparr>;
     fiveminute_rainfall_store_data \<leftarrow> FloatoHex 6 1 (pulses_float increase);
     let (w, reading) = GetWaterLevelData b (world s);
     let s = s\<lparr>world := w\<rparr>;
     real_waterlevel_store_data \<leftarrow> FloatoHex 8 3 (f32 (waterlevel_raw (sint reading) + waterlevel_basic_value));
     cumcumula_rainfall_store_data \<leftarrow> FloatoHex 6 1 (pulses_float real_rainfall_data_count);
     let m = \<lparr>
       m_header = \<lparr>h_start_id = NETWORK_S0H, h_center_addr = center_addr rtu_parameters ! 0,
         h_remote_addr = rtu_remote_addr rtu_parameters, h_password = password_field rtu_parameters,
         h_fun_id = PLUS_MESSAGE_FUNID, h_frame_id_len = swap16 43, h_content_start_id = NETWORK_STX\<rparr>,
       m_content = \<lparr>c_sn = swap16 (sn s), c_pkt_time = pkt_time_at systime, c_remote_addr_id = 0xF1F1,
         c_remote_addr = rtu_remote_addr rtu_parameters, c_class_id = 0x48, c_observ_time = observ_time_at systime,
         five_min_precipit_id = swap16 FIVE_MIN_PRECIPIT_ID, five_min_precipit_data = store3 fiveminute_rainfall_store_data,
         water_level_id = swap16 WATER_LEVEL_ID, water_level_data = store4 real_waterlevel_store_data,
         cumula_precipit_id = swap16 CUMULA_PRECIPIT_ID, cumula_precipit_data = store3 cumcumula_rainfall_store_data,
         voltage_id = swap16 VOLTAGE_ID, voltage_data = [0x12, 0x00]\<rparr>,
       m_content_end_id = NETWORK_ETX, m_crc = m_crc (g_plus_message s)\<rparr>;
     c \<leftarrow> CRC16_MODBUS (plus_message_bytes m) 58;
     Some (s\<lparr>g_plus_message := m\<lparr>m_crc := c\<rparr>, sn := sn s + 1\<rparr>)
   }"

section \<open>Hourly report\<close>

definition HourWaterLevelSaveData_To_Value ::
    "'w board \<Rightarrow> u8 list \<Rightarrow> ('w, 'z) mem_scheme \<Rightarrow> (u16 list \<times> ('w, 'z) mem_scheme) option" where
  "HourWaterLevelSaveData_To_Value b src_buff s = do {
     let (rtu_parameters, s) = RTU_parameters_Readdata b s;
     waterlevel_basic_value \<leftarrow> BCDSendataToFloat 0x23 (waterlevel_basevalue_1 rtu_parameters);
     des_buff \<leftarrow> those (map (HourWaterLevelEntry waterlevel_basic_value src_buff) [0..<12]);
     Some (des_buff, s)
   }"

text \<open>The start of the hour before \<open>systime\<close>, with the table of month lengths and the last month.\<close>

definition previous_hour :: "Time_Def \<Rightarrow> u8 \<Rightarrow> u8 \<Rightarrow> u8 list \<Rightarrow> date_t option" where
  "previous_hour systime minute recorded_month months_days = do {
     let read_date = \<lparr>d_year = BCDToInteger (t_year systime), d_month = BCDToInteger (t_month systime),
       d_day = BCDToInteger (t_day systime), d_hour = BCDToInteger (t_hour systime), d_minute = minute\<rparr>;
     let midnight = (d_hour read_date = 0 \<and> d_minute read_date = 0);
     read_date \<leftarrow> (if d_month read_date = recorded_month then
         Some (if midnight then read_date\<lparr>d_day := d_day read_date - 1, d_hour := 24\<rparr> else read_date)
       else if midnight then do {
         let month = d_month read_date - 1;
         day \<leftarrow> (if month = 0 then None else rd months_days (unat month - 1));
         Some (read_date\<lparr>d_month := month, d_day := day, d_hour := 24\<rparr>)
       }
       else Some read_date);
     Some (read_date\<lparr>d_minute := 0, d_hour := d_hour read_date - 1\<rparr>)
   }"

definition hour_message_init :: "'w board \<Rightarrow> ('w, 'z) proto_scheme \<Rightarrow> ('w, 'z) proto_scheme option" where
  "hour_message_init b s = do {
     let (rtu_parameters, s) = RTU_parameters_Readdata b s;
     let (systime, s) = read_systime b s;
     let (months_days, md) = GetMonthDays (t_year systime) (s_monthday s);
     let s = s\<lparr>s_monthday := md\<rparr>;
     read_date \<leftarrow> previous_hour systime (stack_minute s) (last_month s) months_days;
     let s = s\<lparr>last_month := BCDToInteger (t_month systime)\<rparr>;
     (_, flash_rainfall_hour_data, s) \<leftarrow> ReadDataFromFlash b read_date RAINFALL_TYPE (replicate 39 0) 39 s;
     f4_rainfall_data \<leftarrow> HourRainFallSaveData_To_FiveMinuteRelativeValue flash_rainfall_hour_data;
     cumcumula_rainfall_store_data \<leftarrow> FloatoHex 6 1 (rainfall_float (g_rainfall_pluse_count s));
     (_, flash_waterlevel_hour_data, s) \<leftarrow> ReadDataFromFlash b read_date WATERLEVEL_TYPE (replicate 52 0) 52 s;
     (f5_waterlevel_data, s) \<leftarrow> HourWaterLevelSaveData_To_Value b flash_waterlevel_hour_data s;
     let (w, reading) = GetWaterLevelData b (world s);
     let s = s\<lparr>world := w\<rparr>;
     real_waterlevel_store_data \<leftarrow> FloatoHex 8 3 (waterlevel_raw (sint reading));
     let m = \<lparr>
       m_header = \<lparr>h_start_id = NETWORK_S0H, h_center_addr = center_addr rtu_parameters ! 0,
         h_remote_addr = rtu_remote_addr rtu_parameters, h_password = password_field rtu_parameters,
         h_fun_id = HOUR_MESSAGE_FUNID, h_frame_id_len = swap16 76, h_content_start_id = NETWORK_STX\<rparr>,
       m_content = \<lparr>c_sn = swap16 (sn s), c_pkt_time = pkt_time_at systime, c_remote_addr_id = 0xF1F1,
         c_remote_addr = c_remote_addr (m_content (g_hour_message s)), c_class_id = 0x48,
         c_observ_time = observ_time_at systime,
         hour_five_precipit_id = swap16 HOUR_FIVE_MIN_PRECIPIT_ID, hour_five_prcipit_data = f4_rainfall_data,
         hm_cumula_precipit_id = swap16 CUMULA_PRECIPIT_ID, hm_cumula_precipit_data = store3 cumcumula_rainfall_store_data,
         hour_five_waterlevel_id = swap16 HOUR_FIVE_WATERLEVEL_ID, hour_five_waterlevel_data = f5_waterlevel_data,
         hm_water_level_id = swap16 WATER_LEVEL_ID, hm_water_level_data = store4 real_waterlevel_store_data,
         hm_voltage_id = swap16 VOLTAGE_ID, hm_voltage_data = [0x12, 0x00]\<rparr>,
       m_content_end_id = NETWORK_ETX, m_crc = m_crc (g_hour_message s)\<rparr>;
     c \<leftarrow> CRC16_MODBUS (hour_message_bytes m) 91;
     Some (s\<lparr>g_hour_message := m\<lparr>m_crc := c\<rparr>\<rparr>)
   }"

end
