(* ===== verification/Commands.thy ===== *)
theory Commands
  imports Protocol
begin

text \<open>
  The second half of PROTOCOL/protocol.c: reading and setting parameters, stored data of a time
  period sent in packets, the answer to a clock setting, and the dispatch of a received command
  by its function code.
\<close>

section \<open>Parameters\<close>

definition QueryParameters_Init ::
    "'w board \<Rightarrow> RTU_operation_parameters_t \<Rightarrow> ('w, 'z) proto_scheme \<Rightarrow> setparameter_message_t \<times> ('w, 'z) proto_scheme" where
  "QueryParameters_Init b p s =
     (let number = swap16 (sn s); (systime, s) = read_systime b s;
          m = \<lparr>m_header = \<lparr>h_start_id = NETWORK_S0H, h_center_addr = 0x00, h_remote_addr = [0x00, 0x55, 0x00, 0x00, 0x01],
                  h_password = 0x0000, h_fun_id = QUERY_PARAMETER_FUNID, h_frame_id_len = swap16 0x807C,
                  h_content_start_id = NETWORK_STX\<rparr>,
               m_content = \<lparr>sp_sn = number, sp_pkt_time = pkt_time_at systime,
                  sp_center_addr = (swap16 0x0120, center_addr p),
                  sp_rtu_remote_addr = (swap16 0x0228, rtu_remote_addr p),
                  sp_password = (swap16 0x0310, password p),
                  sp_center_1_main_channel = (swap16 0x0450, center_1_main_channel p),
                  sp_center_1_spare_channel = (swap16 0x0550, center_1_spare_channel p),
                  sp_center_2_main_channel = (swap16 0x0650, center_2_main_channel p),
                  sp_center_2_spare_channel = (swap16 0x0750, center_2_spare_channel p),
                  sp_center_3_main_channel = (swap16 0x0850, center_3_main_channel p),
                  sp_center_3_spare_channel = (swap16 0x0950, center_3_spare_channel p),
                  sp_center_4_main_channel = (swap16 0x0A50, center_4_main_channel p),
                  sp_center_4_spare_channel = (swap16 0x0B50, center_4_spare_channel p),
                  sp_work_style = (swap16 0x0C08, work_style p),
                  sp_remote_collect_factor = (swap16 0x0D20, remote_collect_factor p),
                  sp_time_interval_of_timing_message = (swap16 0x2008, time_interval_of_timing_message p),
                  sp_time_interval_of_plus_message = (swap16 0x2108, time_interval_of_plus_message p),
                  sp_rainfall_day_start_time = (swap16 0x2208, rainfall_day_start_time p),
                  sp_sampling_interval = (swap16 0x2310, sampling_interval p),
                  sp_waterlevel_save_interval = (swap16 0x2408, waterlevel_save_interval p),
                  sp_rainfall_resolution = (swap16 0x2509, rainfall_resolution p),
                  sp_waterlevel_resolution = (swap16 0x2609, waterlevel_resolution p),
                  sp_threshold_rainfall_value_of_plusemessage = (swap16 0x2708, threshold_rainfall_value_of_plusemessage p),
                  sp_waterlevel_plusmessage_1 = (drop_bit 8 0x3812 OR push_bit 8 0x4012, waterlevel_plusmessage_1 p),
                  sp_above_threshold_waterlevel_value_of_plusmeessage = (swap16 0x4012, above_threshold_waterlevel_value_of_plusmeessag p),
                  sp_below_threshold_waterlevel_value_of_plusmessage = (swap16 0x4112, below_threshold_waterlevel_value_of_plusmessage p),
                  sp_flow_threshold_plusmessage = (swap16 0x421B, flow_threshold_plusmessage p)\<rparr>,
               m_content_end_id = 0x03, m_crc = 0xffff\<rparr>
      in (m, s\<lparr>sn := sn s + 1\<rparr>))"

text \<open>The base value and the correction of \<open>write_parameters\<close> are what the stack holds.\<close>

definition set_parameters_of :: "RTU_operation_parameters_t \<Rightarrow> setparameter_content_t \<Rightarrow> RTU_operation_parameters_t" where
  "set_parameters_of write_parameters c = write_parameters\<lparr>
     center_addr := snd (sp_center_addr c), rtu_remote_addr := snd (sp_rtu_remote_addr c), password := snd (sp_password c),
     center_1_main_channel := snd (sp_center_1_main_channel c), center_1_spare_channel := snd (sp_center_1_spare_channel c),
     center_2_main_channel := snd (sp_center_2_main_channel c), center_2_spare_channel := snd (sp_center_2_spare_channel c),
     center_3_main_channel := snd (sp_center_3_main_channel c), center_3_spare_channel := snd (sp_center_3_spare_channel c),
     center_4_main_channel := snd (sp_center_4_main_channel c), center_4_spare_channel := snd (sp_center_4_spare_channel c),
     work_style := snd (sp_work_style c), remote_collect_factor := snd (sp_remote_collect_factor c),
     time_interval_of_timing_message := snd (sp_time_interval_of_timing_message c),
     time_interval_of_plus_message := snd (sp_time_interval_of_plus_message c),
     rainfall_day_start_time := snd (sp_rainfall_day_start_time c), sampling_interval := snd (sp_sampling_interval c),
     waterlevel_save_interval := snd (sp_waterlevel_save_interval c), rainfall_resolution := snd (sp_rainfall_resolution c),
     waterlevel_resolution := snd (sp_waterlevel_resolution c),
     threshold_rainfall_value_of_plusemessage := snd (sp_threshold_rainfall_value_of_plusemessage c),
     waterlevel_plusmessage_1 := snd (sp_waterlevel_plusmessage_1 c),
     above_threshold_waterlevel_value_of_plusmeessag := snd (sp_above_threshold_waterlevel_value_of_plusmeessage c),
     below_threshold_waterlevel_value_of_plusmessage := snd (sp_below_threshold_waterlevel_value_of_plusmessage c),
     flow_threshold_plusmessage := snd (sp_flow_threshold_plusmessage c)\<rparr>"

definition SetParameters :: "'w board \<Rightarrow> setparameter_content_t \<Rightarrow> ('w, 'z) proto_scheme \<Rightarrow> ('w, 'z) proto_scheme option" where
  "SetParameters b c s = RTU_parameters_Writedata b (set_parameters_of (stack_parameters s) c) s"

section \<open>Time period data\<close>

text \<open>0 for an acknowledgement, 1 for a negative one, -1 for anything else or nothing.\<close>

fun JudgeReceive_loop :: "'w board \<Rightarrow> nat \<Rightarrow> ('w, 'z) gprs_scheme \<Rightarrow> (int \<times> ('w, 'z) gprs_scheme) option" where
  "JudgeReceive_loop b 0 s = Some (- 1, s)"
| "JudgeReceive_loop b (Suc i) s =
     (if g_usart2_receive_stat s then do {
        let s = s\<lparr>g_usart2_receive_stat := False\<rparr>;
        end_id \<leftarrow> rd (DMA_usart2_Buf s) 37;
        Some (if end_id = NETWORK_ACK then 0 else if end_id = NETWORK_NAK then 1 else - 1, s)
      }
      else JudgeReceive_loop b i (delay b s))"

definition JudgeReceiveTimePeriod :: "'w board \<Rightarrow> ('w, 'z) gprs_scheme \<Rightarrow> (int \<times> ('w, 'z) gprs_scheme) option" where
  "JudgeReceiveTimePeriod b s = JudgeReceive_loop b 3 s"

definition QueryTimePeriodData_Init ::
    "'w board \<Rightarrow> u16 \<Rightarrow> querrytimeperiod_upmessage_t \<Rightarrow> ('w, 'z) proto_scheme \<Rightarrow> querrytimeperiod_upmessage_t \<times> ('w, 'z) proto_scheme" where
  "QueryTimePeriodData_Init b element_id m s =
     (let (systime, s) = read_systime b s; (rtu_parameters, s) = RTU_parameters_Readdata b s
      in (m\<lparr>q_header := \<lparr>h_start_id = NETWORK_S0H, h_center_addr = 0x00, h_remote_addr = rtu_remote_addr rtu_parameters,
              h_password = password_field rtu_parameters, h_fun_id = QUERY_TIME_PERIOD_FUNID, h_frame_id_len = swap16 0x025E,
              h_content_start_id = NETWORK_STX\<rparr>,
            q_content := (q_content m)\<lparr>c_sn := 0x0000, c_pkt_time := pkt_time_at systime, c_remote_addr_id := 0xF1F1,
              c_remote_addr := rtu_remote_addr rtu_parameters, c_class_id := 0x48, c_observ_time := observ_time_at systime,
              up_time_period_id := [0x04, 0x18, 0x00, 0x00, 0x05], up_element_id := swap16 element_id\<rparr>,
            q_content_end_id := NETWORK_ETB\<rparr>, s))"

definition TimeperiodToDate :: "timeperiod_t \<Rightarrow> date_t" where
  "TimeperiodToDate src_time = \<lparr>d_year = BCDToInteger (e_year src_time), d_month = BCDToInteger (e_month src_time),
     d_day = BCDToInteger (e_day src_time), d_hour = BCDToInteger (e_hour src_time), d_minute = 0\<rparr>"

text \<open>\<open>for (i = start_date.month; i < start_date.month + month_interval; i++)\<close>\<close>

fun month_groups :: "u8 list \<Rightarrow> nat list \<Rightarrow> u32 \<Rightarrow> u32 option" where
  "month_groups month_days [] hour_groups = Some hour_groups"
| "month_groups month_days (i # is) hour_groups = do {
     d \<leftarrow> rd month_days i;
     month_groups month_days is (hour_groups + ucast d * 24)
   }"

definition GetHourGroupsByTimperiod :: "timeperiod_t \<Rightarrow> timeperiod_t \<Rightarrow> u16 list \<Rightarrow> (u32 \<times> u16 list) option" where
  "GetHourGroupsByTimperiod start end md = do {
     let start_date = TimeperiodToDate start;
     let end_date = TimeperiodToDate end;
     let (month_days, md) = GetMonthDays (e_year start) md;
     if d_month end_date = d_month start_date then
       if d_day end_date = d_day start_date then
         let end_hour = (if d_hour end_date = 0 then 24 else d_hour end_date)
         in Some (word_of_int (uint end_hour - uint (d_hour start_date)), md)
       else
         Some (word_of_int ((uint (d_day end_date) - uint (d_day start_date) - 1) * 24
               + (24 - uint (d_hour start_date)) + uint (d_hour end_date)), md)
     else do {
       let month_interval = (word_of_int (uint (d_month end_date) - uint (d_month start_date) - 1) :: u8);
       let m = unat (d_month start_date);
       hour_groups \<leftarrow> month_groups month_days [m..<m + unat month_interval] 0;
       days \<leftarrow> (if m = 0 then None else rd month_days (m - 1));
       let hour_groups = hour_groups + word_of_int ((uint days - uint (d_day start_date)) * 24 + (24 - uint (d_hour start_date)));
       Some (hour_groups + word_of_int ((uint (d_day end_date) - 1) * 24 + uint (d_hour end_date)), md)
     }
   }"

definition TIME_PERIOD_MAX_LEN :: nat where "TIME_PERIOD_MAX_LEN = 800"

definition SendTimePerioadData_upframe ::
    "'w board \<Rightarrow> querrytimeperiod_upmessage_t \<Rightarrow> u8 \<Rightarrow> ('w, 'z) proto_scheme \<Rightarrow> (querrytimeperiod_upmessage_t \<times> ('w, 'z) proto_scheme) option" where
  "SendTimePerioadData_upframe b m serial s = do {
     let m = m\<lparr>q_content := (q_content m)\<lparr>c_sn := swap16 (sn s)\<rparr>\<rparr>;
     let buff = querrytimeperiod_up_bytes m;
     let (bs, s) = flash_read b (start_addr (q_content m)) (ucast (data_length (q_content m))) s;
     if length buff + unat (data_length (q_content m)) + 3 > TIME_PERIOD_MAX_LEN then None
     else do {
       let buff = buff @ bs @ [NETWORK_ETB];
       c \<leftarrow> CRC16_MODBUS buff (length buff);
       let buff = buff @ [ucast (drop_bit 8 c), ucast (c AND 0x00ff)];
       let s = s\<lparr>sn := sn s + 1\<rparr>;
       s \<leftarrow> (if serial = SERIAL_2 then map_option snd (gprs_send_string_len b buff (length buff) s)
            else if serial = RS232_3 then Some (RS232_3_Send_buf b buff s) else Some s);
       Some (m, s)
     }
   }"

text \<open>\<open>total_pkts_sn\<close> of the single packet, of the first of several, and with the number of packet \<open>i\<close>.\<close>

definition first_pkts_sn :: "u16 \<Rightarrow> u8 list" where
  "first_pkts_sn total_pkts = [ucast (drop_bit 4 total_pkts), ucast (push_bit 4 total_pkts AND 0x00f0), 0x01]"

definition numbered_pkts_sn :: "nat \<Rightarrow> u8 list \<Rightarrow> u8 list" where
  "numbered_pkts_sn i p =
     [p ! 0, (p ! 1 AND 0xf0) OR ucast (drop_bit 8 (of_nat i :: u32) AND 0x0f), of_nat i]"

definition with_data :: "u32 \<Rightarrow> u32 \<Rightarrow> querrytimeperiod_upmessage_t \<Rightarrow> querrytimeperiod_upmessage_t" where
  "with_data address len m = m\<lparr>q_content := (q_content m)\<lparr>start_addr := address, data_length := len\<rparr>\<rparr>"

definition with_frame_length :: "u32 \<Rightarrow> querrytimeperiod_upmessage_t \<Rightarrow> querrytimeperiod_upmessage_t" where
  "with_frame_length data_len m =
     m\<lparr>q_header := (q_header m)\<lparr>h_frame_id_len := swap16 (ucast (3 + 38 - 8 + data_len))\<rparr>\<rparr>"

text \<open>The loop over the packets of twelve hours; \<open>n\<close> packets are left, \<open>i\<close> is the next number.\<close>

fun send_full_packets ::
    "'w board \<Rightarrow> u8 \<Rightarrow> u32 \<Rightarrow> nat \<Rightarrow> nat \<Rightarrow> u32 \<Rightarrow> querrytimeperiod_upmessage_t \<Rightarrow> ('w, 'z) proto_scheme
     \<Rightarrow> (u32 \<times> querrytimeperiod_upmessage_t \<times> ('w, 'z) proto_scheme) option" where
  "send_full_packets b serial single_len 0 i read_address m s = Some (read_address, m, s)"
| "send_full_packets b serial single_len (Suc n) i read_address m s = do {
     let data_length = 12 * 12 * single_len;
     let read_address = read_address + (of_nat i - 1) * 12 * 12 * single_len;
     let m = with_data read_address data_length m;
     let m = m\<lparr>q_total_pkts_sn := numbered_pkts_sn i (q_total_pkts_sn m)\<rparr>;
     (m, s) \<leftarrow> SendTimePerioadData_upframe b m serial s;
     send_full_packets b serial single_len n (Suc i) read_address m s
   }"

definition send_remainder ::
    "'w board \<Rightarrow> u8 \<Rightarrow> u32 \<Rightarrow> u32 \<Rightarrow> nat \<Rightarrow> u32 \<Rightarrow> querrytimeperiod_upmessage_t \<Rightarrow> ('w, 'z) proto_scheme
     \<Rightarrow> (querrytimeperiod_upmessage_t \<times> ('w, 'z) proto_scheme) option" where
  "send_remainder b serial single_len remainder_hour_groups i read_address m s =
     (let data_length = remainder_hour_groups * 12 * single_len;
          m = with_data (read_address + 12 * 12 * single_len) data_length m;
          m = with_frame_length data_length m;
          m = m\<lparr>q_total_pkts_sn := numbered_pkts_sn i (q_total_pkts_sn m)\<rparr>
      in SendTimePerioadData_upframe b m serial s)"

text \<open>\<open>GetAddress\<close> of the first sample; the address stays 0 when it fails.\<close>

definition first_address :: "date_t \<Rightarrow> u8 \<Rightarrow> ('w, 'z) mem_scheme \<Rightarrow> (u32 \<times> ('w, 'z) mem_scheme) option" where
  "first_address start_date data_type s = do {
     (r, md) \<leftarrow> GetAddress start_date data_type (s_monthday s);
     Some (case r of Inr a \<Rightarrow> word_of_int a | Inl _ \<Rightarrow> 0, s\<lparr>s_monthday := md\<rparr>)
   }"

definition blank_timeperiod_upmessage :: querrytimeperiod_upmessage_t where
  "blank_timeperiod_upmessage = \<lparr>q_header = \<lparr>h_start_id = 0, h_center_addr = 0, h_remote_addr = replicate 5 0,
       h_password = 0, h_fun_id = 0, h_frame_id_len = 0, h_content_start_id = 0\<rparr>,
     q_total_pkts_sn = [0, 0, 0],
     q_content = \<lparr>c_sn = 0, c_pkt_time = \<lparr>p_year = 0, p_month = 0, p_day = 0, p_hour = 0, p_minute = 0, p_second = 0\<rparr>,
       c_remote_addr_id = 0, c_remote_addr = replicate 5 0, c_class_id = 0,
       c_observ_time = \<lparr>o_id = 0, o_year = 0, o_month = 0, o_day = 0, o_hour = 0, o_minute = 0\<rparr>,
       up_time_period_id = replicate 5 0, up_element_id = 0, start_addr = 0, data_length = 0\<rparr>,
     q_content_end_id = 0, q_crc = 0\<rparr>"

definition send_one_packet ::
    "'w board \<Rightarrow> u8 \<Rightarrow> date_t \<Rightarrow> u8 \<Rightarrow> u32 \<Rightarrow> u32 \<Rightarrow> querrytimeperiod_upmessage_t \<Rightarrow> ('w, 'z) proto_scheme
     \<Rightarrow> ('w, 'z) proto_scheme option" where
  "send_one_packet b serial start_date data_type single_len hour_groups m s = do {
     let m = with_frame_length (hour_groups * 12 * single_len) m;
     (read_address, s) \<leftarrow> first_address start_date data_type s;
     let m = with_data read_address (hour_groups * 12 * single_len) m;
     (_, s) \<leftarrow> SendTimePerioadData_upframe b m serial s;
     Some s
   }"

text \<open>The frame length of the full packets counts three bytes per sample for water levels, too.\<close>

definition send_packets ::
    "'w board \<Rightarrow> u8 \<Rightarrow> date_t \<Rightarrow> u8 \<Rightarrow> u32 \<Rightarrow> u32 \<Rightarrow> querrytimeperiod_upmessage_t \<Rightarrow> ('w, 'z) proto_scheme
     \<Rightarrow> ('w, 'z) proto_scheme option" where
  "send_packets b serial start_date data_type single_len hour_groups m s = do {
     let integer_total_pkts = unat (hour_groups div 12);
     let remainder_hour_groups = hour_groups mod 12;
     (read_address, s) \<leftarrow> first_address start_date data_type s;
     let m = with_frame_length (12 * 12 * 3) m;
     (read_address, m, s) \<leftarrow> send_full_packets b serial single_len integer_total_pkts 1 read_address m s;
     if remainder_hour_groups \<noteq> 0 then do {
       (_, s) \<leftarrow> send_remainder b serial single_len remainder_hour_groups (integer_total_pkts + 1) read_address m s;
       Some s
     } else Some s
   }"

definition test_SendTimePeriodData ::
    "'w board \<Rightarrow> querrytimeperiod_down_content_t \<Rightarrow> u8 \<Rightarrow> ('w, 'z) proto_scheme \<Rightarrow> ('w, 'z) proto_scheme option" where
  "test_SendTimePeriodData b down serial s = do {
     let start_date = TimeperiodToDate (td_start_time down);
     let element_id = swap16 (td_precipit_id down);
     let (m, s) = QueryTimePeriodData_Init b element_id blank_timeperiod_upmessage s;
     (hour_groups, md) \<leftarrow> GetHourGroupsByTimperiod (td_start_time down) (td_end_time down) (s_monthday s);
     let s = s\<lparr>s_monthday := md\<rparr>;
     if hour_groups \<le> 12 then do {
       let m = m\<lparr>q_total_pkts_sn := [0x00, 0x10, 0x01]\<rparr>;
       if element_id = CUMULA_PRECIPIT_ID then send_one_packet b serial start_date RAINFALL_TYPE 3 hour_groups m s
       else if element_id = WATER_LEVEL_ID then send_one_packet b serial start_date WATERLEVEL_TYPE 4 hour_groups m s
       else Some s
     }
     else do {
       let total_pkts = (ucast (hour_groups div 12) + (if hour_groups mod 12 \<noteq> 0 then 1 else 0) :: u16);
       let m = m\<lparr>q_total_pkts_sn := first_pkts_sn total_pkts\<rparr>;
       if element_id = CUMULA_PRECIPIT_ID then send_packets b serial start_date RAINFALL_TYPE 3 hour_groups m s
       else if element_id = WATER_LEVEL_ID then send_packets b serial start_date WATERLEVEL_TYPE 4 hour_groups m s
       else Some s
     }
   }"

section \<open>Clock setting\<close>

definition Calibration_time_UpMessage_init :: "'w board \<Rightarrow> ('w, 'z) proto_scheme \<Rightarrow> calibration_time_upmsssage_t \<times> ('w, 'z) proto_scheme" where
  "Calibration_time_UpMessage_init b s =
     (let (real_time, s) = read_systime b s; (rtu_parameters, s) = RTU_parameters_Readdata b s
      in (\<lparr>cu_header = \<lparr>h_start_id = NETWORK_S0H, h_center_addr = center_addr rtu_parameters ! 0,
             h_remote_addr = rtu_remote_addr rtu_parameters, h_password = password_field rtu_parameters,
             h_fun_id = SET_REAL_TIME, h_frame_id_len = swap16 15, h_content_start_id = NETWORK_STX\<rparr>,
           cu_sn = swap16 (sn s), cu_pkt_time = pkt_time_at real_time, cu_remote_addr_id = 0xF1F1,
           cu_remote_addr = rtu_remote_addr rtu_parameters, cu_content_end_id = NETWORK_ETX, cu_crc = 0\<rparr>,
          s\<lparr>sn := sn s + 1\<rparr>))"

section \<open>Dispatch\<close>

text \<open>1 for a function code that is not known, 2 for an interface that is not.\<close>

definition known_fun_id :: "u8 \<Rightarrow> u8" where
  "known_fun_id f =
     (if f \<in> {PLUS_MESSAGE_FUNID, HOUR_MESSAGE_FUNID, QUERY_REALDATA_FUNID, QUERY_TIME_PERIOD_FUNID, SET_PARAMETER_FUNID,
          QUERY_PARAMETER_FUNID, SET_REAL_TIME, ENTER_RESPONSE_MODE, ENTER_NORMAL_MODE} then f else 1)"

definition GetDownFrameFunId :: "u8 \<Rightarrow> ('w, 'z) proto_scheme \<Rightarrow> (u8 \<times> ('w, 'z) proto_scheme) option" where
  "GetDownFrameFunId serial s =
     (if serial = SERIAL_2 then do {
        (n, buf, _, _, recv) \<leftarrow> Analysis_Data_FromGPRS (DMA_usart2_Buf s) (replicate 20 0) (replicate 10 0) (g_gprs_receive_data_buff s);
        let s = s\<lparr>DMA_usart2_Buf := buf, g_gprs_receive_data_buff := recv, g_gprs_receive_data_length := of_nat n\<rparr>;
        data \<leftarrow> slice recv 0 (unat (g_gprs_receive_data_length s));
        buff \<leftarrow> blit (replicate 200 0) 0 data;
        h \<leftarrow> message_header_of buff;
        Some (known_fun_id (h_fun_id h), s)
      }
      else if serial = RS232_3 then do {
        h \<leftarrow> message_header_of (RS232_3_Recv s);
        Some (known_fun_id (h_fun_id h), s)
      }
      else Some (2, s))"

text \<open>The buffer of an interface; the code follows a null pointer for any other interface.\<close>

definition command_buffer :: "u8 \<Rightarrow> ('w, 'z) proto_scheme \<Rightarrow> u8 list option" where
  "command_buffer serial s =
     (if serial = SERIAL_2 then Some (g_gprs_receive_data_buff s)
      else if serial = RS232_3 then Some (RS232_3_Recv s) else None)"

definition send_answer :: "'w board \<Rightarrow> u8 \<Rightarrow> u8 list \<Rightarrow> ('w, 'z) proto_scheme \<Rightarrow> ('w, 'z) proto_scheme option" where
  "send_answer b serial bs s =
     (if serial = SERIAL_2 then map_option snd (gprs_send_string_len b bs (length bs) s)
      else if serial = RS232_3 then Some (RS232_3_Send_buf b bs s) else Some s)"

definition ExecuteFunctionByFunId :: "'w board \<Rightarrow> u8 \<Rightarrow> u8 \<Rightarrow> ('w, 'z) proto_scheme \<Rightarrow> (int \<times> ('w, 'z) proto_scheme) option" where
  "ExecuteFunctionByFunId b f serial s =
     map_option (Pair 0)
      (if f = SET_REAL_TIME then do {
         buff \<leftarrow> command_buffer serial s;
         t \<leftarrow> calibration_time_of buff;
         let (_, w) = RTC_WriteDate b \<lparr>t_second = p_second t, t_minute = p_minute t, t_hour = p_hour t, t_week = 0,
               t_day = p_day t, t_month = p_month t, t_year = p_year t\<rparr> (world s);
         Some (s\<lparr>world := w\<rparr>)
       }
       else if f = QUERY_REALDATA_FUNID then do {
         s \<leftarrow> QueryRealData_Init b s;
         send_answer b serial (queryrealdata_bytes (g_queryrealdata_upmessage s)) s
       }
       else if f = QUERY_TIME_PERIOD_FUNID then do {
         buff \<leftarrow> command_buffer serial s;
         down \<leftarrow> querrytimeperiod_down_of buff;
         test_SendTimePeriodData b down serial s
       }
       else if f = QUERY_PARAMETER_FUNID then
         if serial = RS232_3 then
           let (p, s) = RTU_parameters_Readdata b s; (m, s) = QueryParameters_Init b p s
           in Some (RS232_3_Send_buf b (message_bytes setparameter_content_bytes m) s)
         else Some s
       else if f = SET_PARAMETER_FUNID then
         if serial = RS232_3 then do { c \<leftarrow> setparameter_of (RS232_3_Recv s); SetParameters b c s }
         else Some s
       else Some s)"

definition ResponseUpMessage :: "'w board \<Rightarrow> u8 \<Rightarrow> u8 \<Rightarrow> ('w, 'z) proto_scheme \<Rightarrow> (int \<times> ('w, 'z) proto_scheme) option" where
  "ResponseUpMessage b f serial s =
     map_option (Pair 0)
      (if f = SET_REAL_TIME then
         let (m, s) = Calibration_time_UpMessage_init b s in send_answer b serial (calibration_time_up_bytes m) s
       else Some s)"

end
