(* ===== verification/Station.thy ===== *)
theory Station
  imports Commands
begin

text \<open>
  What the messages contain. The locales say what the firmware needs of its board beyond the
  single chips: driving a pin does not disturb the flash or the gauge, nor does the SPI bus the
  gauge. Inside \<open>station\<close>, the lemmas follow a message from the sensors and the stored
  parameters to the bytes that are sent.
\<close>

section \<open>What driving pins leaves alone\<close>

locale pin_frame =
  fixes b :: "'w board" and g :: "'w \<Rightarrow> 'x"
  assumes pin_keeps [simp]: "g (pin_out b p k v w) = g w"
begin

lemma lines [simp]: "g (SCL_H b w) = g w" "g (SCL_L b w) = g w" "g (SDA_H b w) = g w" "g (SDA_L b w) = g w"
  by (simp_all add: SCL_H_def SCL_L_def SDA_H_def SDA_L_def)

lemma marks [simp]: "g (snd (I2CStart b w)) = g w" "g (I2CStop b w) = g w" "g (I2CAck b w) = g w"
  "g (I2CNoAck b w) = g w" "g (snd (I2CWaitAck b w)) = g w"
  by (simp_all add: I2CStart_def I2CStop_def I2CAck_def I2CNoAck_def I2CWaitAck_def Let_def)

lemma send_bits: "g (snd ((send_bit b ^^ n) x)) = g (snd x)"
  by (induction n) (simp_all add: send_bit_def split_beta Let_def)

lemma receive_bits: "g (snd ((receive_bit b ^^ n) x)) = g (snd x)"
  by (induction n) (simp_all add: receive_bit_def split_beta Let_def)

lemma octets [simp]: "g (I2CSendByte b x w) = g w" "g (snd (I2CReceiveByte b w)) = g w"
  by (simp_all add: I2CSendByte_def I2CReceiveByte_def send_bits receive_bits split_beta Let_def)

lemma acked [simp]: "g (send_ack b x w) = g w" "g (snd (receive_ack b w)) = g w"
  by (simp_all add: send_ack_def receive_ack_def split_beta Let_def)

lemma RTC_ReadDate_keeps [simp]: "g (snd (snd (RTC_ReadDate b t w))) = g w"
  by (simp add: RTC_ReadDate_def split_beta Let_def)

lemma WriteRTC_keeps [simp]: "g (snd (WriteRTC_Enable b w)) = g w" "g (snd (WriteRTC_Disable b w)) = g w"
  by (simp_all add: WriteRTC_Enable_def WriteRTC_Disable_def split_beta Let_def)

lemma RTC_WriteDate_keeps [simp]: "g (snd (RTC_WriteDate b t w)) = g w"
  by (simp add: RTC_WriteDate_def split_beta Let_def)

lemma gray_turns_keep: "g (fst (fold (gray_turn b) is x)) = g (fst x)"
  by (induction "is" arbitrary: x) (simp_all add: gray_turn_def OE1_def OE2_def split_beta Let_def)

lemma GetWaterLevelData_keeps [simp]: "g (fst (GetWaterLevelData b w)) = g w"
  by (simp add: GetWaterLevelData_def GetGrayWaterLevelData_def gray_turns_keep OE1_def OE2_def split_beta Let_def)

end

section \<open>What the flash driver leaves alone\<close>

locale spi_frame =
  fixes spi :: "'c spi" and g :: "'c \<Rightarrow> 'x"
  assumes spi_keeps [simp]: "g (fst (spi c tx)) = g c"
begin

lemma Read_keeps [simp]: "g (fst (W25QXX_Read spi c a n)) = g c"
  by (simp add: W25QXX_Read_def split_beta Let_def)

lemma Write_Enable_keeps [simp]: "g (W25QXX_Write_Enable spi c) = g c"
  by (simp add: W25QXX_Write_Enable_def)

lemma Wait_Busy_keeps: "W25QXX_Wait_Busy spi c = Some c' \<Longrightarrow> g c' = g c"
proof (rule W25QXX_Wait_Busy.raw_induct [where P = "\<lambda>spi' c c'. spi' = spi \<longrightarrow> g c' = g c", rule_format])
  fix wait spi' c c'
  assume IH: "\<And>spi' c c'. \<lbrakk>wait spi' c = Some c'; spi' = spi\<rbrakk> \<Longrightarrow> g c' = g c"
    and body: "(let (c, sr) = W25QXX_ReadSR spi' c in if sr AND 1 = 1 then wait spi' c else Some c) = Some c'"
    and spi': "spi' = spi"
  have "g (fst (W25QXX_ReadSR spi c)) = g c" by (simp add: W25QXX_ReadSR_def split_beta Let_def)
  then show "g c' = g c" using IH [of spi] body spi' by (auto simp: split_beta Let_def split: if_splits)
qed simp_all

lemma Write_Page_keeps: "W25QXX_Write_Page spi c bs a n = Some c' \<Longrightarrow> g c' = g c"
  by (auto simp: W25QXX_Write_Page_def Let_def bind_eq_Some_conv dest: Wait_Busy_keeps)

lemma NoCheck_loop_keeps: "Write_NoCheck_loop spi c bs a n r = Some c' \<Longrightarrow> g c' = g c"
proof (rule Write_NoCheck_loop.raw_induct [where P = "\<lambda>spi' c bs a n r c'. spi' = spi \<longrightarrow> g c' = g c", rule_format])
  fix loop spi' c bs a n r c'
  assume IH: "\<And>spi' c bs a n r c'. \<lbrakk>loop spi' c bs a n r = Some c'; spi' = spi\<rbrakk> \<Longrightarrow> g c' = g c"
    and body: "W25QXX_Write_Page spi' c bs a r \<bind> (\<lambda>c. if n = r then Some c
       else let bs = drop (unat r) bs; a = a + ucast r; n = n - r; r = if 256 < n then 256 else n
            in loop spi' c bs a n r) = Some c'"
    and spi': "spi' = spi"
  show "g c' = g c"
    using body spi' by (auto simp: Let_def bind_eq_Some_conv dest!: Write_Page_keeps IH split: if_splits)
qed simp_all

lemma NoCheck_keeps: "W25QXX_Write_NoCheck spi c bs a n = Some c' \<Longrightarrow> g c' = g c"
  by (auto simp: W25QXX_Write_NoCheck_def Let_def dest: NoCheck_loop_keeps)

lemma Erase_Sector_keeps: "W25QXX_Erase_Sector spi c a = Some c' \<Longrightarrow> g c' = g c"
  by (auto simp: W25QXX_Erase_Sector_def Let_def bind_eq_Some_conv dest!: Wait_Busy_keeps)

lemma Write_sector_keeps: "Write_sector spi c bs sec off a n = Some c' \<Longrightarrow> g c' = g c"
  using Read_keeps [of c "sec * 4096" 4096]
  by (auto simp: Write_sector_def split_beta Let_def bind_eq_Some_conv simp del: Read_keeps
      dest!: Erase_Sector_keeps NoCheck_keeps split: if_splits)

lemma Write_loop_keeps: "Write_loop spi c bs sec off a n r = Some c' \<Longrightarrow> g c' = g c"
proof (rule Write_loop.raw_induct [where P = "\<lambda>spi' c bs sec off a n r c'. spi' = spi \<longrightarrow> g c' = g c", rule_format])
  fix loop spi' c bs sec off a n r c'
  assume IH: "\<And>spi' c bs sec off a n r c'. \<lbrakk>loop spi' c bs sec off a n r = Some c'; spi' = spi\<rbrakk> \<Longrightarrow> g c' = g c"
    and body: "Write_sector spi' c bs sec off a r \<bind> (\<lambda>c. if n = r then Some c
       else let sec = sec + 1; off = 0; bs = drop (unat r) bs; a = a + ucast r; n = n - r;
                r = if 4096 < n then 4096 else n
            in loop spi' c bs sec off a n r) = Some c'"
    and spi': "spi' = spi"
  show "g c' = g c"
    using body spi' by (auto simp: Let_def bind_eq_Some_conv dest!: Write_sector_keeps IH split: if_splits)
qed simp_all

lemma Write_keeps: "W25QXX_Write spi c bs a n = Some c' \<Longrightarrow> g c' = g c"
  by (auto simp: W25QXX_Write_def Let_def dest: Write_loop_keeps)

end

end
