(* ===== verification/Reports.thy ===== *)
theory Reports
  imports Station
begin

text \<open>
  The contents of the reports. \<open>station\<close> is the board of a complete station: an idle flash chip,
  a Gray-coded gauge, and lines that do not disturb either. What the stored parameters are and
  which samples flash holds enter as facts about the cells.
\<close>

section \<open>Generic facts\<close>

definition stored_parameters :: "(nat \<Rightarrow> u8) \<Rightarrow> RTU_operation_parameters_t" where
  "stored_parameters m = param_of (mem_read m 0x080010 121)"

lemma param_wf_param_of: "length bs = 121 \<Longrightarrow> param_wf (param_of bs)"
  by (simp add: param_wf_def param_of_def param_of_chunks_def param_chunks_def param_sizes_def)

lemma param_wf_stored: "param_wf (stored_parameters m)"
  by (simp add: stored_parameters_def param_wf_param_of mem_read_def)

lemma param_lengths:
  assumes "param_wf p"
  shows "length (center_addr p) = 4" "length (rtu_remote_addr p) = 5" "length (password p) = 2"
    "length (waterlevel_basevalue_1 p) = 4"
  using assms by (simp_all add: param_wf_def param_chunks_def param_sizes_def)

definition message_body :: "('c \<Rightarrow> u8 list) \<Rightarrow> ('c, 'z) message_t_scheme \<Rightarrow> u8 list" where
  "message_body content_bytes m = message_header_bytes (m_header m) @ content_bytes (m_content m) @ [m_content_end_id m]"

lemma message_bytes_body: "message_bytes cb m = message_body cb m @ le16 (m_crc m)"
  by (simp add: message_bytes_def message_body_def)

lemma length_message [simp]: "length (message_bytes cb m) = length (message_body cb m) + 2"
  by (simp add: message_bytes_body)

lemma message_body_crc [simp]: "message_body cb (m\<lparr>m_crc := c\<rparr>) = message_body cb m"
  by (simp add: message_body_def)

lemma message_checksum:
  "length (message_body cb m) = n \<Longrightarrow> CRC16_MODBUS (message_bytes cb m) n = Some (crc16 (message_body cb m))"
  by (simp add: CRC16_MODBUS_eq message_bytes_body)

lemma message_checked:
  "m_crc m = crc16 (message_body cb m) \<Longrightarrow> crc16 (message_bytes cb m) = 0"
  by (simp add: message_bytes_body crc16_trailer)

text \<open>Element identifiers with one and with three decimals.\<close>

lemma element_decimals:
  "GetBCDSendata 0x3923 x = FloatoHex 8 3 x" "GetBCDSendata 0x2619 x = FloatoHex 6 1 x" "GetBCDSendata 0x2219 x = FloatoHex 6 1 x"
  by (simp_all add: GetBCDSendata_def FloatoHex_def)

lemma base_value:
  assumes "base < 10 ^ 8"
  shows "BCDSendataToFloat 0x23 (store4 (of_nat (bcd_of base))) = Some (unscale10 3 (f32 (of_nat base)))"
  using HextoFloat_acc_store4 [OF assms]
  by (simp add: BCDSendataToFloat_def HextoFloat_def slice_def length_store4)

lemma pulses_store:
  assumes "k < 200000"
  shows "FloatoHex 6 1 (pulses_float (int k)) = Some (of_nat (bcd_of (5 * k)))"
  using rain_scaled [OF assms] by (simp add: pulses_float_def element_decimals)

lemma rainfall_store:
  assumes "unat c < 200000"
  shows "FloatoHex 6 1 (rainfall_float c) = Some (of_nat (bcd_of (5 * unat c)))"
  using pulses_store [OF assms] by (simp add: rainfall_float_def pulses_float_def)

lemma level_store:
  assumes "10 * n + base < 2 ^ 21"
  shows "\<exists>k. (k = 10 * n + base \<or> k + 1 = 10 * n + base) \<and>
    FloatoHex 8 3 (f32 (waterlevel_raw (int n) + unscale10 3 (f32 (of_nat base)))) = Some (of_nat (bcd_of k))"
  using water_store [OF assms] by (simp add: waterlevel_raw_def element_decimals)

lemma raw_level_store:
  assumes "10 * n < 2 ^ 21"
  shows "\<exists>k. (k = 10 * n \<or> k + 1 = 10 * n) \<and> FloatoHex 8 3 (waterlevel_raw (int n)) = Some (of_nat (bcd_of k))"
  using water_raw_store [OF assms] by (simp add: waterlevel_raw_def element_decimals)

lemma sint_of_nat_u32: "n < 2 ^ 31 \<Longrightarrow> sint (of_nat n :: u32) = int n"
  by (simp add: signed_of_nat signed_take_bit_int_eq_self)

lemma sint_unat_u32: "unat (w :: u32) < 2 ^ 31 \<Longrightarrow> sint w = int (unat w)"
  using sint_of_nat_u32 [of "unat w"] by simp

section \<open>The station\<close>

locale station = flash_board b cells busy wel + gray_sensor b code
  for b :: "'w board" and cells :: "'w \<Rightarrow> nat \<Rightarrow> u8" and busy :: "'w \<Rightarrow> nat" and wel :: "'w \<Rightarrow> bool" and code :: "'w \<Rightarrow> u32" +
  assumes pins_keep_flash [simp]: "cells (pin_out b p k v w) = cells w" "busy (pin_out b p k v w) = busy w"
    and flash_keeps_gauge [simp]: "code (fst (spi1 b w tx)) = code w"
    and no_stray: "\<not> stray_in b w"

sublocale station \<subseteq> pins: pin_frame b "\<lambda>w. (cells w, busy w, code w)"
  by unfold_locales simp

sublocale station \<subseteq> bus: spi_frame "spi1 b" code
  by unfold_locales simp

context station
begin

lemma clock_reading:
  obtains t w where "read_systime b s = (t, s\<lparr>world := w\<rparr>)"
    and "cells w = cells (world s)" "busy w = busy (world s)" "code w = code (world s)"
proof (rule that)
  show "read_systime b s = (fst (snd (RTC_ReadDate b (stack_time s) (world s))),
      s\<lparr>world := snd (snd (RTC_ReadDate b (stack_time s) (world s)))\<rparr>)"
    by (simp add: read_systime_def split_beta Let_def)
qed (use pins.RTC_ReadDate_keeps [of "stack_time s" "world s"] in \<open>simp_all only: prod.inject\<close>)

lemma gauge_reading:
  assumes "code w = gray_encode (of_nat n)" and "n < 2 ^ 13"
  obtains w' where "GetWaterLevelData b w = (w', of_nat n)"
    and "cells w' = cells w" "busy w' = busy w" "code w' = code w"
proof -
  have "(of_nat n :: u32) < 2 ^ 13" using assms(2) by (simp add: word_less_nat_alt)
  then have "snd (GetWaterLevelData b w) = of_nat n"
    using GetWaterLevelData_ok [OF no_stray assms(1)] by blast
  then have "GetWaterLevelData b w = (fst (GetWaterLevelData b w), of_nat n)" by (simp add: prod_eq_iff)
  from that [OF this] show ?thesis using pins.GetWaterLevelData_keeps [of w] by (simp only: prod.inject)
qed

lemma parameters_reading:
  assumes "busy (world s) = 0"
  obtains w where "RTU_parameters_Readdata b s = (stored_parameters (cells (world s)), s\<lparr>world := w\<rparr>)"
    and "cells w = cells (world s)" "busy w = 0" "code w = code (world s)"
proof -
  obtain w where w: "flash_read b IDR_RTU_PARAMETERS 121 s = (mem_read (cells (world s)) 0x080010 121, s\<lparr>world := w\<rparr>)"
    "busy w = 0" "cells w = cells (world s)"
    using flash_read_ok [OF assms, of IDR_RTU_PARAMETERS 121] by (auto simp: IDR_RTU_PARAMETERS_def)
  have "w = fst (W25QXX_Read (spi1 b) (world s) IDR_RTU_PARAMETERS 121)"
    using w(1) by (cases s) (auto simp: flash_read_def split_beta Let_def)
  then have "code w = code (world s)" by simp
  then show ?thesis using that w by (simp add: RTU_parameters_Readdata_def stored_parameters_def)
qed

text \<open>The added report.\<close>

lemma plus_message_ok:
  assumes idle: "busy (world s) = 0" and level: "code (world s) = gray_encode (of_nat n)" "n < 2 ^ 13"
    and p: "p = stored_parameters (cells (world s))" and base: "waterlevel_basevalue_1 p = store4 (of_nat (bcd_of base))"
    and range: "10 * n + base < 2 ^ 21"
    and rain: "g_rainfall_pluse_count s = of_nat k" "k < 200000" "last_fiveminute_rainfall_data_count s = int j" "j \<le> k"
  shows "\<exists>s' m l. plus_message_init b s = Some s' \<and> m = g_plus_message s' \<and>
    crc16 (plus_message_bytes m) = 0 \<and> length (plus_message_bytes m) = 60 \<and>
    h_remote_addr (m_header m) = rtu_remote_addr p \<and> c_sn (m_content m) = swap16 (sn s) \<and>
    five_min_precipit_data (m_content m) = store3 (of_nat (bcd_of (5 * (k - j)))) \<and>
    cumula_precipit_data (m_content m) = store3 (of_nat (bcd_of (5 * k))) \<and>
    water_level_data (m_content m) = store4 (of_nat (bcd_of l)) \<and> (l = 10 * n + base \<or> l + 1 = 10 * n + base) \<and>
    sn s' = sn s + 1 \<and> last_fiveminute_rainfall_data_count s' = int k \<and>
    cells (world s') = cells (world s) \<and> busy (world s') = 0 \<and> code (world s') = code (world s)"
proof -
  obtain w1 where 1: "RTU_parameters_Readdata b s = (p, s\<lparr>world := w1\<rparr>)" "cells w1 = cells (world s)" "busy w1 = 0"
    "code w1 = code (world s)"
    using parameters_reading [OF idle] p by metis
  obtain t w2 where 2: "read_systime b (s\<lparr>world := w1\<rparr>) = (t, s\<lparr>world := w2\<rparr>)" "cells w2 = cells w1" "busy w2 = busy w1"
    "code w2 = code w1"
    by (rule clock_reading [of "s\<lparr>world := w1\<rparr>"]) simp
  have "code w2 = gray_encode (of_nat n)" using 1 2 level by simp
  from gauge_reading [OF this level(2)]
  obtain w3 where 3: "GetWaterLevelData b w2 = (w3, of_nat n)" "cells w3 = cells w2" "busy w3 = busy w2" "code w3 = code w2" .
  have bv: "BCDSendataToFloat 0x23 (waterlevel_basevalue_1 p) = Some (unscale10 3 (f32 (of_nat base)))"
    unfolding base using range by (intro base_value) simp
  obtain l where l: "l = 10 * n + base \<or> l + 1 = 10 * n + base"
    "FloatoHex 8 3 (f32 (waterlevel_raw (int n) + unscale10 3 (f32 (of_nat base)))) = Some (of_nat (bcd_of l))"
    using level_store [OF range] by blast
  have sc: "sint (of_nat k :: u32) = int k" "sint (of_nat n :: u32) = int n"
    using rain(2) level(2) by (simp_all add: sint_of_nat_u32)
  have inc: "sub32 (int k) (int j) = Some (int k - int j)" using rain by (simp add: sub32_def)
  have five: "FloatoHex 6 (Suc 0) (pulses_float (int k - int j)) = Some (of_nat (bcd_of (5 * (k - j))))"
    and all: "FloatoHex 6 (Suc 0) (pulses_float (int k)) = Some (of_nat (bcd_of (5 * k)))"
    using pulses_store [of "k - j"] pulses_store [of k] rain by (simp_all add: of_nat_diff)
  note sizes = param_lengths [OF param_wf_stored [of "cells (world s)"], folded p]
  show ?thesis
    using 1 2(2-4) 3(2-4) idle l(1) sizes rain
    by (simp add: plus_message_init_def bv 2(1) sc inc 3(1) l(2) five all Let_def message_checksum message_checked
      message_body_def layout_simps plus_content_bytes_def) blast
qed

text \<open>The answer to a query for real-time data; its water level leaves the base value out.\<close>

lemma QueryRealData_ok:
  assumes idle: "busy (world s) = 0" and level: "code (world s) = gray_encode (of_nat n)" "n < 2 ^ 13"
    and p: "p = stored_parameters (cells (world s))"
    and rain: "g_rainfall_pluse_count s = of_nat k" "k < 200000" "last_rainfall_pluse_count s = of_nat j" "j \<le> k"
  shows "\<exists>s' m l. QueryRealData_Init b s = Some s' \<and> m = g_queryrealdata_upmessage s' \<and>
    crc16 (queryrealdata_bytes m) = 0 \<and> length (queryrealdata_bytes m) = 60 \<and>
    h_remote_addr (m_header m) = rtu_remote_addr p \<and> c_sn (m_content m) = swap16 (sn s) \<and>
    precipit_data (m_content m) = store3 (of_nat (bcd_of (5 * (k - j)))) \<and>
    rd_cumula_precipit_data (m_content m) = store3 (of_nat (bcd_of (5 * k))) \<and>
    rd_water_level_data (m_content m) = store4 (of_nat (bcd_of l)) \<and> (l = 10 * n \<or> l + 1 = 10 * n) \<and>
    sn s' = sn s + 1 \<and> last_rainfall_pluse_count s' = of_nat k \<and>
    cells (world s') = cells (world s) \<and> busy (world s') = 0 \<and> code (world s') = code (world s)"
proof -
  obtain w1 where 1: "RTU_parameters_Readdata b s = (p, s\<lparr>world := w1\<rparr>)" "cells w1 = cells (world s)" "busy w1 = 0"
    "code w1 = code (world s)"
    using parameters_reading [OF idle] p by metis
  obtain t w2 where 2: "read_systime b (s\<lparr>world := w1\<rparr>) = (t, s\<lparr>world := w2\<rparr>)" "cells w2 = cells w1" "busy w2 = busy w1"
    "code w2 = code w1"
    by (rule clock_reading [of "s\<lparr>world := w1\<rparr>"]) simp
  have "code w2 = gray_encode (of_nat n)" using 1 2 level by simp
  from gauge_reading [OF this level(2)]
  obtain w3 where 3: "GetWaterLevelData b w2 = (w3, of_nat n)" "cells w3 = cells w2" "busy w3 = busy w2" "code w3 = code w2" .
  have un: "uint (of_nat n :: u32) = int n" using level(2) by (simp add: unsigned_of_nat take_bit_nat_eq_self)
  have "10 * n < 2 ^ 21" using level(2) by simp
  then obtain l where l: "l = 10 * n \<or> l + 1 = 10 * n" "FloatoHex 8 3 (waterlevel_raw (int n)) = Some (of_nat (bcd_of l))"
    using raw_level_store by blast
  have diff: "of_nat k - of_nat j = (of_nat (k - j) :: u32)" using rain(4) by simp
  have five: "FloatoHex 6 (Suc 0) (rainfall_float (of_nat (k - j))) = Some (of_nat (bcd_of (5 * (k - j))))"
    and all: "FloatoHex 6 (Suc 0) (rainfall_float (of_nat k)) = Some (of_nat (bcd_of (5 * k)))"
    using rainfall_store [of "of_nat (k - j)"] rainfall_store [of "of_nat k"] rain by (simp_all del: of_nat_diff)
  note sizes = param_lengths [OF param_wf_stored [of "cells (world s)"], folded p]
  show ?thesis
    using 1 2(2-4) 3(2-4) idle l(1) sizes
    by (simp add: QueryRealData_Init_def element_decimals 2(1) un 3(1) l(2) rain(1,3) diff five all Let_def
      message_checksum message_checked message_body_def layout_simps queryrealdata_content_bytes_def del: of_nat_diff) blast
qed

text \<open>Storing and reading a sample, with what else stays.\<close>

lemma Save_keeps_gauge:
  assumes "SaveDataToFlash b d t data n s = Some (r, s')"
  shows "code (world s') = code (world s)"
proof -
  obtain x md where g: "GetAddress d t (s_monthday s) = Some (x, md)"
    using assms by (auto simp: SaveDataToFlash_def bind_eq_Some_conv)
  show ?thesis
    using assms by (cases x) (auto simp: SaveDataToFlash_def g flash_write_def bind_eq_Some_conv simp del: of_nat_mult
        dest!: bus.Write_keeps)
qed

lemma Read_keeps_gauge:
  assumes "ReadDataFromFlash b d t buf n s = Some (r, bs, s')"
  shows "code (world s') = code (world s)"
proof -
  obtain x md where g: "GetAddress d t (s_monthday s) = Some (x, md)"
    using assms by (auto simp: ReadDataFromFlash_def bind_eq_Some_conv)
  show ?thesis
    using assms by (cases x) (auto simp: ReadDataFromFlash_def g flash_read_def bind_eq_Some_conv split_beta Let_def)
qed

text \<open>The five-minute sample: both values end up in their slots.\<close>

lemma SaveAndGetData_ok:
  assumes idle: "busy (world s) = 0" and md: "md_ok (s_monthday s)"
    and level: "code (world s) = gray_encode (of_nat n)" "n < 2 ^ 13"
    and clock: "\<And>w. fst (snd (RTC_ReadDate b t0 w)) = t"
    and date: "d = TimeDefTodate t" "valid_date d" "unat (d_minute d) mod 5 = 0"
    and p: "p = stored_parameters (cells (world s))" and base: "waterlevel_basevalue_1 p = store4 (of_nat (bcd_of base))"
    and range: "10 * n + base < 2 ^ 21" and rain: "g_rainfall_pluse_count s = of_nat k" "k < 200000"
  shows "\<exists>s' l. SaveAndGetData_FiveMinute b t0 s = Some (store3 (of_nat (bcd_of (5 * k))), store4 (of_nat (bcd_of l)), s') \<and>
    (l = 10 * n + base \<or> l + 1 = 10 * n + base) \<and> busy (world s') = 0 \<and> md_ok (s_monthday s') \<and>
    cells (world s') = mem_write (mem_write (cells (world s)) (slot_addr d 0) (store3 (of_nat (bcd_of (5 * k)))))
      (slot_addr d 1) (store4 (of_nat (bcd_of l)))"
proof -
  define w0 where "w0 = snd (snd (RTC_ReadDate b t0 (world s)))"
  have 0: "cells w0 = cells (world s)" "busy w0 = busy (world s)" "code w0 = code (world s)"
    unfolding w0_def using pins.RTC_ReadDate_keeps [of t0 "world s"] by (simp_all only: prod.inject)
  obtain c where r: "RTC_ReadDate b t0 (world s) = (c, t, w0)"
    using clock [of "world s"] by (cases "RTC_ReadDate b t0 (world s)") (simp add: w0_def)
  have "busy (world (s\<lparr>world := w0\<rparr>)) = 0" using 0 idle by simp
  from parameters_reading [OF this]
  obtain w1 where 1: "RTU_parameters_Readdata b (s\<lparr>world := w0\<rparr>) = (p, s\<lparr>world := w1\<rparr>)" "cells w1 = cells (world s)"
    "busy w1 = 0" "code w1 = code (world s)"
    using 0 p by (metis base.select_convs(1) base.surjective base.update_convs(1))
  have bv: "BCDSendataToFloat 0x23 (waterlevel_basevalue_1 p) = Some (unscale10 3 (f32 (of_nat base)))"
    unfolding base using range by (intro base_value) simp
  have rs: "GetBCDSendata 0x2619 (rainfall_float (g_rainfall_pluse_count s)) = Some (of_nat (bcd_of (5 * k)))"
    using rainfall_store [of "of_nat k"] rain by (simp add: element_decimals)
  let ?s1 = "s\<lparr>world := w1\<rparr>" and ?rain = "store3 (of_nat (bcd_of (5 * k)))"
  have "md_ok (s_monthday ?s1)" "busy (world ?s1) = 0" "length ?rain = slot_len 0"
    using md 1 by (simp_all add: slot_len_def)
  from save_ok [OF date(2,3) this]
  obtain md2 w2 where 2: "SaveDataToFlash b d 0 ?rain 1 ?s1 = Some (0, ?s1\<lparr>s_monthday := md2, world := w2\<rparr>)" "busy w2 = 0" "md_ok md2"
    "cells w2 = mem_write (cells (world ?s1)) (slot_addr d 0) ?rain" by blast
  have "code w2 = gray_encode (of_nat n)" using Save_keeps_gauge [OF 2(1)] 1(4) level(1) by simp
  from gauge_reading [OF this level(2)]
  obtain w3 where 3: "GetWaterLevelData b w2 = (w3, of_nat n)" "cells w3 = cells w2" "busy w3 = busy w2" .
  obtain l where l: "l = 10 * n + base \<or> l + 1 = 10 * n + base"
    "FloatoHex 8 3 (f32 (waterlevel_raw (int n) + unscale10 3 (f32 (of_nat base)))) = Some (of_nat (bcd_of l))"
    using level_store [OF range] by blast
  have ws: "GetBCDSendata 0x3923 (waterlevel_float (of_nat n) (unscale10 3 (f32 (of_nat base)))) = Some (of_nat (bcd_of l))"
    using l(2) level(2) by (simp add: element_decimals waterlevel_float_def waterlevel_raw_def)
  let ?s3 = "?s1\<lparr>s_monthday := md2, world := w3\<rparr>" and ?level = "store4 (of_nat (bcd_of l))"
  have "md_ok (s_monthday ?s3)" "busy (world ?s3) = 0" "length ?level = slot_len 0x23"
    using 2 3 by (simp_all add: slot_len_def)
  from save_ok [OF date(2,3) this]
  obtain md4 w4 where 4: "SaveDataToFlash b d 0x23 ?level 1 ?s3 = Some (0, ?s3\<lparr>s_monthday := md4, world := w4\<rparr>)" "busy w4 = 0"
    "md_ok md4" "cells w4 = mem_write (cells (world ?s3)) (slot_addr d 0x23) ?level" by blast
  have slot: "slot_addr d 0x23 = slot_addr d 1" by (simp add: slot_addr_def slot_len_def region_def)
  have "SaveAndGetData_FiveMinute b t0 s = Some (?rain, ?level, ?s3\<lparr>s_monthday := md4, world := w4\<rparr>)"
    by (simp add: SaveAndGetData_FiveMinute_def r 1(1) bv rs 2(1) [simplified] date(1) [symmetric] 3(1) ws 4(1) [simplified])
  moreover have "cells w4 = mem_write (mem_write (cells (world s)) (slot_addr d 0) ?rain) (slot_addr d 1) ?level"
    using 1(2) 2(4) 3(2) 4(4) by (simp add: slot)
  ultimately show ?thesis using l(1) 4(2,3)
    by (intro exI [of _ "?s3\<lparr>s_monthday := md4, world := w4\<rparr>"] exI [of _ l]) simp
qed

end

end
