(* ===== verification/Periods.thy ===== *)
theory Periods
  imports Reports
begin

text \<open>
  Stored data of a period: how many hours a period has, against the calendar; what a packet
  holds; where the packets of a long period start.
\<close>

section \<open>The length of a period\<close>

definition hour_count :: "date_t \<Rightarrow> nat" where
  "hour_count d = year_day d * 24 + unat (d_hour d)"

lemma nibble_bounds: "unat (drop_bit 4 (y :: u8)) < 16" "unat (y AND 0x0f) < 16"
proof -
  have "unat (drop_bit 4 y) = unat y div 16" by (simp only: unat_drop_bit_eq) (simp add: drop_bit_eq_div)
  then show "unat (drop_bit 4 y) < 16" using unsigned_less [of y, where ?'a = nat] by simp
  have "y AND 0x0f = take_bit 4 y" by (rule bit_word_eqI) (auto simp: bit_simps less_Suc_eq numeral_eq_Suc)
  then have "unat (y AND 0x0f) = take_bit 4 (unat y)" by (simp only: unsigned_take_bit_eq)
  then show "unat (y AND 0x0f) < 16" by (simp add: take_bit_eq_mod)
qed

lemma decoded_year:
  "(2000 + ucast (drop_bit 4 y) * 10 + ucast (y AND 0x0f) :: u16) = of_nat (unat (BCDToInteger y) + 2000)"
proof -
  define h l where "h = unat (drop_bit 4 y)" and "l = unat (y AND 0x0f)"
  have b: "h * 10 + l < 2 ^ LENGTH(8)" using nibble_bounds [of y] by (simp add: h_def l_def)
  have "BCDToInteger y = of_nat (h * 10 + l)" by (simp add: BCDToInteger_def h_def l_def)
  then have "unat (BCDToInteger y) = h * 10 + l" using b by (simp only: unat_of_nat_small)
  moreover have "(ucast (drop_bit 4 y) :: u16) = of_nat h" "(ucast (y AND 0x0f) :: u16) = of_nat l"
    by (simp_all add: h_def l_def)
  ultimately show ?thesis by simp
qed

lemma GetMonthDays_ok:
  assumes "md_ok md"
  shows "\<exists>days md'. GetMonthDays y md = (days, md') \<and> md_ok md' \<and> length days = 12 \<and>
    (\<forall>i < 12. unat (days ! i) = month_len (unat (BCDToInteger y) + 2000) i)"
proof -
  define n where "n = unat (BCDToInteger y) + 2000"
  have n: "n < 65536" using unsigned_less [of "BCDToInteger y", where ?'a = nat] by (simp add: n_def)
  note leap = Isleapyear_ok [OF assms n]
  have "GetMonthDays y md = (map ucast (Isleapyear (of_nat n) md), Isleapyear (of_nat n) md)"
    unfolding GetMonthDays_def decoded_year n_def [symmetric] by (simp add: Let_def)
  moreover have "unat (map ucast (Isleapyear (of_nat n) md) ! i :: u8) = month_len n i" if "i < 12" for i
  proof -
    have "unat (Isleapyear (of_nat n) md ! i) < 2 ^ LENGTH(8)"
      using leap(2) [OF that] month_len_bounds [OF that, of n] by simp
    then show ?thesis using leap(2,3) that by (simp add: unat_ucast_small)
  qed
  ultimately show ?thesis using leap(1,3) n_def by auto
qed

lemma month_groups_ok:
  assumes "length days = 12" and "\<And>i. i < 12 \<Longrightarrow> unat (days ! i) = f i" and "j \<le> 12"
  shows "month_groups days [i..<j] acc = Some (acc + of_nat (span f i j * 24))"
proof (induction "j - i" arbitrary: i acc)
  case (Suc k)
  then have "i < j" by simp
  then have "(ucast (days ! i) :: u32) = of_nat (f i)" using assms(2) [of i] assms(3) by (metis of_nat_unat order_less_le_trans)
  then show ?case using Suc.hyps(1) [of "Suc i" "acc + of_nat (f i) * 24"] Suc.hyps(2) \<open>i < j\<close> assms
    by (simp add: upt_conv_Cons span_first algebra_simps)
qed simp

lemma hour_groups_ok:
  assumes v: "valid_date (TimeperiodToDate st)" "valid_date (TimeperiodToDate en)"
    and y: "d_year (TimeperiodToDate st) = d_year (TimeperiodToDate en)"
    and le: "hour_count (TimeperiodToDate st) \<le> hour_count (TimeperiodToDate en)"
    and midnight: "year_day (TimeperiodToDate st) = year_day (TimeperiodToDate en) \<Longrightarrow> d_hour (TimeperiodToDate en) \<noteq> 0"
    and md: "md_ok md"
  shows "\<exists>md'. md_ok md' \<and> GetHourGroupsByTimperiod st en md =
    Some (of_nat (hour_count (TimeperiodToDate en) - hour_count (TimeperiodToDate st)), md')"
proof -
  define sd ed where "sd = TimeperiodToDate st" and "ed = TimeperiodToDate en"
  let ?len = "month_len (cal_year sd)"
  obtain days md' where days: "GetMonthDays (e_year st) md = (days, md')" "md_ok md'" "length days = 12"
    "\<And>i. i < 12 \<Longrightarrow> unat (days ! i) = ?len i"
    using GetMonthDays_ok [OF md, of "e_year st"] by (auto simp: cal_year_def sd_def TimeperiodToDate_def)
  have cy: "cal_year ed = cal_year sd" using y by (simp add: cal_year_def sd_def ed_def)
  define ms me ds de hs he where "ms = unat (d_month sd)" and "me = unat (d_month ed)" and "ds = unat (d_day sd)"
    and "de = unat (d_day ed)" and "hs = unat (d_hour sd)" and "he = unat (d_hour ed)"
  have bounds: "1 \<le> ms" "ms \<le> 12" "1 \<le> me" "me \<le> 12" "1 \<le> ds" "1 \<le> de" "ds \<le> ?len (ms - 1)" "hs < 24" "he < 24"
    using v cy by (simp_all add: valid_date_def sd_def [symmetric] ed_def [symmetric] ms_def me_def ds_def de_def hs_def he_def)
  have u: "uint (d_month sd) = int ms" "uint (d_month ed) = int me" "uint (d_day sd) = int ds" "uint (d_day ed) = int de"
    "uint (d_hour sd) = int hs" "uint (d_hour ed) = int he"
    by (simp_all add: ms_def me_def ds_def de_def hs_def he_def)
  have yd: "year_day sd = span ?len 0 (ms - 1) + (ds - 1)" "year_day ed = span ?len 0 (me - 1) + (de - 1)"
    by (simp_all add: year_day_def cy ms_def me_def ds_def de_def)
  let ?n = "hour_count ed - hour_count sd"
  have le': "hour_count sd \<le> hour_count ed" using le by (simp add: sd_def ed_def)
  have "\<exists>md'. md_ok md' \<and> GetHourGroupsByTimperiod st en md = Some (of_nat ?n, md')"
  proof (cases "d_month ed = d_month sd")
    case True
    then have me: "me = ms" by (simp add: me_def ms_def)
    show ?thesis
    proof (cases "d_day ed = d_day sd")
      case True
      then have "de = ds" by (simp add: de_def ds_def)
      then have h: "hs \<le> he" "?n = he - hs" using le' yd me by (simp_all add: hour_count_def hs_def he_def)
      have "d_hour ed \<noteq> 0" using midnight yd me \<open>de = ds\<close> by (simp add: sd_def ed_def)
      moreover have "(ucast (d_hour ed) - of_nat hs :: u32) = of_nat (he - hs)"
        using h(1) of_nat_unat [of "d_hour ed", symmetric] by (simp add: he_def)
      ultimately show ?thesis
        using True \<open>d_month ed = d_month sd\<close> days(1,2) h(2)
        by (simp add: GetHourGroupsByTimperiod_def sd_def [symmetric] ed_def [symmetric] u)
    next
      case False
      have "ds < de"
      proof (rule ccontr)
        assume "\<not> ds < de"
        moreover have "de \<noteq> ds" using False by (simp add: de_def ds_def word_unat_eq_iff [where 'a = 8])
        ultimately have "year_day ed < year_day sd" using yd me bounds(6) by simp
        then show False using le' bounds(8,9) by (simp add: hour_count_def hs_def he_def)
      qed
      then have "int ?n = (int de - int ds - 1) * 24 + (24 - int hs) + int he"
        using yd me bounds le' by (simp add: hour_count_def hs_def [symmetric] he_def [symmetric] of_nat_diff algebra_simps)
      then have "(word_of_int ((int de - int ds - 1) * 24 + (24 - int hs) + int he) :: u32) = of_nat ?n"
        by (metis of_int_of_nat_eq)
      then show ?thesis
        using False \<open>d_month ed = d_month sd\<close> days(1,2)
        by (simp add: GetHourGroupsByTimperiod_def sd_def [symmetric] ed_def [symmetric] u)
    qed
  next
    case False
    have "ms < me"
    proof (rule ccontr)
      assume "\<not> ms < me"
      moreover have "me \<noteq> ms" using False by (simp add: me_def ms_def word_unat_eq_iff [where 'a = 8])
      ultimately have "unat (d_month ed) < unat (d_month sd)" by (simp add: me_def ms_def)
      from earlier_month [OF v(2,1) _ this [unfolded sd_def ed_def]] have "year_day ed < year_day sd"
        using cy by (simp add: sd_def ed_def)
      then show False using le' bounds(8,9) by (simp add: hour_count_def hs_def he_def)
    qed
    define interval where "interval = me - ms - 1"
    have iv: "(word_of_int (int me - int ms - 1) :: u8) = of_nat interval" "ms + interval = me - 1"
      using \<open>ms < me\<close> by (simp_all add: interval_def of_nat_diff)
    have "interval < 2 ^ LENGTH(8)" using bounds by (simp add: interval_def)
    then have ui: "unat (of_nat interval :: u8) = interval" by (rule unat_of_nat_small)
    have groups: "month_groups days [ms..<me - 1] 0 = Some (of_nat (span ?len ms (me - 1) * 24))"
      using month_groups_ok [OF days(3,4), of "me - 1" ms 0] bounds(4) by simp
    have last: "rd days (ms - 1) = Some (days ! (ms - 1))" "uint (days ! (ms - 1)) = int (?len (ms - 1))"
      using days(3) days(4) [of "ms - 1"] bounds(1,2) by (simp_all only: uint_nat) simp_all
    have uc: "(ucast (days ! (ms - Suc 0)) :: u32) = of_nat (?len (ms - Suc 0))"
      using days(4) [of "ms - Suc 0"] bounds(1,2) of_nat_unat [of "days ! (ms - Suc 0)", symmetric] by simp
    have "span ?len 0 (me - 1) = span ?len 0 (ms - 1) + ?len (ms - 1) + span ?len ms (me - 1)"
    proof -
      have "[0..<me - 1] = [0..<ms] @ [ms..<me - 1]" using \<open>ms < me\<close> by (metis Suc_pred' bounds(3) le0 le_add_diff_inverse less_Suc_eq_le less_le_trans upt_add_eq_append zero_less_one)
      moreover have "span ?len 0 ms = span ?len 0 (ms - 1) + ?len (ms - 1)"
        using span_last [of 0 "ms - 1" ?len] bounds(1) by simp
      ultimately show ?thesis by (simp add: span_def)
    qed
    then have "int ?n = int (span ?len ms (me - 1) * 24) + ((int (?len (ms - 1)) - int ds) * 24 + (24 - int hs))
        + ((int de - 1) * 24 + int he)"
      using yd bounds le' by (simp add: hour_count_def hs_def [symmetric] he_def [symmetric] of_nat_diff algebra_simps)
    then have sum: "of_nat (span ?len ms (me - 1) * 24) + word_of_int ((int (?len (ms - 1)) - int ds) * 24 + (24 - int hs))
        + word_of_int ((int de - 1) * 24 + int he) = (of_nat ?n :: u32)"
      by (metis (no_types, lifting) of_int_add of_int_of_nat_eq)
    have "GetHourGroupsByTimperiod st en md = Some (of_nat ?n, md')"
      unfolding GetHourGroupsByTimperiod_def Let_def sd_def [symmetric] ed_def [symmetric] days(1) prod.case u iv(1)
        ms_def [symmetric] ui iv(2) groups bind.bind_lunit
      using False bounds(1) by (simp only: if_False last bind.bind_lunit sum not_one_le_zero) (simp add: last uc sum [simplified] del: of_nat_diff)
    then show ?thesis using days(2) by blast
  qed
  then show ?thesis by (simp add: sd_def ed_def)
qed

section \<open>Packets\<close>

definition data_frame :: "querrytimeperiod_upmessage_t \<Rightarrow> u8 list \<Rightarrow> u8 list" where
  "data_frame m data =
     (let body = querrytimeperiod_up_bytes m @ data @ [0x17] in body @ rev (le16 (crc16 body)))"

lemma length_timeperiod_up:
  assumes "length (h_remote_addr (q_header m)) = 5" "length (q_total_pkts_sn m) = 3" "length (c_remote_addr (q_content m)) = 5"
    "length (up_time_period_id (q_content m)) = 5"
  shows "length (querrytimeperiod_up_bytes m) = 47"
  using assms by (simp add: querrytimeperiod_up_bytes_def layout_simps)

definition up_wf :: "querrytimeperiod_upmessage_t \<Rightarrow> bool" where
  "up_wf m \<longleftrightarrow> length (h_remote_addr (q_header m)) = 5 \<and> length (q_total_pkts_sn m) = 3 \<and>
     length (c_remote_addr (q_content m)) = 5 \<and> length (up_time_period_id (q_content m)) = 5"

lemma up_wf_length: "up_wf m \<Longrightarrow> length (querrytimeperiod_up_bytes m) = 47"
  by (simp add: up_wf_def length_timeperiod_up)

lemma up_wf_updates [simp]:
  "up_wf (with_data a n m) = up_wf m" "up_wf (with_frame_length l m) = up_wf m"
  "up_wf (m\<lparr>q_content := (q_content m)\<lparr>c_sn := i\<rparr>\<rparr>) = up_wf m"
  "length p = 3 \<Longrightarrow> up_wf m \<Longrightarrow> up_wf (m\<lparr>q_total_pkts_sn := p\<rparr>)"
  by (simp_all add: up_wf_def with_data_def with_frame_length_def)

lemma length_numbered [simp]: "length (numbered_pkts_sn i p) = 3"
  by (simp add: numbered_pkts_sn_def)

context station
begin

text \<open>A packet sent over RS232: header, the flash cells, end mark, checksum high byte first.\<close>

lemma upframe_ok:
  assumes idle: "busy (world s) = 0" and wf: "up_wf m"
    and range: "unat (start_addr (q_content m)) + n \<le> 2 ^ 24" "data_length (q_content m) = of_nat n" "n \<le> 750"
  shows "\<exists>w. SendTimePerioadData_upframe b m RS232_3 s =
      Some (m\<lparr>q_content := (q_content m)\<lparr>c_sn := swap16 (sn s)\<rparr>\<rparr>,
        s\<lparr>world := rs232_tx b (data_frame (m\<lparr>q_content := (q_content m)\<lparr>c_sn := swap16 (sn s)\<rparr>\<rparr>)
            (mem_read (cells (world s)) (unat (start_addr (q_content m))) n)) w, sn := sn s + 1\<rparr>) \<and>
    w = fst (W25QXX_Read (spi1 b) (world s) (start_addr (q_content m)) (ucast (of_nat n :: u32))) \<and> cells w = cells (world s) \<and> busy w = 0"
proof -
  let ?m = "m\<lparr>q_content := (q_content m)\<lparr>c_sn := swap16 (sn s)\<rparr>\<rparr>"
  have n: "unat (ucast (of_nat n :: u32) :: u16) = n" "unat (of_nat n :: u32) = n"
    using range(3) by (simp_all add: unat_ucast_small)
  obtain w where w: "flash_read b (start_addr (q_content m)) (ucast (of_nat n :: u32)) s =
      (mem_read (cells (world s)) (unat (start_addr (q_content m))) n, s\<lparr>world := w\<rparr>)" "busy w = 0" "cells w = cells (world s)"
    using flash_read_ok [OF idle, of "start_addr (q_content m)" "ucast (of_nat n :: u32)"] range(1) unfolding n by auto
  have e: "w = fst (W25QXX_Read (spi1 b) (world s) (start_addr (q_content m)) (ucast (of_nat n :: u32)))"
    using w(1) by (cases s) (auto simp: flash_read_def split_beta Let_def)
  have l: "length (querrytimeperiod_up_bytes ?m) = 47" by (rule up_wf_length) (simp add: wf)
  have "ucast (c AND 0x00ff) = (ucast c :: u8)" for c :: u16
    by (rule bit_word_eqI) (auto simp: bit_simps numeral_eq_Suc less_Suc_eq)
  then show ?thesis
    using w l range(3) e
    by (intro exI [of _ w]) (simp add: SendTimePerioadData_upframe_def range(2) n CRC16_MODBUS_eq RS232_3_Send_buf_def
        data_frame_def Let_def le16_def TIME_PERIOD_MAX_LEN_def)
qed

end

end
