(* ===== verification/Samples.thy ===== *)
theory Samples
  imports Periods
begin

text \<open>
  What the samples in flash do to each other and to the parameters: two samples of one year, of
  years of different parity or of different kind lie apart, so a sample is read back whatever has
  been saved since, and no sample touches the parameters. Commands that store parameters and the
  message that answers with them.
\<close>

section \<open>Samples lie apart\<close>

definition apart :: "date_t \<Rightarrow> u8 \<Rightarrow> date_t \<Rightarrow> u8 \<Rightarrow> bool" where
  "apart d t d' t' \<longleftrightarrow> (t = 0) \<noteq> (t' = 0) \<or> unat (d_year d) mod 2 \<noteq> unat (d_year d') mod 2 \<or>
     d_year d = d_year d' \<and> d \<noteq> d'"

lemma region_step:
  "region d t = (if t = 0 then 0 else 0x400000) \<or> region d t = 0x800000 + (if t = 0 then 0 else 0x400000)"
  by (cases "even (unat (d_year d))") (simp_all add: region_def mod2_eq_if)

lemma scaled_apart: "i \<noteq> j \<Longrightarrow> k * i + k \<le> k * j \<or> k * j + k \<le> k * i" for i j k :: nat
proof (cases "i < j")
  case True
  then have "k * Suc i \<le> k * j" by (intro mult_le_mono) simp_all
  then show ?thesis by simp
next
  case False
  assume "i \<noteq> j"
  then have "k * Suc j \<le> k * i" using False by (intro mult_le_mono) simp_all
  then show ?thesis by simp
qed

lemma slots_apart:
  assumes v: "valid_date d" "valid_date d'" and m5: "unat (d_minute d) mod 5 = 0" "unat (d_minute d') mod 5 = 0"
    and a: "apart d t d' t'"
  shows "slot_addr d t + slot_len t \<le> slot_addr d' t' \<or> slot_addr d' t' + slot_len t' \<le> slot_addr d t"
proof (cases "region d t = region d' t'")
  case True
  then have k: "(t = 0) = (t' = 0)" and y: "unat (d_year d) mod 2 = unat (d_year d') mod 2"
    by (auto simp: region_def mod2_eq_if split: if_splits)
  then have "d_year d = d_year d'" "d \<noteq> d'" using a by (simp_all add: apart_def)
  then have "slot d \<noteq> slot d'" using slot_inj [OF v _ m5] by blast
  moreover have "slot_len t = slot_len t'" using k by (simp add: slot_len_def)
  ultimately show ?thesis using scaled_apart [of "slot d" "slot d'" "slot_len t"] True by (simp add: slot_addr_def)
next
  case False
  have "region d t + 0x400000 \<le> region d' t' \<or> region d' t' + 0x400000 \<le> region d t"
    using False region_step [of d t] region_step [of d' t'] by (auto split: if_splits)
  moreover have "region d t \<le> slot_addr d t" "region d' t' \<le> slot_addr d' t'" by (simp_all add: slot_addr_def)
  ultimately show ?thesis using slot_in_region [OF v(1), of t] slot_in_region [OF v(2), of t'] by (auto split: if_splits)
qed

lemma slot_spares_parameters:
  assumes "valid_date d"
  shows "slot_addr d t + slot_len t \<le> 0x080000 \<or> 0x080010 + 121 \<le> slot_addr d t"
proof -
  have "region d t \<le> slot_addr d t" by (simp add: slot_addr_def)
  then show ?thesis using slot_in_region [OF assms, of t] region_step [of d t] by (auto split: if_splits)
qed

lemma stored_parameters_sample:
  assumes "valid_date d" and "length bs = slot_len t"
  shows "stored_parameters (mem_write m (slot_addr d t) bs) = stored_parameters m"
  using slot_spares_parameters [OF assms(1), of t] assms(2)
  by (auto simp: stored_parameters_def mem_read_write_other)

context flash_board
begin

lemma stored_read:
  assumes "busy (world s) = 0"
  shows "\<exists>w. RTU_parameters_Readdata b s = (stored_parameters (cells (world s)), s\<lparr>world := w\<rparr>) \<and> busy w = 0 \<and>
    cells w = cells (world s)"
  using flash_read_ok [OF assms, of IDR_RTU_PARAMETERS 121]
  by (auto simp: RTU_parameters_Readdata_def IDR_RTU_PARAMETERS_def stored_parameters_def)

text \<open>A sample is read back after another has been saved.\<close>

lemma sample_survives:
  assumes v: "valid_date d" "valid_date d'" and m5: "unat (d_minute d) mod 5 = 0" "unat (d_minute d') mod 5 = 0"
    and a: "apart d t d' t'" and md: "md_ok (s_monthday s)" and idle: "busy (world s) = 0"
    and l: "length x = slot_len t" "length y = slot_len t'" "length buf = slot_len t"
  shows "\<exists>s1 s2 s3. SaveDataToFlash b d t x 1 s = Some (0, s1) \<and> SaveDataToFlash b d' t' y 1 s1 = Some (0, s2) \<and>
    ReadDataFromFlash b d t buf (slot_len t) s2 = Some (0, x, s3)"
proof -
  from save_ok [OF v(1) m5(1) md idle l(1)]
  obtain md1 w1 where 1: "SaveDataToFlash b d t x 1 s = Some (0, s\<lparr>s_monthday := md1, world := w1\<rparr>)" "busy w1 = 0" "md_ok md1"
    "cells w1 = mem_write (cells (world s)) (slot_addr d t) x" by blast
  let ?s1 = "s\<lparr>s_monthday := md1, world := w1\<rparr>"
  have "md_ok (s_monthday ?s1)" "busy (world ?s1) = 0" using 1 by simp_all
  from save_ok [OF v(2) m5(2) this l(2)]
  obtain md2 w2 where 2: "SaveDataToFlash b d' t' y 1 ?s1 = Some (0, ?s1\<lparr>s_monthday := md2, world := w2\<rparr>)" "busy w2 = 0"
    "md_ok md2" "cells w2 = mem_write (cells (world ?s1)) (slot_addr d' t') y" by blast
  let ?s2 = "?s1\<lparr>s_monthday := md2, world := w2\<rparr>"
  have s2: "md_ok (s_monthday ?s2)" "busy (world ?s2) = 0" using 2 by simp_all
  have b: "slot_addr d t + slot_len t \<le> 2 ^ 24" "slot_len t < 65536"
    using slot_word(2) [OF v(1), of t] by (simp_all add: slot_len_def)
  from read_data_ok [OF v(1) m5(1) s2 b l(3)]
  obtain md3 w3 where "ReadDataFromFlash b d t buf (slot_len t) ?s2 =
      Some (0, mem_read (cells (world ?s2)) (slot_addr d t) (slot_len t), ?s2\<lparr>s_monthday := md3, world := w3\<rparr>)" by blast
  moreover have "mem_read (cells (world ?s2)) (slot_addr d t) (slot_len t) = x"
    using slots_apart [OF v m5 a] l(1,2) mem_read_write_same [of "cells (world s)" "slot_addr d t" x]
    by (auto simp: 2(4) 1(4) mem_read_write_other)
  ultimately show ?thesis using 1(1) 2(1) by auto
qed

text \<open>Saving a sample leaves the stored parameters.\<close>

lemma sample_spares_parameters:
  assumes "valid_date d" and "unat (d_minute d) mod 5 = 0" and "md_ok (s_monthday s)" and "busy (world s) = 0"
    and "length x = slot_len t"
  shows "\<exists>s'. SaveDataToFlash b d t x 1 s = Some (0, s') \<and>
    fst (RTU_parameters_Readdata b s') = fst (RTU_parameters_Readdata b s)"
proof -
  from save_ok [OF assms]
  obtain md1 w1 where 1: "SaveDataToFlash b d t x 1 s = Some (0, s\<lparr>s_monthday := md1, world := w1\<rparr>)" "busy w1 = 0"
    "cells w1 = mem_write (cells (world s)) (slot_addr d t) x" by blast
  let ?s1 = "s\<lparr>s_monthday := md1, world := w1\<rparr>"
  have "busy (world ?s1) = 0" using 1(2) by simp
  from stored_read [OF this] stored_read [OF assms(4)] show ?thesis
    using 1 stored_parameters_sample [OF assms(1,5)] by auto
qed

end

section \<open>Setting and answering parameters\<close>

text \<open>The values of a parameter message, without the guide words.\<close>

definition guided_values :: "setparameter_content_t \<Rightarrow> u8 list list" where
  "guided_values c = [snd (sp_center_addr c), snd (sp_rtu_remote_addr c), snd (sp_password c), snd (sp_center_1_main_channel c),
     snd (sp_center_1_spare_channel c), snd (sp_center_2_main_channel c), snd (sp_center_2_spare_channel c),
     snd (sp_center_3_main_channel c), snd (sp_center_3_spare_channel c), snd (sp_center_4_main_channel c),
     snd (sp_center_4_spare_channel c), [snd (sp_work_style c)], snd (sp_remote_collect_factor c),
     [snd (sp_time_interval_of_timing_message c)], [snd (sp_time_interval_of_plus_message c)],
     [snd (sp_rainfall_day_start_time c)], snd (sp_sampling_interval c), [snd (sp_waterlevel_save_interval c)],
     [snd (sp_rainfall_resolution c)], [snd (sp_waterlevel_resolution c)],
     [snd (sp_threshold_rainfall_value_of_plusemessage c)], snd (sp_waterlevel_plusmessage_1 c),
     snd (sp_above_threshold_waterlevel_value_of_plusmeessage c), snd (sp_below_threshold_waterlevel_value_of_plusmessage c),
     snd (sp_flow_threshold_plusmessage c)]"

text \<open>The values of a parameter block that such a message carries.\<close>

definition message_values :: "RTU_operation_parameters_t \<Rightarrow> u8 list list" where
  "message_values p = take 21 (param_chunks p) @ drop 23 (param_chunks p)"

lemma set_parameters_values: "message_values (set_parameters_of q c) = guided_values c"
  by (simp add: message_values_def guided_values_def set_parameters_of_def param_chunks_def)

lemma query_parameters_values:
  "QueryParameters_Init b p s = (m, s') \<Longrightarrow> guided_values (m_content m) = message_values p"
  by (auto simp: QueryParameters_Init_def message_values_def guided_values_def param_chunks_def split_beta Let_def)

lemma set_parameters_wf: "setparameter_wf c \<Longrightarrow> param_wf q \<Longrightarrow> param_wf (set_parameters_of q c)"
  by (simp add: setparameter_wf_def param_wf_def set_parameters_of_def setparameter_content_chunks_def param_chunks_def
      setparameter_sizes_def param_sizes_def guided_bytes_def guided1_bytes_def)

context flash_board
begin

lemma SetParameters_ok:
  assumes "busy (world s) = 0" and wf: "setparameter_wf c" "param_wf (stack_parameters s)"
  shows "\<exists>w. SetParameters b c s = Some (s\<lparr>world := w\<rparr>) \<and> busy w = 0 \<and>
    stored_parameters (cells w) = set_parameters_of (stack_parameters s) c"
proof -
  let ?p = "set_parameters_of (stack_parameters s) c"
  have p: "param_wf ?p" using wf by (rule set_parameters_wf)
  note l = length_param_bytes [OF p]
  have "\<exists>w. flash_write b (param_bytes ?p) IDR_RTU_PARAMETERS 121 s = Some (s\<lparr>world := w\<rparr>) \<and> busy w = 0 \<and>
    cells w = mem_write (cells (world s)) 0x080010 (param_bytes ?p)"
    using flash_write_ok [OF assms(1), where n = 121 and a = IDR_RTU_PARAMETERS and bs = "param_bytes ?p"] l by (simp add: IDR_RTU_PARAMETERS_def)
  moreover have "stored_parameters (mem_write m 0x080010 (param_bytes ?p)) = ?p" for m
    using mem_read_write_same [of m "0x080010" "param_bytes ?p"] by (simp add: stored_parameters_def l param_of_bytes [OF p])
  ultimately show ?thesis by (auto simp: SetParameters_def RTU_parameters_Writedata_def)
qed

text \<open>Setting the parameters over RS232 and asking for them: the answer carries the values set.\<close>

lemma set_then_query:
  assumes idle: "busy (world s) = 0" and wf: "setparameter_wf c" "param_wf (stack_parameters s)"
    and recv: "RS232_3_Recv s = hdr @ setparameter_content_bytes c @ rest" "length hdr = 14"
  shows "\<exists>s1 s2 (m :: setparameter_message_t) w. ExecuteFunctionByFunId b SET_PARAMETER_FUNID RS232_3 s = Some (0, s1) \<and>
    stored_parameters (cells (world s1)) = set_parameters_of (stack_parameters s) c \<and>
    ExecuteFunctionByFunId b QUERY_PARAMETER_FUNID RS232_3 s1 = Some (0, s2) \<and>
    world s2 = rs232_tx b (message_bytes setparameter_content_bytes m) w \<and>
    guided_values (m_content m) = guided_values c"
proof -
  obtain w1 where 1: "SetParameters b c s = Some (s\<lparr>world := w1\<rparr>)" "busy w1 = 0"
    "stored_parameters (cells w1) = set_parameters_of (stack_parameters s) c"
    using SetParameters_ok [OF idle wf] by blast
  have set: "ExecuteFunctionByFunId b SET_PARAMETER_FUNID RS232_3 s = Some (0, s\<lparr>world := w1\<rparr>)"
    using setparameter_of_bytes [OF recv(2) wf(1), of rest] 1(1) recv(1) by (simp add: ExecuteFunctionByFunId_def)
  obtain w2 where 2: "RTU_parameters_Readdata b (s\<lparr>world := w1\<rparr>) = (set_parameters_of (stack_parameters s) c, s\<lparr>world := w2\<rparr>)"
    using stored_read [of "s\<lparr>world := w1\<rparr>"] 1 by auto
  obtain m s' where m: "QueryParameters_Init b (set_parameters_of (stack_parameters s) c) (s\<lparr>world := w2\<rparr>) = (m, s')"
    by (cases "QueryParameters_Init b (set_parameters_of (stack_parameters s) c) (s\<lparr>world := w2\<rparr>)")
  have query: "ExecuteFunctionByFunId b QUERY_PARAMETER_FUNID RS232_3 (s\<lparr>world := w1\<rparr>) =
      Some (0, RS232_3_Send_buf b (message_bytes setparameter_content_bytes m) s')"
    by (simp add: ExecuteFunctionByFunId_def 2 m)
  show ?thesis
    using set query 1(3) query_parameters_values [OF m] set_parameters_values [of "stack_parameters s" c]
    by - (rule exI [of _ "s\<lparr>world := w1\<rparr>"], rule exI [of _ "RS232_3_Send_buf b (message_bytes setparameter_content_bytes m) s'"],
        rule exI [of _ m], rule exI [of _ "world s'"], simp add: RS232_3_Send_buf_def)
qed

end

section \<open>Dispatch\<close>

text \<open>A function code that is not handled does nothing; one that is not known is not handled.\<close>

definition handled :: "u8 set" where
  "handled = {SET_REAL_TIME, QUERY_REALDATA_FUNID, QUERY_TIME_PERIOD_FUNID, QUERY_PARAMETER_FUNID, SET_PARAMETER_FUNID}"

lemma not_handled: "f \<notin> handled \<Longrightarrow> ExecuteFunctionByFunId b f serial s = Some (0, s)"
  by (simp add: ExecuteFunctionByFunId_def handled_def)

lemma known_fun_id_unknown: "known_fun_id f \<noteq> f \<Longrightarrow> known_fun_id f = 1 \<and> 1 \<notin> handled"
  by (auto simp: known_fun_id_def handled_def split: if_splits)

lemma GetDownFrameFunId_rs232:
  assumes "RS232_3_Recv s = message_header_bytes h @ rest" and "length (h_remote_addr h) = 5"
  shows "GetDownFrameFunId RS232_3 s = Some (known_fun_id (h_fun_id h), s)"
  using message_header_of_bytes [OF assms(2), of rest] assms(1) by (simp add: GetDownFrameFunId_def)

end
