(* ===== verification/Answers.thy ===== *)
theory Answers
  imports Samples
begin

text \<open>
  The answer to a query for stored data, over RS232. \<open>console\<close> adds to the station a record of what
  has been sent. A period of at most twelve hours is one packet with the samples of the period; in
  a longer one, packet \<open>k\<close> (from 0) starts \<open>k (k + 1) / 2\<close> packets after the first sample.
\<close>

section \<open>Messages of the packets\<close>

definition packet :: "querrytimeperiod_upmessage_t \<Rightarrow> u16 \<Rightarrow> nat \<Rightarrow> u32 \<Rightarrow> nat \<Rightarrow> querrytimeperiod_upmessage_t" where
  "packet m n i a l = m\<lparr>q_total_pkts_sn := numbered_pkts_sn i (q_total_pkts_sn m),
     q_content := (q_content m)\<lparr>c_sn := swap16 n, start_addr := a, data_length := of_nat l\<rparr>\<rparr>"

lemma numbered_again: "length p = 3 \<Longrightarrow> numbered_pkts_sn i (numbered_pkts_sn j p) = numbered_pkts_sn i p"
proof -
  have "(x AND 0xf0 OR ucast (y AND 0x0f :: u32)) AND 0xf0 = x AND 0xf0" for x :: u8 and y :: u32
    by (rule bit_word_eqI) (auto simp: bit_simps numeral_eq_Suc less_Suc_eq)
  then show ?thesis by (simp add: numbered_pkts_sn_def)
qed

lemma packet_again: "length (q_total_pkts_sn m) = 3 \<Longrightarrow> packet (packet m n i a l) = packet m"
  by (intro ext) (simp add: packet_def numbered_again)

lemma packet_with_data:
  "(let m = with_data a (of_nat l) m; m = m\<lparr>q_total_pkts_sn := numbered_pkts_sn i (q_total_pkts_sn m)\<rparr>
    in m\<lparr>q_content := (q_content m)\<lparr>c_sn := swap16 n\<rparr>\<rparr>) = packet m n i a l"
  by (simp add: packet_def with_data_def)

lemma packet_wf: "up_wf m \<Longrightarrow> up_wf (packet m n i a l)"
  by (simp add: packet_def up_wf_def)

lemma packet_frame_length: "packet (with_frame_length l m) n i a k = with_frame_length l (packet m n i a k)"
  by (simp add: packet_def with_frame_length_def)

lemma frame_length_with_data: "with_frame_length l (with_data a n m) = with_data a n (with_frame_length l m)"
  by (cases m) (simp add: with_frame_length_def with_data_def)

text \<open>The frame of packet \<open>i\<close> with the serial number \<open>n\<close> and \<open>l\<close> bytes from \<open>a\<close>.\<close>

definition packet_frame :: "querrytimeperiod_upmessage_t \<Rightarrow> u16 \<Rightarrow> nat \<Rightarrow> nat \<Rightarrow> nat \<Rightarrow> (nat \<Rightarrow> u8) \<Rightarrow> u8 list" where
  "packet_frame m n i a l c = data_frame (packet m n i (of_nat a) l) (mem_read c a l)"

section \<open>What is sent\<close>

locale console = station b cells busy wel code
  for b :: "'w board" and cells busy wel code +
  fixes log :: "'w \<Rightarrow> u8 list list"
  assumes log_tx [simp]: "log (rs232_tx b bs w) = bs # log w"
    and tx_keeps [simp]: "cells (rs232_tx b bs w) = cells w" "busy (rs232_tx b bs w) = busy w"
    and log_pins: "log (pin_out b p k v w) = log w"
    and log_flash: "log (fst (spi1 b w tx)) = log w"

sublocale console \<subseteq> log_pins: pin_frame b log
  by unfold_locales (rule log_pins)

sublocale console \<subseteq> log_bus: spi_frame "spi1 b" log
  by unfold_locales (rule log_flash)

context console
begin

lemma upframe_log:
  assumes "busy (world s) = 0" and "up_wf m" and q: "start_addr (q_content m) = of_nat a" "data_length (q_content m) = of_nat l"
    and r: "a + l \<le> 2 ^ 24" and "l \<le> 750"
  shows "\<exists>s' m'. SendTimePerioadData_upframe b m RS232_3 s = Some (m', s') \<and>
    m' = m\<lparr>q_content := (q_content m)\<lparr>c_sn := swap16 (sn s)\<rparr>\<rparr> \<and>
    log (world s') = data_frame m' (mem_read (cells (world s)) a l) # log (world s) \<and>
    cells (world s') = cells (world s) \<and> busy (world s') = 0 \<and> sn s' = sn s + 1"
proof -
  have a: "unat (of_nat a :: u32) = a" using r by simp
  have r': "unat (start_addr (q_content m)) + l \<le> 2 ^ 24" using r unfolding q(1) a .
  let ?m = "m\<lparr>q_content := (q_content m)\<lparr>c_sn := swap16 (sn s)\<rparr>\<rparr>"
  from upframe_ok [OF assms(1,2) r' q(2) assms(6)]
  obtain w where w: "SendTimePerioadData_upframe b m RS232_3 s = Some (?m,
      s\<lparr>world := rs232_tx b (data_frame ?m (mem_read (cells (world s)) a l)) w, sn := sn s + 1\<rparr>)"
    "w = fst (W25QXX_Read (spi1 b) (world s) (of_nat a) (ucast (of_nat l :: u32)))" "cells w = cells (world s)" "busy w = 0"
    unfolding q(1) a by blast
  have "log w = log (world s)" by (simp add: w(2))
  then show ?thesis using w(1,3,4) by simp
qed

lemma send_packet_ok:
  assumes "busy (world s) = 0" and "up_wf m" and "a + l \<le> 2 ^ 24" and "l \<le> 750"
  shows "\<exists>s'. (let m = with_data (of_nat a) (of_nat l) m; m = m\<lparr>q_total_pkts_sn := numbered_pkts_sn i (q_total_pkts_sn m)\<rparr>
      in SendTimePerioadData_upframe b m RS232_3 s) = Some (packet m (sn s) i (of_nat a) l, s') \<and>
    log (world s') = packet_frame m (sn s) i a l (cells (world s)) # log (world s) \<and>
    cells (world s') = cells (world s) \<and> busy (world s') = 0 \<and> sn s' = sn s + 1"
proof -
  let ?m = "(with_data (of_nat a) (of_nat l) m)\<lparr>q_total_pkts_sn := numbered_pkts_sn i (q_total_pkts_sn m)\<rparr>"
  have q: "up_wf ?m" "start_addr (q_content ?m) = of_nat a" "data_length (q_content ?m) = of_nat l"
    using assms(2) by (simp_all add: with_data_def up_wf_def)
  have p: "?m\<lparr>q_content := (q_content ?m)\<lparr>c_sn := swap16 (sn s)\<rparr>\<rparr> = packet m (sn s) i (of_nat a) l"
    by (simp add: packet_def with_data_def)
  from upframe_log [OF assms(1) q assms(3,4)]
  show ?thesis unfolding p by (auto simp: packet_frame_def with_data_def)
qed

lemma sum_shift: "(\<Sum>x<Suc n. i + x) = i + (\<Sum>x<n. Suc i + x)" for i n :: nat
  by (subst sum.lessThan_Suc_shift) simp

lemma full_packets_ok:
  assumes L: "L = 144 * k" "k \<le> 4"
  shows "\<lbrakk>busy (world s) = 0; up_wf m; a + L * (\<Sum>x<n. i + x) + L \<le> 2 ^ 24\<rbrakk> \<Longrightarrow>
    \<exists>m' s'. send_full_packets b RS232_3 (of_nat k) n (Suc i) (of_nat a) m s =
        Some (of_nat (a + L * (\<Sum>x<n. i + x)), m', s') \<and> up_wf m' \<and> packet m' = packet m \<and> q_header m' = q_header m \<and>
      log (world s') = rev (map (\<lambda>j. packet_frame m (sn s + of_nat j) (Suc i + j) (a + L * (\<Sum>x<Suc j. i + x)) L (cells (world s))) [0..<n])
        @ log (world s) \<and>
      cells (world s') = cells (world s) \<and> busy (world s') = 0 \<and> sn s' = sn s + of_nat n"
proof (induction n arbitrary: i a m s)
  case (Suc n)
  have r: "a + L * i + L * (\<Sum>x<n. Suc i + x) + L \<le> 2 ^ 24"
    using Suc.prems(3) unfolding sum_shift by (simp add: algebra_simps)
  have "a + L * i + L \<le> 2 ^ 24" "L \<le> 750" using r L by simp_all
  from send_packet_ok [OF Suc.prems(1,2) this, of "Suc i"]
  obtain s1 where 1: "(let m = with_data (of_nat (a + L * i)) (of_nat L) m; m = m\<lparr>q_total_pkts_sn := numbered_pkts_sn (Suc i) (q_total_pkts_sn m)\<rparr>
      in SendTimePerioadData_upframe b m RS232_3 s) = Some (packet m (sn s) (Suc i) (of_nat (a + L * i)) L, s1)"
    "log (world s1) = packet_frame m (sn s) (Suc i) (a + L * i) L (cells (world s)) # log (world s)"
    "cells (world s1) = cells (world s)" "busy (world s1) = 0" "sn s1 = sn s + 1" by blast
  let ?m = "packet m (sn s) (Suc i) (of_nat (a + L * i)) L"
  have p: "packet ?m = packet m" "up_wf ?m" "q_header ?m = q_header m"
    using Suc.prems(2) by (simp_all add: packet_again packet_wf up_wf_def [of m]) (simp add: packet_def)
  from Suc.IH [OF 1(4) p(2) r]
  obtain m2 s2 where 2: "send_full_packets b RS232_3 (of_nat k) n (Suc (Suc i)) (of_nat (a + L * i)) ?m s1 =
        Some (of_nat (a + L * i + L * (\<Sum>x<n. Suc i + x)), m2, s2)" "up_wf m2" "packet m2 = packet m" "q_header m2 = q_header m"
    "log (world s2) = rev (map (\<lambda>j. packet_frame ?m (sn s1 + of_nat j) (Suc (Suc i) + j) (a + L * i + L * (\<Sum>x<Suc j. Suc i + x)) L (cells (world s1))) [0..<n])
        @ log (world s1)"
    "cells (world s2) = cells (world s)" "busy (world s2) = 0" "sn s2 = sn s + 1 + of_nat n"
    unfolding p(1,3) 1(3,5) by blast
  have a': "of_nat a + (of_nat (Suc i) - 1) * 12 * 12 * of_nat k = (of_nat (a + L * i) :: u32)"
    "12 * 12 * of_nat k = (of_nat L :: u32)"
    by (simp_all add: L algebra_simps)
  have call: "send_full_packets b RS232_3 (of_nat k) (Suc n) (Suc i) (of_nat a) m s =
      Some (of_nat (a + L * (\<Sum>x<Suc n. i + x)), m2, s2)"
    unfolding send_full_packets.simps a' using 1(1) 2(1) unfolding sum_shift
    by (simp add: Let_def algebra_simps)
  have frames: "packet_frame ?m = packet_frame m" by (intro ext) (simp only: packet_frame_def p(1))
  have first: "packet_frame m (sn s + of_nat 0) (Suc i + 0) (a + L * (\<Sum>x<Suc 0. i + x)) L = packet_frame m (sn s) (Suc i) (a + L * i) L"
    by simp
  have shift: "packet_frame m (sn s + of_nat (Suc j)) (Suc i + Suc j) (a + L * (\<Sum>x<Suc (Suc j). i + x)) L =
      packet_frame m (sn s1 + of_nat j) (Suc (Suc i) + j) (a + L * i + L * (\<Sum>x<Suc j. Suc i + x)) L" for j
    unfolding sum_shift [of i "Suc j"] 1(5) by (simp add: algebra_simps del: sum.lessThan_Suc)
  have "map (\<lambda>j. packet_frame m (sn s + of_nat j) (Suc i + j) (a + L * (\<Sum>x<Suc j. i + x)) L (cells (world s))) [0..<Suc n] =
    packet_frame m (sn s) (Suc i) (a + L * i) L (cells (world s)) #
    map (\<lambda>j. packet_frame m (sn s1 + of_nat j) (Suc (Suc i) + j) (a + L * i + L * (\<Sum>x<Suc j. Suc i + x)) L (cells (world s))) [0..<n]"
    by (simp only: upt_conv_Cons [OF zero_less_Suc] map_Suc_upt [symmetric] list.map map_map comp_def first shift)
  then have "log (world s2) = rev (map (\<lambda>j. packet_frame m (sn s + of_nat j) (Suc i + j) (a + L * (\<Sum>x<Suc j. i + x)) L (cells (world s))) [0..<Suc n])
        @ log (world s)"
    using 1(2) 2(5) by (simp only: 1(3) frames rev.simps append_assoc append_Cons append_Nil)
  then show ?case using call 2 by (intro exI [of _ m2] exI [of _ s2]) simp
qed auto

lemma first_address_ok:
  assumes "valid_date d" and "unat (d_minute d) mod 5 = 0" and "md_ok (s_monthday s)"
  shows "\<exists>md. first_address d t s = Some (of_nat (slot_addr d t), s\<lparr>s_monthday := md\<rparr>) \<and> md_ok md"
proof -
  obtain md where "md_ok md" "GetAddress d t (s_monthday s) = Some (Inr (int (slot_addr d t)), md)"
    using GetAddress_ok [OF assms] by blast
  then show ?thesis by (intro exI [of _ md]) (simp add: first_address_def)
qed

lemma timeperiod_init:
  assumes "busy (world s) = 0" and m: "length (q_total_pkts_sn m0) = 3"
  shows "\<exists>m w. QueryTimePeriodData_Init b e m0 s = (m, s\<lparr>world := w\<rparr>) \<and> up_wf m \<and>
    h_remote_addr (q_header m) = rtu_remote_addr (stored_parameters (cells (world s))) \<and> h_fun_id (q_header m) = QUERY_TIME_PERIOD_FUNID \<and>
    up_element_id (q_content m) = swap16 e \<and> q_total_pkts_sn m = q_total_pkts_sn m0 \<and>
    cells w = cells (world s) \<and> busy w = 0 \<and> log w = log (world s)"
proof -
  define w1 where "w1 = snd (snd (RTC_ReadDate b (stack_time s) (world s)))"
  have 1: "cells w1 = cells (world s)" "busy w1 = 0" "log w1 = log (world s)"
    unfolding w1_def using pins.RTC_ReadDate_keeps [of "stack_time s" "world s"] assms(1)
    by (simp_all only: prod.inject log_pins.RTC_ReadDate_keeps)
  have t: "read_systime b s = (fst (snd (RTC_ReadDate b (stack_time s) (world s))), s\<lparr>world := w1\<rparr>)"
    by (simp add: read_systime_def w1_def split_beta Let_def)
  let ?p = "stored_parameters (cells (world s))"
  obtain w2 where w2: "RTU_parameters_Readdata b (s\<lparr>world := w1\<rparr>) = (?p, s\<lparr>world := w2\<rparr>)" "busy w2 = 0" "cells w2 = cells w1"
    using stored_read [of "s\<lparr>world := w1\<rparr>"] 1 by auto
  have "w2 = fst (W25QXX_Read (spi1 b) w1 IDR_RTU_PARAMETERS 121)"
    using w2(1) by (cases s) (auto simp: RTU_parameters_Readdata_def flash_read_def split_beta Let_def)
  then have "log w2 = log (world s)" using 1(3) by simp
  moreover define m where "m = fst (QueryTimePeriodData_Init b e m0 s)"
  have "QueryTimePeriodData_Init b e m0 s = (m, s\<lparr>world := w2\<rparr>)"
    by (simp add: m_def QueryTimePeriodData_Init_def t w2(1))
  moreover have "up_wf m" "h_remote_addr (q_header m) = rtu_remote_addr ?p" "h_fun_id (q_header m) = QUERY_TIME_PERIOD_FUNID"
    "up_element_id (q_content m) = swap16 e" "q_total_pkts_sn m = q_total_pkts_sn m0"
    using param_lengths [OF param_wf_stored [of "cells (world s)"]] m
    by (simp_all add: m_def QueryTimePeriodData_Init_def t w2(1) up_wf_def)
  ultimately show ?thesis using w2 1 by auto
qed

end

section \<open>The answer\<close>

text \<open>Type and sample length of an element that is stored.\<close>

definition sample_kind :: "u16 \<Rightarrow> (u8 \<times> nat) option" where
  "sample_kind e = (if e = CUMULA_PRECIPIT_ID then Some (RAINFALL_TYPE, 3)
     else if e = WATER_LEVEL_ID then Some (WATERLEVEL_TYPE, 4) else None)"

lemma sample_kind_len: "sample_kind e = Some (t, k) \<Longrightarrow> slot_len t = k \<and> 3 \<le> k \<and> k \<le> 4"
  by (auto simp: sample_kind_def slot_len_def split: if_splits)

lemma slot_of_hour: "slot (TimeperiodToDate tp) = hour_count (TimeperiodToDate tp) * 12"
  by (simp add: slot_def hour_count_def TimeperiodToDate_def)

lemma minute_of_hour: "unat (d_minute (TimeperiodToDate tp)) mod 5 = 0"
  by (simp add: TimeperiodToDate_def)

lemma period_range:
  assumes "d_year (TimeperiodToDate st) = d_year (TimeperiodToDate en)"
    and "hour_count (TimeperiodToDate en) = hour_count (TimeperiodToDate st) + n"
  shows "slot_addr (TimeperiodToDate st) t + 12 * n * slot_len t = slot_addr (TimeperiodToDate en) t"
  using assms by (simp add: slot_addr_def slot_of_hour region_def algebra_simps)

context console
begin

lemma hours_of:
  assumes v: "valid_date (TimeperiodToDate st)" "valid_date (TimeperiodToDate en)"
    and y: "d_year (TimeperiodToDate st) = d_year (TimeperiodToDate en)"
    and n: "hour_count (TimeperiodToDate en) = hour_count (TimeperiodToDate st) + n" "0 < n" and md: "md_ok md"
  shows "\<exists>md'. md_ok md' \<and> GetHourGroupsByTimperiod st en md = Some (of_nat n, md')"
proof -
  have "d_hour (TimeperiodToDate en) \<noteq> 0" if "year_day (TimeperiodToDate st) = year_day (TimeperiodToDate en)"
    using n that by (auto simp: hour_count_def)
  then show ?thesis using hour_groups_ok [OF v y _ _ md] n by simp
qed

lemma short_answer:
  fixes down :: querrytimeperiod_down_content_t
  defines "sd \<equiv> TimeperiodToDate (td_start_time down)" and "ed \<equiv> TimeperiodToDate (td_end_time down)"
  assumes idle: "busy (world s) = 0" and md: "md_ok (s_monthday s)" and v: "valid_date sd" "valid_date ed"
    and y: "d_year sd = d_year ed" and n: "hour_count ed = hour_count sd + n" "0 < n" "n \<le> 12"
    and kind: "sample_kind (swap16 (td_precipit_id down)) = Some (t, k)"
  shows "\<exists>s' m. test_SendTimePeriodData b down RS232_3 s = Some s' \<and>
    log (world s') = data_frame m (mem_read (cells (world s)) (slot_addr sd t) (12 * n * k)) # log (world s) \<and>
    h_remote_addr (q_header m) = rtu_remote_addr (stored_parameters (cells (world s))) \<and>
    h_fun_id (q_header m) = QUERY_TIME_PERIOD_FUNID \<and> h_frame_id_len (q_header m) = swap16 (of_nat (33 + 12 * n * k)) \<and>
    q_total_pkts_sn m = [0x00, 0x10, 0x01] \<and> c_sn (q_content m) = swap16 (sn s) \<and>
    up_element_id (q_content m) = td_precipit_id down \<and>
    cells (world s') = cells (world s) \<and> busy (world s') = 0 \<and> sn s' = sn s + 1"
proof -
  let ?e = "swap16 (td_precipit_id down)"
  have "length (q_total_pkts_sn blank_timeperiod_upmessage) = 3" by (simp add: blank_timeperiod_upmessage_def)
  from timeperiod_init [OF idle this, of ?e]
  obtain m w where m: "QueryTimePeriodData_Init b ?e blank_timeperiod_upmessage s = (m, s\<lparr>world := w\<rparr>)" "up_wf m"
    "h_remote_addr (q_header m) = rtu_remote_addr (stored_parameters (cells (world s)))" "h_fun_id (q_header m) = QUERY_TIME_PERIOD_FUNID"
    "up_element_id (q_content m) = swap16 ?e" "cells w = cells (world s)" "busy w = 0" "log w = log (world s)" by blast
  obtain md1 where h: "GetHourGroupsByTimperiod (td_start_time down) (td_end_time down) (s_monthday s) = Some (of_nat n, md1)" "md_ok md1"
    using hours_of [OF v [unfolded sd_def ed_def] y [unfolded sd_def ed_def] n(1) [unfolded sd_def ed_def] n(2) md] by blast
  let ?s = "s\<lparr>world := w, s_monthday := md1\<rparr>"
  obtain md2 where a: "first_address sd t ?s = Some (of_nat (slot_addr sd t), ?s\<lparr>s_monthday := md2\<rparr>)"
    using first_address_ok [OF v(1), of ?s t] minute_of_hour h(2) by (auto simp: sd_def)
  let ?s2 = "?s\<lparr>s_monthday := md2\<rparr>"
  let ?m = "with_data (of_nat (slot_addr sd t)) (of_nat (12 * n * k)) (with_frame_length (of_nat (12 * n * k)) (m\<lparr>q_total_pkts_sn := [0x00, 0x10, 0x01]\<rparr>))"
  note k = sample_kind_len [OF kind]
  have r: "slot_addr sd t + 12 * n * k \<le> 2 ^ 24"
    using period_range [OF y [unfolded sd_def ed_def] n(1) [unfolded sd_def ed_def], of t] slot_word(2) [OF v(2), of t] k
    by (simp add: sd_def [symmetric] ed_def [symmetric])
  have l: "12 * n * k \<le> 750" using mult_le_mono [OF n(3), of k 4] k by (simp add: mult.commute)
  have wf: "up_wf ?m" "start_addr (q_content ?m) = of_nat (slot_addr sd t)" "data_length (q_content ?m) = of_nat (12 * n * k)"
    using m(2) by (simp, simp_all add: with_data_def)
  have idle2: "busy (world ?s2) = 0" using m(7) by simp
  from upframe_log [OF idle2 wf r l]
  obtain s3 m3 where 3: "SendTimePerioadData_upframe b ?m RS232_3 ?s2 = Some (m3, s3)"
    "m3 = ?m\<lparr>q_content := (q_content ?m)\<lparr>c_sn := swap16 (sn ?s2)\<rparr>\<rparr>"
    "log (world s3) = data_frame m3 (mem_read (cells (world ?s2)) (slot_addr sd t) (12 * n * k)) # log (world ?s2)"
    "cells (world s3) = cells (world ?s2)" "busy (world s3) = 0" "sn s3 = sn ?s2 + 1" by blast
  have len: "of_nat n * 12 * of_nat k = (of_nat (12 * n * k) :: u32)" by (simp add: algebra_simps)
  have small: "(of_nat n :: u32) \<le> 12" using n(3) by (simp add: word_le_nat_alt)
  have call: "send_one_packet b RS232_3 sd t (of_nat k) (of_nat n) (m\<lparr>q_total_pkts_sn := [0x00, 0x10, 0x01]\<rparr>) ?s = Some s3"
    unfolding send_one_packet_def Let_def len a bind.bind_lunit prod.case 3(1) ..
  have "test_SendTimePeriodData b down RS232_3 s = Some s3"
    using kind call by (auto simp: test_SendTimePeriodData_def m(1) h(1) small sd_def [symmetric] sample_kind_def split: if_splits)
  moreover have "(ucast (3 + 38 - 8 + of_nat (12 * n * k) :: u32) :: u16) = of_nat (33 + 12 * n * k)"
  proof -
    have "(3 + 38 - 8 + of_nat (12 * n * k) :: u32) = of_nat (33 + 12 * n * k)" by simp
    then show ?thesis by (simp only: ucast_of_nat_u32_u16)
  qed
  ultimately show ?thesis using 3 m by (auto simp: with_data_def with_frame_length_def)
qed

lemma long_answer:
  fixes down :: querrytimeperiod_down_content_t
  defines "sd \<equiv> TimeperiodToDate (td_start_time down)" and "ed \<equiv> TimeperiodToDate (td_end_time down)"
  assumes idle: "busy (world s) = 0" and md: "md_ok (s_monthday s)" and v: "valid_date sd" "valid_date ed"
    and y: "d_year sd = d_year ed" and n: "hour_count ed = hour_count sd + n" "12 < n"
    and kind: "sample_kind (swap16 (td_precipit_id down)) = Some (t, k)"
    and fits: "slot_addr sd t + 144 * k * (\<Sum>x<n div 12. x) + 144 * k + 144 * k \<le> 2 ^ 24"
  shows "\<exists>s' m. test_SendTimePeriodData b down RS232_3 s = Some s' \<and>
    log (world s') = rev (map (\<lambda>j. packet_frame m (sn s + of_nat j) (Suc j) (slot_addr sd t + 144 * k * (\<Sum>x<Suc j. x))
          (144 * k) (cells (world s))) [0..<n div 12] @
        (if n mod 12 = 0 then []
         else [packet_frame (with_frame_length (of_nat (12 * (n mod 12) * k)) m) (sn s + of_nat (n div 12)) (Suc (n div 12))
           (slot_addr sd t + 144 * k * (\<Sum>x<n div 12. x) + 144 * k) (12 * (n mod 12) * k) (cells (world s))]))
      @ log (world s) \<and>
    up_wf m \<and> h_frame_id_len (q_header m) = swap16 465 \<and> h_fun_id (q_header m) = QUERY_TIME_PERIOD_FUNID \<and>
    cells (world s') = cells (world s) \<and> busy (world s') = 0"
proof -
  let ?e = "swap16 (td_precipit_id down)" and ?a = "slot_addr sd t" and ?q = "n div 12" and ?r = "n mod 12"
  have "length (q_total_pkts_sn blank_timeperiod_upmessage) = 3" by (simp add: blank_timeperiod_upmessage_def)
  from timeperiod_init [OF idle this, of ?e]
  obtain m w where m: "QueryTimePeriodData_Init b ?e blank_timeperiod_upmessage s = (m, s\<lparr>world := w\<rparr>)" "up_wf m"
    "h_fun_id (q_header m) = QUERY_TIME_PERIOD_FUNID" "cells w = cells (world s)" "busy w = 0" "log w = log (world s)" by blast
  have "0 < n" using n(2) by simp
  obtain md1 where h: "GetHourGroupsByTimperiod (td_start_time down) (td_end_time down) (s_monthday s) = Some (of_nat n, md1)" "md_ok md1"
    using hours_of [OF v [unfolded sd_def ed_def] y [unfolded sd_def ed_def] n(1) [unfolded sd_def ed_def] \<open>0 < n\<close> md] by blast
  have n32: "n < 2 ^ 32" "unat (of_nat n :: u32) = n"
    using n(1) year_day_bound [OF v(2)] v(2) by (simp_all add: hour_count_def valid_date_def)
  have div: "unat (of_nat n div 12 :: u32) = ?q" "unat (of_nat n mod 12 :: u32) = ?r"
    using n32(2) by (simp_all add: unat_div unat_mod)
  have rem: "of_nat n mod 12 = (of_nat ?r :: u32)" using div(2) by (metis of_nat_unat ucast_id)
  let ?s = "s\<lparr>world := w, s_monthday := md1\<rparr>"
  obtain md2 where a: "first_address sd t ?s = Some (of_nat ?a, ?s\<lparr>s_monthday := md2\<rparr>)"
    using first_address_ok [OF v(1), of ?s t] minute_of_hour h(2) by (auto simp: sd_def)
  let ?s2 = "?s\<lparr>s_monthday := md2\<rparr>"
  note k = sample_kind_len [OF kind]
  define m1 where "m1 = with_frame_length (12 * 12 * 3) (m\<lparr>q_total_pkts_sn := first_pkts_sn (ucast (of_nat n div 12 :: u32) + (if ?r \<noteq> 0 then 1 else 0))\<rparr>)"
  have wf: "up_wf m1" "h_frame_id_len (q_header m1) = swap16 465" "h_fun_id (q_header m1) = QUERY_TIME_PERIOD_FUNID"
    using m(2,3) by (simp_all add: m1_def first_pkts_sn_def) (simp_all add: with_frame_length_def)
  have f: "?a + 144 * k * (\<Sum>x<?q. 0 + x) + 144 * k \<le> 2 ^ 24" "busy (world ?s2) = 0" using fits m(5) by simp_all
  from full_packets_ok [OF refl _ f(2) wf(1) f(1)] k
  obtain m' s3 where 3: "send_full_packets b RS232_3 (of_nat k) ?q 1 (of_nat ?a) m1 ?s2 =
        Some (of_nat (?a + 144 * k * (\<Sum>x<?q. x)), m', s3)" "up_wf m'" "packet m' = packet m1" "q_header m' = q_header m1"
    "log (world s3) = rev (map (\<lambda>j. packet_frame m1 (sn s + of_nat j) (Suc j) (?a + 144 * k * (\<Sum>x<Suc j. x)) (144 * k) (cells (world s))) [0..<?q])
        @ log (world s)"
    "cells (world s3) = cells (world s)" "busy (world s3) = 0" "sn s3 = sn s + of_nat ?q"
    by (simp add: m(4,6)) blast
  let ?l = "12 * ?r * k" and ?a' = "?a + 144 * k * (\<Sum>x<?q. x) + 144 * k"
  have "?l \<le> 144 * k" using mult_right_mono [of "12 * ?r" 144 k] by simp
  then have l: "?a' + ?l \<le> 2 ^ 24" "?l \<le> 750" using fits k by linarith+
  have m4: "up_wf (with_frame_length (of_nat ?l) m')" using 3(2) by simp
  from send_packet_ok [OF 3(7) m4 l, of "Suc ?q"]
  obtain s4 where 4: "(let m = with_data (of_nat ?a') (of_nat ?l) (with_frame_length (of_nat ?l) m');
       m = m\<lparr>q_total_pkts_sn := numbered_pkts_sn (Suc ?q) (q_total_pkts_sn m)\<rparr>
     in SendTimePerioadData_upframe b m RS232_3 s3) = Some (packet (with_frame_length (of_nat ?l) m') (sn s3) (Suc ?q) (of_nat ?a') ?l, s4)"
    "log (world s4) = packet_frame (with_frame_length (of_nat ?l) m') (sn s3) (Suc ?q) ?a' ?l (cells (world s3)) # log (world s3)"
    "cells (world s4) = cells (world s3)" "busy (world s4) = 0" by blast
  let ?frames = "map (\<lambda>j. packet_frame m1 (sn s + of_nat j) (Suc j) (?a + 144 * k * (\<Sum>x<Suc j. x)) (144 * k) (cells (world s))) [0..<?q]"
  have same: "packet_frame (with_frame_length (of_nat ?l) m') = packet_frame (with_frame_length (of_nat ?l) m1)"
    by (intro ext) (simp only: packet_frame_def packet_frame_length 3(3))
  have len: "of_nat ?r * 12 * of_nat k = (of_nat ?l :: u32)" "of_nat (?a + 144 * k * (\<Sum>x<?q. x)) + 12 * 12 * of_nat k = (of_nat ?a' :: u32)"
    by (simp_all add: algebra_simps)
  have last: "send_remainder b RS232_3 (of_nat k) (of_nat ?r) (?q + 1) (of_nat (?a + 144 * k * (\<Sum>x<?q. x))) m' s3 =
      Some (packet (with_frame_length (of_nat ?l) m') (sn s3) (Suc ?q) (of_nat ?a') ?l, s4)"
    using 4(1) unfolding send_remainder_def len Let_def frame_length_with_data by (simp only: Suc_eq_plus1)
  have big: "\<not> (of_nat n :: u32) \<le> 12" using n(2) n32(2) by (simp add: word_le_nat_alt)
  have zero: "(of_nat ?r :: u32) = 0 \<longleftrightarrow> ?r = 0" using div(2) rem by (metis unat_eq_0 unsigned_0)
  define s5 where "s5 = (if ?r = 0 then s3 else s4)"
  have "send_packets b RS232_3 sd t (of_nat k) (of_nat n) (m\<lparr>q_total_pkts_sn := first_pkts_sn (ucast (of_nat n div 12 :: u32) + (if ?r \<noteq> 0 then 1 else 0))\<rparr>) ?s = Some s5"
    unfolding send_packets_def Let_def div(1) rem a bind.bind_lunit prod.case m1_def [symmetric] 3(1) zero last s5_def by simp
  then have "test_SendTimePeriodData b down RS232_3 s = Some s5"
    using kind by (auto simp: test_SendTimePeriodData_def m(1) h(1) big rem zero sd_def [symmetric] sample_kind_def simp del: of_nat_mod split: if_splits)
  moreover have "log (world s5) = rev (?frames @ (if ?r = 0 then [] else
      [packet_frame (with_frame_length (of_nat ?l) m1) (sn s + of_nat ?q) (Suc ?q) ?a' ?l (cells (world s))])) @ log (world s)"
    using 3(5) 4(2) by (simp add: s5_def same 3(6,8) del: of_nat_mult sum.lessThan_Suc)
  moreover have "cells (world s5) = cells (world s)" "busy (world s5) = 0" using 3 4 by (simp_all add: s5_def)
  ultimately show ?thesis using wf by blast
qed

end

end
