(* ===== verification/Wk2124.thy ===== *)
theory Wk2124
  imports Flash
begin

text \<open>
  The UART bridge HARDWARE/WK2124/wk2124.c, which gives the bluetooth module a serial port behind
  SPI2. As in \<open>Flash\<close>, \<open>spi\<close> maps the chip and the bytes of one chip-select period to the chip and the bytes
  received. Locale \<open>uart_bridge\<close> states the data sheet of the chip: register addressing, the counters and
  the two queues of 256 bytes of each port.
\<close>

section \<open>Registers\<close>

definition WK2XXX_GPORT :: u8 where "WK2XXX_GPORT = 1"
definition WK2XXX_GENA :: u8 where "WK2XXX_GENA = 0x00"
definition WK2XXX_GRST :: u8 where "WK2XXX_GRST = 0x01"
definition WK2XXX_GIER :: u8 where "WK2XXX_GIER = 0x10"
definition WK2XXX_SPAGE :: u8 where "WK2XXX_SPAGE = 0x03"
definition WK2XXX_SCR :: u8 where "WK2XXX_SCR = 0x04"
definition WK2XXX_FCR :: u8 where "WK2XXX_FCR = 0x06"
definition WK2XXX_SIER :: u8 where "WK2XXX_SIER = 0x07"
definition WK2XXX_TFCNT :: u8 where "WK2XXX_TFCNT = 0x09"
definition WK2XXX_RFCNT :: u8 where "WK2XXX_RFCNT = 0x0A"
definition WK2XXX_FSR :: u8 where "WK2XXX_FSR = 0x0B"
definition WK2XXX_BAUD1 :: u8 where "WK2XXX_BAUD1 = 0x04"
definition WK2XXX_BAUD0 :: u8 where "WK2XXX_BAUD0 = 0x05"
definition WK2XXX_PRES :: u8 where "WK2XXX_PRES = 0x06"
definition WK2XXX_RFTL :: u8 where "WK2XXX_RFTL = 0x07"
definition WK2XXX_TFTL :: u8 where "WK2XXX_TFTL = 0x08"
definition WK2XXX_TFULL :: u8 where "WK2XXX_TFULL = 0x02"
definition WK2XXX_RDAT :: u8 where "WK2XXX_RDAT = 0x08"

section \<open>Transactions\<close>

definition Wk2xxxWriteReg :: "'c spi \<Rightarrow> u8 \<Rightarrow> u8 \<Rightarrow> u8 \<Rightarrow> 'c \<Rightarrow> 'c" where
  "Wk2xxxWriteReg spi port reg dat c = fst (spi c [push_bit 4 (port - 1) + reg, dat])"

definition Wk2xxxReadReg :: "'c spi \<Rightarrow> u8 \<Rightarrow> u8 \<Rightarrow> 'c \<Rightarrow> u8 \<times> 'c" where
  "Wk2xxxReadReg spi port reg c =
     (let (c, rx) = spi c [0x40 + push_bit 4 (port - 1) + reg, 0] in (rx ! 1, c))"

text \<open>The turns of \<open>for (n = 0; n < len; n++)\<close> with an 8-bit \<open>n\<close>.\<close>

partial_function (option) fifo_turns :: "u32 \<Rightarrow> u8 \<Rightarrow> nat option" where
  "fifo_turns len n =
     (if ucast n < len then Option.bind (fifo_turns len (n + 1)) (\<lambda>k. Some (Suc k)) else Some 0)"

definition Wk2xxxWriteFifo :: "'c spi \<Rightarrow> u8 \<Rightarrow> u8 list \<Rightarrow> u32 \<Rightarrow> 'c \<Rightarrow> 'c option" where
  "Wk2xxxWriteFifo spi port wbuf len c = do {
     n \<leftarrow> fifo_turns len 0;
     data \<leftarrow> slice wbuf 0 n;
     Some (fst (spi c ((0x80 + push_bit 4 (port - 1)) # data)))
   }"

definition Wk2xxxReadFifo :: "'c spi \<Rightarrow> u8 \<Rightarrow> u8 list \<Rightarrow> u32 \<Rightarrow> 'c \<Rightarrow> (u8 list \<times> 'c) option" where
  "Wk2xxxReadFifo spi port rbuf len c = do {
     n \<leftarrow> fifo_turns len 0;
     let (c, rx) = spi c ((0xC0 + push_bit 4 (port - 1)) # replicate n 0);
     rbuf \<leftarrow> blit rbuf 0 (drop 1 rx);
     Some (rbuf, c)
   }"

section \<open>Set-up\<close>

text \<open>The bit of a port in the global registers; a switch over the four ports that does nothing for others.\<close>

definition port_bit :: "u8 \<Rightarrow> u8 option" where
  "port_bit port =
     (if port = 1 then Some 0x01 else if port = 2 then Some 0x02 else if port = 3 then Some 0x04
      else if port = 4 then Some 0x08 else None)"

definition set_global :: "'c spi \<Rightarrow> u8 \<Rightarrow> u8 \<Rightarrow> 'c \<Rightarrow> 'c" where
  "set_global spi reg port c =
     (let (v, c) = Wk2xxxReadReg spi WK2XXX_GPORT reg c
      in case port_bit port of None \<Rightarrow> c | Some m \<Rightarrow> Wk2xxxWriteReg spi WK2XXX_GPORT reg (v OR m) c)"

definition Wk2xxxInit :: "'c spi \<Rightarrow> u8 \<Rightarrow> 'c \<Rightarrow> 'c" where
  "Wk2xxxInit spi port c =
     (let c = set_global spi WK2XXX_GENA port c;
          c = set_global spi WK2XXX_GRST port c;
          c = set_global spi WK2XXX_GIER port c;
          (sier, c) = Wk2xxxReadReg spi port WK2XXX_SIER c;
          c = Wk2xxxWriteReg spi port WK2XXX_SIER (sier OR (0x01 OR 0x02)) c;
          c = Wk2xxxWriteReg spi port WK2XXX_FCR 0xFF c;
          c = Wk2xxxWriteReg spi port WK2XXX_SPAGE 1 c;
          c = Wk2xxxWriteReg spi port WK2XXX_RFTL 0x40 c;
          c = Wk2xxxWriteReg spi port WK2XXX_TFTL 0x40 c;
          c = Wk2xxxWriteReg spi port WK2XXX_SPAGE 0 c;
          (scr, c) = Wk2xxxReadReg spi port WK2XXX_SCR c
      in Wk2xxxWriteReg spi port WK2XXX_SCR (scr OR (0x02 OR 0x01)) c)"

definition Wk2xxxClose :: "'c spi \<Rightarrow> u8 \<Rightarrow> 'c \<Rightarrow> 'c" where
  "Wk2xxxClose spi port c =
     (let c = set_global spi WK2XXX_GRST port c;
          (gena, c) = Wk2xxxReadReg spi WK2XXX_GPORT WK2XXX_GENA c
      in case port_bit port of None \<Rightarrow> c | Some m \<Rightarrow> Wk2xxxWriteReg spi WK2XXX_GPORT WK2XXX_GENA (gena AND NOT m) c)"

text \<open>The divisor \<open>(baud1, baud0)\<close> of each of the sixteen codes.\<close>

definition baud_divisor :: "int \<Rightarrow> u8 \<times> u8" where
  "baud_divisor baud =
     (if baud = 1 then (0x04, 0x7F) else if baud = 2 then (0x02, 0x3F) else if baud = 3 then (0x01, 0x1F)
      else if baud = 4 then (0x00, 0x8F) else if baud = 5 then (0x00, 0x47) else if baud = 6 then (0x00, 0x23)
      else if baud = 7 then (0x00, 0x11) else if baud = 8 then (0x00, 0x08) else if baud = 9 then (0x01, 0x7F)
      else if baud = 10 then (0x00, 0xBF) else if baud = 11 then (0x00, 0x5F) else if baud = 12 then (0x00, 0x2F)
      else if baud = 13 then (0x00, 0x17) else if baud = 14 then (0x00, 0x0B) else if baud = 15 then (0x00, 0x05)
      else if baud = 16 then (0x00, 0x02) else (0x00, 0x00))"

definition Wk2xxxSetBaud :: "'c spi \<Rightarrow> u8 \<Rightarrow> int \<Rightarrow> 'c \<Rightarrow> 'c" where
  "Wk2xxxSetBaud spi port baud c =
     (let (baud1, baud0) = baud_divisor baud;
          (scr, c) = Wk2xxxReadReg spi port WK2XXX_SCR c;
          c = Wk2xxxWriteReg spi port WK2XXX_SCR 0 c;
          c = Wk2xxxWriteReg spi port WK2XXX_SPAGE 1 c;
          c = Wk2xxxWriteReg spi port WK2XXX_BAUD1 baud1 c;
          c = Wk2xxxWriteReg spi port WK2XXX_BAUD0 baud0 c;
          c = Wk2xxxWriteReg spi port WK2XXX_PRES 0 c;
          c = Wk2xxxWriteReg spi port WK2XXX_SPAGE 0 c
      in Wk2xxxWriteReg spi port WK2XXX_SCR scr c)"

section \<open>Data\<close>

text \<open>\<open>ret\<close> is not set when the transmit queue is full; \<open>stack_ret\<close> is what it then holds.\<close>

definition Wk2xxxSendBuf :: "'c spi \<Rightarrow> u32 \<Rightarrow> u8 \<Rightarrow> u8 list \<Rightarrow> u32 \<Rightarrow> 'c \<Rightarrow> (u32 \<times> 'c) option" where
  "Wk2xxxSendBuf spi stack_ret port sendbuf len c =
     (let (fsr, c) = Wk2xxxReadReg spi port WK2XXX_FSR c
      in if NOT fsr AND WK2XXX_TFULL \<noteq> 0 then
           let (cnt, c) = Wk2xxxReadReg spi port WK2XXX_TFCNT c; sendlen = 256 - ucast cnt
           in if sendlen < len then do { c \<leftarrow> Wk2xxxWriteFifo spi port sendbuf sendlen c; Some (sendlen, c) }
              else do { c \<leftarrow> Wk2xxxWriteFifo spi port sendbuf len c; Some (len, c) }
         else Some (stack_ret, c))"

definition Wk2xxxGetBuf :: "'c spi \<Rightarrow> u8 \<Rightarrow> u8 list \<Rightarrow> 'c \<Rightarrow> (u32 \<times> u8 list \<times> 'c) option" where
  "Wk2xxxGetBuf spi port getbuf c =
     (let (fsr, c) = Wk2xxxReadReg spi port WK2XXX_FSR c
      in if fsr AND WK2XXX_RDAT \<noteq> 0 then do {
           let (rfcnt, c) = Wk2xxxReadReg spi port WK2XXX_RFCNT c;
           let rfcnt = (if rfcnt = 0 then 256 else ucast rfcnt :: u32);
           (getbuf, c) \<leftarrow> Wk2xxxReadFifo spi port getbuf rfcnt c;
           Some (rfcnt, getbuf, c)
         }
         else Some (0, getbuf, c))"

section \<open>The loops with an 8-bit counter\<close>

lemma fifo_turns_ok: "\<lbrakk>len < 256; k \<le> len\<rbrakk> \<Longrightarrow> fifo_turns (of_nat len) (of_nat k) = Some (len - k)"
proof (induction "len - k" arbitrary: k)
  case 0
  then show ?case by (subst fifo_turns.simps) (simp add: word_less_nat_alt)
next
  case (Suc d)
  then have k: "k < len" by simp
  then have "unat (ucast (of_nat k :: u8) :: u32) = k" using Suc.prems(1) by simp
  then have "(ucast (of_nat k :: u8) :: u32) < of_nat len" using k Suc.prems(1) by (simp add: word_less_nat_alt)
  moreover have "fifo_turns (of_nat len) (of_nat (Suc k)) = Some (len - Suc k)"
    using Suc.hyps(2) k Suc.prems(1) by (intro Suc.hyps(1)) simp_all
  moreover have "(of_nat k + 1 :: u8) = of_nat (Suc k)" by simp
  ultimately show ?case using k by (subst fifo_turns.simps) (simp del: of_nat_Suc)
qed

lemma fifo_turns_all: "unat len < 256 \<Longrightarrow> fifo_turns len 0 = Some (unat len)"
  using fifo_turns_ok [of "unat len" 0] by simp

lemma fifo_turns_bound: "fifo_turns len n = Some k \<Longrightarrow> unat len < 256"
proof (rule fifo_turns.raw_induct [where P = "\<lambda>len n k. unat len < 256"])
  fix turns :: "u32 \<Rightarrow> u8 \<Rightarrow> nat option" and len n k
  assume ih: "\<And>len n k. turns len n = Some k \<Longrightarrow> unat len < 256"
    and eq: "(if ucast n < len then Option.bind (turns len (n + 1)) (\<lambda>k. Some (Suc k)) else Some 0) = Some k"
  show "unat len < 256"
  proof (cases "(ucast n :: u32) < len")
    case True
    then show ?thesis using eq by (auto split: bind_splits dest: ih)
  next
    case False
    then have "unat len \<le> unat (ucast n :: u32)" by (simp add: word_less_nat_alt)
    also have "\<dots> < 256" using unsigned_less [of n, where 'a = nat] by simp
    finally show ?thesis .
  qed
qed

lemma fifo_turns_None: "256 \<le> unat len \<Longrightarrow> fifo_turns len 0 = None"
  using fifo_turns_bound [of len 0] by (cases "fifo_turns len 0") auto

section \<open>The chip\<close>

text \<open>
  \<open>sent\<close> is all that was ever written to the transmit queue of a port, \<open>pending\<close> how much of it is still
  in the queue, \<open>rxq\<close> the receive queue. Transmission goes on all the time; what arrives during a call of
  the driver counts as arrived after it.
\<close>

definition quiet :: "('c \<Rightarrow> u8 \<Rightarrow> u8 list) \<Rightarrow> ('c \<Rightarrow> u8 \<Rightarrow> nat) \<Rightarrow> ('c \<Rightarrow> u8 \<Rightarrow> u8 list) \<Rightarrow> 'c \<Rightarrow> 'c \<Rightarrow> bool" where
  "quiet sent pending rxq c c' \<longleftrightarrow> sent c' = sent c \<and> rxq c' = rxq c \<and> (\<forall>q. pending c' q \<le> pending c q)"

locale uart_bridge =
  fixes spi :: "'c spi" and sent :: "'c \<Rightarrow> u8 \<Rightarrow> u8 list" and pending :: "'c \<Rightarrow> u8 \<Rightarrow> nat" and rxq :: "'c \<Rightarrow> u8 \<Rightarrow> u8 list"
  assumes fsr_law: "\<lbrakk>p \<in> {1, 2, 3, 4}; spi c [0x40 + push_bit 4 (p - 1) + 0x0B, x] = (c', rx)\<rbrakk> \<Longrightarrow>
      quiet sent pending rxq c c' \<and> (rx ! 1 AND 0x02 = 0 \<longleftrightarrow> pending c' p < 256) \<and> (rx ! 1 AND 0x08 = 0 \<longleftrightarrow> rxq c' p = [])"
    and tfcnt_law: "\<lbrakk>p \<in> {1, 2, 3, 4}; spi c [0x40 + push_bit 4 (p - 1) + 0x09, x] = (c', rx)\<rbrakk> \<Longrightarrow>
      quiet sent pending rxq c c' \<and> rx ! 1 = of_nat (pending c' p)"
    and rfcnt_law: "\<lbrakk>p \<in> {1, 2, 3, 4}; spi c [0x40 + push_bit 4 (p - 1) + 0x0A, x] = (c', rx)\<rbrakk> \<Longrightarrow>
      quiet sent pending rxq c c' \<and> rx ! 1 = of_nat (length (rxq c' p))"
    and write_law: "\<lbrakk>p \<in> {1, 2, 3, 4}; pending c p + length data \<le> 256; spi c ((0x80 + push_bit 4 (p - 1)) # data) = (c', rx)\<rbrakk> \<Longrightarrow>
      sent c' = (sent c)(p := sent c p @ data) \<and> rxq c' = rxq c"
    and read_law: "\<lbrakk>p \<in> {1, 2, 3, 4}; n \<le> length (rxq c p); spi c ((0xC0 + push_bit 4 (p - 1)) # replicate n x) = (c', rx)\<rbrakk> \<Longrightarrow>
      drop 1 rx = take n (rxq c p) \<and> rxq c' = (rxq c)(p := drop n (rxq c p)) \<and> sent c' = sent c \<and> (\<forall>q. pending c' q \<le> pending c q)"
begin

lemma ReadReg_fsr:
  assumes "p \<in> {1, 2, 3, 4}"
  obtains v c' where "Wk2xxxReadReg spi p WK2XXX_FSR c = (v, c')" "quiet sent pending rxq c c'"
    "v AND 0x02 = 0 \<longleftrightarrow> pending c' p < 256" "v AND 0x08 = 0 \<longleftrightarrow> rxq c' p = []"
  using fsr_law [OF assms, of c 0]
  by (cases "spi c [0x40 + push_bit 4 (p - 1) + 0x0B, 0]") (auto simp: Wk2xxxReadReg_def WK2XXX_FSR_def)

lemma ReadReg_tfcnt:
  assumes "p \<in> {1, 2, 3, 4}"
  obtains c' where "Wk2xxxReadReg spi p WK2XXX_TFCNT c = (of_nat (pending c' p), c')" "quiet sent pending rxq c c'"
  using tfcnt_law [OF assms, of c 0]
  by (cases "spi c [0x40 + push_bit 4 (p - 1) + 0x09, 0]") (auto simp: Wk2xxxReadReg_def WK2XXX_TFCNT_def)

lemma ReadReg_rfcnt:
  assumes "p \<in> {1, 2, 3, 4}"
  obtains c' where "Wk2xxxReadReg spi p WK2XXX_RFCNT c = (of_nat (length (rxq c p)), c')" "quiet sent pending rxq c c'"
  using rfcnt_law [OF assms, of c 0]
  by (cases "spi c [0x40 + push_bit 4 (p - 1) + 0x0A, 0]") (auto simp: Wk2xxxReadReg_def WK2XXX_RFCNT_def quiet_def)

text \<open>What fits into the transmit queue is queued as a whole.\<close>

lemma SendBuf_ok:
  assumes p: "p \<in> {1, 2, 3, 4}" and "pending c p + unat len \<le> 256" and "pending c p < 256" and "unat len < 256"
    and "unat len \<le> length buf"
  shows "\<exists>c'. Wk2xxxSendBuf spi r p buf len c = Some (len, c') \<and>
    sent c' = (sent c)(p := sent c p @ take (unat len) buf) \<and> rxq c' = rxq c"
proof -
  obtain v c1 where 1: "Wk2xxxReadReg spi p WK2XXX_FSR c = (v, c1)" "quiet sent pending rxq c c1" "v AND 0x02 = 0 \<longleftrightarrow> pending c1 p < 256"
    using ReadReg_fsr [OF p] by blast
  obtain c2 where 2: "Wk2xxxReadReg spi p WK2XXX_TFCNT c1 = (of_nat (pending c2 p), c2)" "quiet sent pending rxq c1 c2"
    using ReadReg_tfcnt [OF p] by blast
  have pend: "pending c1 p \<le> pending c p" "pending c2 p \<le> pending c1 p" using 1(2) 2(2) by (simp_all add: quiet_def)
  then have n: "pending c2 p < 256" "pending c2 p + unat len \<le> 256" using assms by simp_all
  have "NOT v AND (0x02 :: u8) \<noteq> 0"
  proof -
    have "v AND 0x02 = 0" using 1(3) pend assms by simp
    then have "\<not> bit (v AND 0x02) 1" by simp
    then have "bit (NOT v AND (0x02 :: u8)) 1" by (simp add: bit_simps)
    then show ?thesis by auto
  qed
  moreover have "\<not> 256 - ucast (of_nat (pending c2 p) :: u8) < len"
  proof -
    have "unat (256 - ucast (of_nat (pending c2 p) :: u8) :: u32) = 256 - pending c2 p"
      using n by (simp add: unat_sub word_le_nat_alt)
    then show ?thesis using n by (simp add: word_less_nat_alt)
  qed
  moreover obtain c3 rx where 3: "spi c2 ((0x80 + push_bit 4 (p - 1)) # take (unat len) buf) = (c3, rx)" by (rule prod.exhaust)
  have "sent c3 = (sent c2)(p := sent c2 p @ take (unat len) buf) \<and> rxq c3 = rxq c2"
    using write_law [OF p _ 3] n assms(5) by simp
  then have "sent c3 = (sent c)(p := sent c p @ take (unat len) buf) \<and> rxq c3 = rxq c"
    using 1(2) 2(2) by (simp add: quiet_def)
  ultimately show ?thesis
    using 1(1) 2(1) 3 assms(4,5)
    by (simp add: Wk2xxxSendBuf_def WK2XXX_TFULL_def Wk2xxxWriteFifo_def fifo_turns_all Let_def)
qed

lemma GetBuf_ok:
  assumes p: "p \<in> {1, 2, 3, 4}" and "length (rxq c p) < 256" and "length (rxq c p) \<le> length buf"
  shows "\<exists>c'. Wk2xxxGetBuf spi p buf c = Some (of_nat (length (rxq c p)), rxq c p @ drop (length (rxq c p)) buf, c') \<and>
    rxq c' = (rxq c)(p := []) \<and> sent c' = sent c \<and> (\<forall>q. pending c' q \<le> pending c q)"
proof -
  let ?n = "length (rxq c p)"
  obtain v c1 where 1: "Wk2xxxReadReg spi p WK2XXX_FSR c = (v, c1)" "quiet sent pending rxq c c1" "v AND 0x08 = 0 \<longleftrightarrow> rxq c1 p = []"
    using ReadReg_fsr [OF p] by blast
  show ?thesis
  proof (cases "rxq c p = []")
    case True
    then have "v AND 0x08 = 0" using 1(2,3) by (simp add: quiet_def)
    moreover have "rxq c1 = (rxq c)(p := [])" using 1(2) True by (auto simp: quiet_def)
    ultimately show ?thesis using 1(1,2) True by (simp add: Wk2xxxGetBuf_def WK2XXX_RDAT_def quiet_def)
  next
    case False
    obtain c2 where 2: "Wk2xxxReadReg spi p WK2XXX_RFCNT c1 = (of_nat (length (rxq c1 p)), c2)" "quiet sent pending rxq c1 c2"
      using ReadReg_rfcnt [OF p] by blast
    have q: "rxq c2 = rxq c" "rxq c1 = rxq c" "sent c2 = sent c" "\<forall>q. pending c2 q \<le> pending c q"
      using 1(2) 2(2) by (auto simp: quiet_def intro: order_trans)
    have n: "(of_nat ?n :: u8) \<noteq> 0" "unat (ucast (of_nat ?n :: u8) :: u32) = ?n"
      using False assms(2) by (simp_all add: word_unat_eq_iff)
    have u: "(ucast (of_nat ?n :: u8) :: u32) = of_nat ?n" using assms(2) by (simp add: word_unat_eq_iff)
    obtain c3 rx where 3: "spi c2 ((0xC0 + push_bit 4 (p - 1)) # replicate ?n 0) = (c3, rx)" by (rule prod.exhaust)
    have r: "drop 1 rx = rxq c p" "rxq c3 = (rxq c)(p := []) \<and> sent c3 = sent c \<and> (\<forall>q. pending c3 q \<le> pending c q)"
      using read_law [OF p _ 3] q by (auto intro: order_trans)
    have "blit buf 0 (drop 1 rx) = Some (rxq c p @ drop ?n buf)" using assms(3) by (simp only: r blit_def) simp
    then show ?thesis
      using 1(1,3) 2(1) 3 q n assms(2) False u r(2)
      by (simp add: Wk2xxxGetBuf_def WK2XXX_RDAT_def Wk2xxxReadFifo_def fifo_turns_all Let_def)
  qed
qed

text \<open>A full receive queue reads as 256, which the loop that empties it never reaches.\<close>

lemma GetBuf_full:
  assumes p: "p \<in> {1, 2, 3, 4}" and "length (rxq c p) = 256"
  shows "Wk2xxxGetBuf spi p buf c = None"
proof -
  obtain v c1 where 1: "Wk2xxxReadReg spi p WK2XXX_FSR c = (v, c1)" "quiet sent pending rxq c c1" "v AND 0x08 = 0 \<longleftrightarrow> rxq c1 p = []"
    using ReadReg_fsr [OF p] by blast
  obtain c2 where 2: "Wk2xxxReadReg spi p WK2XXX_RFCNT c1 = (of_nat (length (rxq c1 p)), c2)"
    using ReadReg_rfcnt [OF p] by blast
  have "rxq c1 = rxq c" using 1(2) by (simp add: quiet_def)
  then show ?thesis
    using 1(1,3) 2 assms(2) fifo_turns_None [of 256]
    by (auto simp: Wk2xxxGetBuf_def WK2XXX_RDAT_def Wk2xxxReadFifo_def Let_def)
qed

end

section \<open>A chip\<close>

text \<open>A chip that puts every byte on the line at once; registers without effect on the data read as 0.\<close>

record wk_chip =
  wk_sent :: "u8 \<Rightarrow> u8 list"
  wk_rx :: "u8 \<Rightarrow> u8 list"

definition wk_spi :: "wk_chip spi" where
  "wk_spi c tx = (case tx of [] \<Rightarrow> (c, [])
     | cmd # args \<Rightarrow>
         let p = 1 + drop_bit 4 (cmd AND 0x30); n = length args; kind = cmd AND 0xC0; reg = cmd AND 0x0F
         in if kind = 0x80 then (c\<lparr>wk_sent := (wk_sent c)(p := wk_sent c p @ args)\<rparr>, replicate (Suc n) 0)
            else if kind = 0xC0 then
              (c\<lparr>wk_rx := (wk_rx c)(p := drop n (wk_rx c p))\<rparr>, 0 # take n (wk_rx c p @ replicate n 0))
            else if kind = 0x40 then
              (c, [0, if reg = 0x0B then (if wk_rx c p = [] then 0x00 else 0x08)
                      else if reg = 0x0A then of_nat (length (wk_rx c p)) else 0x00])
            else (c, replicate (Suc n) 0))"

lemma ports: "p \<in> {1, 2, 3, 4} \<longleftrightarrow> p = 1 \<or> p = 2 \<or> p = 3 \<or> p = (4 :: u8)"
  by simp

interpretation wk: uart_bridge wk_spi wk_sent "\<lambda>_ _. 0" wk_rx
proof (unfold_locales, goal_cases)
  case (1 p c x c' rx) then show ?case by (auto simp: wk_spi_def quiet_def ports Let_def split: if_splits)
next
  case (2 p c x c' rx) then show ?case by (auto simp: wk_spi_def quiet_def ports Let_def)
next
  case (3 p c x c' rx) then show ?case by (auto simp: wk_spi_def quiet_def ports Let_def)
next
  case (4 p c data c' rx) then show ?case by (auto simp: wk_spi_def ports Let_def)
next
  case (5 p n c x c' rx) then show ?case by (auto simp: wk_spi_def ports Let_def)
qed

section \<open>Baud rates\<close>

text \<open>The divisors are those of a clock of 11.0592 MHz.\<close>

definition baud_rates :: "nat list" where
  "baud_rates = [600, 1200, 2400, 4800, 9600, 19200, 38400, 76800, 1800, 3600, 7200, 14400, 28800, 57600, 115200, 230400]"

lemma baud_divisor_eq:
  assumes "i < 16"
  shows "unat (snd (baud_divisor (int i + 1))) + 256 * unat (fst (baud_divisor (int i + 1))) + 1 = 11059200 div (16 * baud_rates ! i)"
proof -
  have "i \<in> set [0..<16]" using assms by simp
  then have "i \<in> {0, 1, 2, 3, 4, 5, 6, 7, 8, 9, 10, 11, 12, 13, 14, 15}" by (simp add: upt_rec numeral_eq_Suc)
  then show ?thesis by (elim insertE emptyE) (simp_all add: baud_divisor_def baud_rates_def)
qed

end
