(* ===== verification/Bluetooth.thy ===== *)
theory Bluetooth
  imports Samples Wk2124
begin

text \<open>
  BLUETOOTH/bluetooth.c and HARDWARE/ATK-HC05/hco5.c: the settings a phone reads and changes over the
  bluetooth module, which hangs on port 1 of the UART bridge, and the turn of \<open>bluetooth_task\<close> in
  THREAD/thread.c that serves it. Output to the console is left out.
\<close>

section \<open>Messages\<close>

record bluetooth_message_header_t =
  bt_start_id :: u16
  bt_fun_id :: u8
  bt_updownid_contentlength :: u16
  bt_content_start_id :: u8

record time_data_t =
  bt_year :: u8
  bt_month :: u8
  bt_day :: u8
  bt_hour :: u8
  bt_minute :: u8
  bt_second :: u8

record querry_realdata_content_t =
  waterlevel_guide_id :: u8
  waterlevel_data_length :: u8
  waterlevel_data :: "u8 list"
  temperature_guide_id :: u8
  temperature_data_length :: u8
  temperature_data :: "u8 list"
  voltage_guide_id :: u8
  voltage_data_length :: u8
  voltage_data :: "u8 list"

abbreviation BT_START_ID :: u16 where "BT_START_ID \<equiv> 0x7E7E"
abbreviation BT_CONTENT_START_ID :: u8 where "BT_CONTENT_START_ID \<equiv> 0x02"
abbreviation TIME_GUIDE_ID :: u8 where "TIME_GUIDE_ID \<equiv> 0xF0"
abbreviation REMOTE_ADDR_GUIDE_ID :: u8 where "REMOTE_ADDR_GUIDE_ID \<equiv> 0xF2"
abbreviation BT_QUIT_FUNID :: u8 where "BT_QUIT_FUNID \<equiv> 0x1B"
abbreviation BT_SETTIME_FUNID :: u8 where "BT_SETTIME_FUNID \<equiv> 0x4A"
abbreviation BT_QUERY_TIME_FUNID :: u8 where "BT_QUERY_TIME_FUNID \<equiv> 0x50"
abbreviation BT_READ_RTU_FUNID :: u8 where "BT_READ_RTU_FUNID \<equiv> 0x41"
abbreviation BT_MODIFY_RTU_PARAMETERS_FUNID :: u8 where "BT_MODIFY_RTU_PARAMETERS_FUNID \<equiv> 0x42"
abbreviation BT_MODIFY_4G_PARAMETERS_FUNID :: u8 where "BT_MODIFY_4G_PARAMETERS_FUNID \<equiv> 0x44"
abbreviation BT_QUERY_REALDATA_FUNID :: u8 where "BT_QUERY_REALDATA_FUNID \<equiv> 0x3A"
abbreviation BT_SENDATA_MANUALLY_FUNID :: u8 where "BT_SENDATA_MANUALLY_FUNID \<equiv> 0x33"

definition bt_header_bytes :: "bluetooth_message_header_t \<Rightarrow> u8 list" where
  "bt_header_bytes h = le16 (bt_start_id h) @ [bt_fun_id h] @ le16 (bt_updownid_contentlength h) @ [bt_content_start_id h]"

definition time_data_bytes :: "time_data_t \<Rightarrow> u8 list" where
  "time_data_bytes t = [bt_year t, bt_month t, bt_day t, bt_hour t, bt_minute t, bt_second t]"

text \<open>The member \<open>content.time\<close> of a received \<open>set_time_frame_t\<close>, at offset 8.\<close>

definition time_data_of :: "u8 list \<Rightarrow> time_data_t option" where
  "time_data_of buff = do {
     xs \<leftarrow> slice buff 8 6;
     Some \<lparr>bt_year = xs ! 0, bt_month = xs ! 1, bt_day = xs ! 2, bt_hour = xs ! 3, bt_minute = xs ! 4, bt_second = xs ! 5\<rparr>
   }"

definition querry_realdata_content_bytes :: "querry_realdata_content_t \<Rightarrow> u8 list" where
  "querry_realdata_content_bytes c =
     [waterlevel_guide_id c, waterlevel_data_length c] @ waterlevel_data c @
     [temperature_guide_id c, temperature_data_length c] @ temperature_data c @
     [voltage_guide_id c, voltage_data_length c] @ voltage_data c"

section \<open>The module\<close>

definition BlueTooth_Sendbuff :: "'w board \<Rightarrow> u8 list \<Rightarrow> u32 \<Rightarrow> ('w, 'z) proto_scheme \<Rightarrow> ('w, 'z) proto_scheme option" where
  "BlueTooth_Sendbuff b buff len s = do {
     (_, w) \<leftarrow> Wk2xxxSendBuf (spi2 b) 0 1 buff len (world s);
     Some (s\<lparr>world := w\<rparr>)
   }"

definition bluetooth_getbuff :: "'w board \<Rightarrow> u8 list \<Rightarrow> ('w, 'z) proto_scheme \<Rightarrow> (u32 \<times> u8 list \<times> ('w, 'z) proto_scheme) option" where
  "bluetooth_getbuff b get_buff s = do {
     (len, get_buff, w) \<leftarrow> Wk2xxxGetBuf (spi2 b) 1 get_buff (world s);
     Some (len, get_buff, s\<lparr>world := w\<rparr>)
   }"

section \<open>Commands\<close>

definition get_bluetooth_content_data :: "u8 list \<Rightarrow> u8 list \<Rightarrow> (nat \<times> u8 list) option" where
  "get_bluetooth_content_data src_buff des_buff = do {
     l \<leftarrow> rd src_buff 7;
     let data_length = unat (drop_bit 3 l);
     data \<leftarrow> slice src_buff 8 data_length;
     des_buff \<leftarrow> blit des_buff 0 data;
     Some (data_length, des_buff)
   }"

text \<open>The weekday of \<open>real_time\<close> is not set: it is what the stack holds.\<close>

definition set_real_time :: "'w board \<Rightarrow> u8 list \<Rightarrow> ('w, 'z) proto_scheme \<Rightarrow> (int \<times> ('w, 'z) proto_scheme) option" where
  "set_real_time b fr s = do {
     t \<leftarrow> time_data_of fr;
     let real_time = (stack_time s)\<lparr>t_year := bt_year t, t_month := bt_month t, t_day := bt_day t,
       t_hour := bt_hour t, t_minute := bt_minute t, t_second := bt_second t\<rparr>;
     let (_, w) = RTC_WriteDate b real_time (world s);
     Some (0, s\<lparr>world := w\<rparr>)
   }"

text \<open>The copy takes the content and the two bytes of the end mark behind it.\<close>

definition set_time_upframe :: "'w board \<Rightarrow> u8 list \<Rightarrow> ('w, 'z) proto_scheme \<Rightarrow> ('w, 'z) proto_scheme option" where
  "set_time_upframe b fr s = do {
     content \<leftarrow> slice fr 6 10;
     let header = \<lparr>bt_start_id = BT_START_ID, bt_fun_id = BT_SETTIME_FUNID, bt_updownid_contentlength = 0x0800,
       bt_content_start_id = BT_CONTENT_START_ID\<rparr>;
     BlueTooth_Sendbuff b (bt_header_bytes header @ content) 16 s
   }"

definition read_time_upframe :: "'w board \<Rightarrow> ('w, 'z) proto_scheme \<Rightarrow> ('w, 'z) proto_scheme option" where
  "read_time_upframe b s =
     (let (_, real_time, w) = RTC_ReadDate b (stack_time s) (world s);
          s = s\<lparr>world := w\<rparr>;
          header = \<lparr>bt_start_id = BT_START_ID, bt_fun_id = BT_QUERY_TIME_FUNID, bt_updownid_contentlength = 0x0800,
            bt_content_start_id = BT_CONTENT_START_ID\<rparr>;
          time = \<lparr>bt_year = t_year real_time, bt_month = t_month real_time, bt_day = t_day real_time,
            bt_hour = t_hour real_time, bt_minute = t_minute real_time, bt_second = t_second real_time\<rparr>
      in BlueTooth_Sendbuff b (bt_header_bytes header @ [TIME_GUIDE_ID, 0x30] @ time_data_bytes time @ le16 0x0A0D) 16 s)"

definition modify_4g_parameters :: "u8 list \<Rightarrow> ('w, 'z) proto_scheme \<Rightarrow> ('w, 'z) proto_scheme option" where
  "modify_4g_parameters buff s = do {
     (_, _) \<leftarrow> get_bluetooth_content_data buff (replicate 20 0);
     Some s
   }"

definition modify_rtu_parameters :: "'w board \<Rightarrow> u8 list \<Rightarrow> ('w, 'z) proto_scheme \<Rightarrow> ('w, 'z) proto_scheme option" where
  "modify_rtu_parameters b buff s = do {
     guide_id \<leftarrow> rd buff 6;
     if guide_id = REMOTE_ADDR_GUIDE_ID then do {
       remote_addr \<leftarrow> slice buff 8 5;
       let s = s\<lparr>g_rtu_parameters := (g_rtu_parameters s)\<lparr>rtu_remote_addr := remote_addr\<rparr>\<rparr>;
       RTU_parameters_Writedata b (g_rtu_parameters s) s
     }
     else Some s
   }"

definition qerry_realdata_upframe :: "'w board \<Rightarrow> ('w, 'z) proto_scheme \<Rightarrow> ('w, 'z) proto_scheme option" where
  "qerry_realdata_upframe b s =
     (let header = \<lparr>bt_start_id = BT_START_ID, bt_fun_id = BT_QUERY_REALDATA_FUNID, bt_updownid_contentlength = 0x0D00,
            bt_content_start_id = BT_CONTENT_START_ID\<rparr>;
          content = \<lparr>waterlevel_guide_id = 0x0E, waterlevel_data_length = 0x1A, waterlevel_data = [0x00, 0x00, 0x12],
            temperature_guide_id = 0x03, temperature_data_length = 0x11, temperature_data = [0x02, 0x24],
            voltage_guide_id = 0x38, voltage_data_length = 0x12, voltage_data = [0x07, 0x33]\<rparr>
      in BlueTooth_Sendbuff b (bt_header_bytes header @ querry_realdata_content_bytes content @ le16 0x0A0D) 21 s)"

definition chang_upid_upframe :: "'w board \<Rightarrow> u8 list \<Rightarrow> u32 \<Rightarrow> ('w, 'z) proto_scheme \<Rightarrow> ('w, 'z) proto_scheme option" where
  "chang_upid_upframe b buff len s = do {
     data \<leftarrow> slice buff 0 (unat len);
     send_buff \<leftarrow> blit (replicate 50 0) 0 data;
     let send_buff = send_buff[3 := (send_buff ! 3) AND 0x7F];
     BlueTooth_Sendbuff b send_buff len s
   }"

definition Response_upframe :: "'w board \<Rightarrow> u8 list \<Rightarrow> u32 \<Rightarrow> u8 \<Rightarrow> ('w, 'z) proto_scheme \<Rightarrow> (int \<times> ('w, 'z) proto_scheme) option" where
  "Response_upframe b buff len fun_id s =
     (if fun_id = BT_QUIT_FUNID then map_option (Pair 0) (chang_upid_upframe b buff len s)
      else if fun_id = BT_SETTIME_FUNID then map_option (Pair 0) (set_time_upframe b buff s)
      else if fun_id = BT_QUERY_TIME_FUNID then map_option (Pair 0) (read_time_upframe b s)
      else if fun_id = BT_READ_RTU_FUNID then map_option (Pair 0) (chang_upid_upframe b buff len s)
      else if fun_id = BT_MODIFY_RTU_PARAMETERS_FUNID then map_option (Pair 0) (chang_upid_upframe b buff len s)
      else if fun_id = BT_MODIFY_4G_PARAMETERS_FUNID then map_option (Pair 0) (chang_upid_upframe b buff len s)
      else if fun_id = BT_QUERY_REALDATA_FUNID then map_option (Pair 0) (qerry_realdata_upframe b s)
      else if fun_id = BT_SENDATA_MANUALLY_FUNID then map_option (Pair 0) (chang_upid_upframe b buff len s)
      else Some (- 1, s))"

definition Execute_commanad :: "'w board \<Rightarrow> u8 list \<Rightarrow> u8 \<Rightarrow> ('w, 'z) proto_scheme \<Rightarrow> (int \<times> ('w, 'z) proto_scheme) option" where
  "Execute_commanad b buff fun_id s =
     (if fun_id = BT_SETTIME_FUNID then do {
        (flag, s) \<leftarrow> set_real_time b buff s;
        Some (if flag = 0 then 0 else - 1, s)
      }
      else if fun_id = BT_MODIFY_RTU_PARAMETERS_FUNID then map_option (Pair 0) (modify_rtu_parameters b buff s)
      else if fun_id = BT_MODIFY_4G_PARAMETERS_FUNID then map_option (Pair 0) (modify_4g_parameters buff s)
      else Some (0, s))"

definition Get_IP_Information :: "u8 list \<Rightarrow> nat \<Rightarrow> u8 list \<Rightarrow> (int \<times> u8 list) option" where
  "Get_IP_Information src_buff len des_buff =
     (if len \<noteq> 6 then Some (- 1, des_buff)
      else do {
        src \<leftarrow> slice src_buff 0 len;
        let buff = concat (map (\<lambda>x. [drop_bit 4 x + 0x30, (x AND 0x0F) + 0x30]) src) @ replicate 8 0;
        let ip = map (\<lambda>i. if (i + 1) mod 4 = 0 then 0x2E else buff ! (i - (i + 1) div 4)) [0..<15];
        des_buff \<leftarrow> blit des_buff 0 (ip @ [0]);
        Some (0, des_buff)
      })"

section \<open>The task\<close>

text \<open>One turn of the loop of \<open>bluetooth_task\<close>, with its buffer of 50 bytes.\<close>

definition bluetooth_turn :: "'w board \<Rightarrow> u8 list \<Rightarrow> ('w, 'z) proto_scheme \<Rightarrow> (u8 list \<times> ('w, 'z) proto_scheme) option" where
  "bluetooth_turn b buff s = do {
     (len, buff, s) \<leftarrow> bluetooth_getbuff b buff s;
     if len > 0 then do {
       fun_id \<leftarrow> rd buff 2;
       (flag, s) \<leftarrow> Execute_commanad b buff fun_id s;
       if flag = 0 then do { (_, s) \<leftarrow> Response_upframe b buff len fun_id s; Some (buff, s) }
       else Some (buff, s)
     }
     else Some (buff, s)
   }"

section \<open>Addresses\<close>

text \<open>Six BCD bytes hold the twelve digits of an address.\<close>

definition ip_text :: "u8 list \<Rightarrow> u8 list" where
  "ip_text ds = map (\<lambda>d. d + 0x30) (take 3 ds) @ [0x2E] @ map (\<lambda>d. d + 0x30) (take 3 (drop 3 ds)) @ [0x2E] @
     map (\<lambda>d. d + 0x30) (take 3 (drop 6 ds)) @ [0x2E] @ map (\<lambda>d. d + 0x30) (take 3 (drop 9 ds))"

lemma bcd_nibbles:
  fixes h l :: u8
  assumes "h < 10" and "l < 10"
  shows "drop_bit 4 (push_bit 4 h OR l) = h" "(push_bit 4 h OR l) AND 0x0F = l"
    "drop_bit 4 (push_bit 4 h) OR drop_bit 4 l = h"
proof -
  have m: "(0x0F :: u8) = mask 4" by (simp add: mask_numeral)
  have b: "bit x n \<Longrightarrow> n < 4" if "x < 10" for x :: u8 and n
  proof (rule ccontr)
    assume "bit x n" "\<not> n < 4"
    then have "2 ^ 4 \<le> unat x"
      by (metis bit_take_bit_iff linorder_not_le not_less_eq_eq take_bit_nat_eq_self bit_unsigned_iff unsigned_take_bit_eq word_unat_eq_iff)
    moreover have "unat x < 10" using that by (simp add: word_less_nat_alt)
    ultimately show False by simp
  qed
  show d: "drop_bit 4 (push_bit 4 h OR l) = h"
    by (rule bit_word_eqI) (use b [OF assms(1)] b [OF assms(2)] in \<open>auto simp: bit_simps dest: bit_imp_le_length\<close>)
  show "drop_bit 4 (push_bit 4 h) OR drop_bit 4 l = h" using d by simp
  show "(push_bit 4 h OR l) AND 0x0F = l"
    unfolding m by (rule bit_word_eqI) (use b [OF assms(2)] in \<open>auto simp: bit_simps dest: bit_imp_le_length\<close>)
qed

lemma upt15: "[0..<15] = [0, 1, 2, 3, 4, 5, 6, 7, 8, 9, 10, 11, 12, 13, 14]"
  by (simp add: upt_rec)

lemma Get_IP_ok:
  assumes "length des = 16" and "\<forall>d \<in> {a1, a2, a3, b1, b2, b3, c1, c2, c3, d1, d2, d3}. d < (10 :: u8)"
  shows "Get_IP_Information [push_bit 4 a1 OR a2, push_bit 4 a3 OR b1, push_bit 4 b2 OR b3, push_bit 4 c1 OR c2,
      push_bit 4 c3 OR d1, push_bit 4 d2 OR d3] 6 des =
    Some (0, ip_text [a1, a2, a3, b1, b2, b3, c1, c2, c3, d1, d2, d3] @ [0])"
  using assms by (simp add: Get_IP_Information_def ip_text_def bcd_nibbles blit_def upt15 Let_def del: upt_Suc)

section \<open>The contents of a frame\<close>

lemma content_data_iff:
  assumes "length buff = 50" and "length des = 20"
  shows "get_bluetooth_content_data buff des = None \<longleftrightarrow> 20 < unat (buff ! 7) div 8"
proof -
  have n: "unat (drop_bit 3 (buff ! 7)) = unat (buff ! 7) div 8" 
    by (simp only: unat_drop_bit_eq) (simp add: drop_bit_eq_div)
  have "unat (buff ! 7) < 256" using unsigned_less [of "buff ! 7", where 'a = nat] by simp
  then have "unat (buff ! 7) div 8 < 32" by simp
  then show ?thesis using assms by (simp add: get_bluetooth_content_data_def n slice_def blit_def Let_def)
qed

section \<open>The station and the phone\<close>

locale phone = station b cells busy wel code + uart_bridge "spi2 b" sent_on pending rxq
  for b :: "'w board" and cells :: "'w \<Rightarrow> nat \<Rightarrow> u8" and busy wel code
    and sent_on :: "'w \<Rightarrow> u8 \<Rightarrow> u8 list" and pending :: "'w \<Rightarrow> u8 \<Rightarrow> nat" and rxq :: "'w \<Rightarrow> u8 \<Rightarrow> u8 list" +
  assumes flash_keeps_bridge [simp]: "sent_on (fst (spi1 b w tx)) = sent_on w" "pending (fst (spi1 b w tx)) = pending w"
      "rxq (fst (spi1 b w tx)) = rxq w"
    and bridge_keeps_flash [simp]: "cells (fst (spi2 b w tx)) = cells w" "busy (fst (spi2 b w tx)) = busy w"

sublocale phone \<subseteq> quiet_bus: spi_frame "spi1 b" "\<lambda>w. (sent_on w, pending w, rxq w)"
  by unfold_locales simp

context phone
begin

lemma bridge_registers [simp]:
  "cells (snd (Wk2xxxReadReg (spi2 b) p r w)) = cells w" "busy (snd (Wk2xxxReadReg (spi2 b) p r w)) = busy w"
  by (simp_all add: Wk2xxxReadReg_def split_beta Let_def)

lemma SendBuf_keeps:
  "Wk2xxxSendBuf (spi2 b) r p buf len w = Some (n, w') \<Longrightarrow> cells w' = cells w \<and> busy w' = busy w"
  by (auto simp: Wk2xxxSendBuf_def Wk2xxxWriteFifo_def split_beta Let_def split: bind_splits if_splits)

lemma GetBuf_keeps:
  "Wk2xxxGetBuf (spi2 b) p buf w = Some (n, buf', w') \<Longrightarrow> cells w' = cells w \<and> busy w' = busy w"
  by (auto simp: Wk2xxxGetBuf_def Wk2xxxReadFifo_def split_beta Let_def split: bind_splits if_splits)

lemma modify_ok:
  assumes "busy (world s) = 0" and "param_wf (g_rtu_parameters s)" and "length buff = 50" and "buff ! 6 = REMOTE_ADDR_GUIDE_ID"
    and "p = (g_rtu_parameters s)\<lparr>rtu_remote_addr := take 5 (drop 8 buff)\<rparr>"
  shows "\<exists>w. modify_rtu_parameters b buff s = Some (s\<lparr>g_rtu_parameters := p, world := w\<rparr>) \<and> busy w = 0 \<and>
    cells w = mem_write (cells (world s)) 0x080010 (param_bytes p) \<and> stored_parameters (cells w) = p \<and>
    sent_on w = sent_on (world s) \<and> pending w = pending (world s) \<and> rxq w = rxq (world s)"
proof -
  have wf: "param_wf p" using assms(2,3,5) by (simp add: param_wf_def param_chunks_def param_sizes_def)
  let ?s = "s\<lparr>g_rtu_parameters := p\<rparr>"
  note l = length_param_bytes [OF wf]
  obtain w where w: "flash_write b (param_bytes p) IDR_RTU_PARAMETERS 121 ?s = Some (?s\<lparr>world := w\<rparr>)" "busy w = 0"
    "cells w = mem_write (cells (world s)) 0x080010 (param_bytes p)"
    using flash_write_ok [of ?s 121 IDR_RTU_PARAMETERS "param_bytes p"] assms(1) l by (auto simp: IDR_RTU_PARAMETERS_def)
  have "W25QXX_Write (spi1 b) (world s) (param_bytes p) IDR_RTU_PARAMETERS 121 = Some w"
    using w(1) by (auto simp: flash_write_def split: bind_splits dest: arg_cong [of _ _ world])
  then have "(sent_on w, pending w, rxq w) = (sent_on (world s), pending (world s), rxq (world s))"
    by (rule quiet_bus.Write_keeps)
  moreover have "stored_parameters (cells w) = p"
    using mem_read_write_same [of "cells (world s)" "0x080010" "param_bytes p"] w(3)
    by (simp add: stored_parameters_def l param_of_bytes [OF wf])
  moreover have "modify_rtu_parameters b buff s = Some (?s\<lparr>world := w\<rparr>)"
    using w(1) assms(3-5) by (simp add: modify_rtu_parameters_def RTU_parameters_Writedata_def Let_def)
  ultimately show ?thesis using w(2,3) by blast
qed

lemma answer_ok:
  assumes "unat len = n" and "4 \<le> n" and "n \<le> 50" and "length q = n" and "pending (world s) 1 + n \<le> 256"
  shows "\<exists>w. chang_upid_upframe b (q @ rest) len s = Some (s\<lparr>world := w\<rparr>) \<and> cells w = cells (world s) \<and>
    busy w = busy (world s) \<and> rxq w = rxq (world s) \<and>
    sent_on w = (sent_on (world s))(1 := sent_on (world s) 1 @ q[3 := (q ! 3) AND 0x7F])"
proof -
  let ?buf = "(q @ replicate (50 - n) 0)[3 := (q ! 3) AND 0x7F]"
  have c: "chang_upid_upframe b (q @ rest) len s = BlueTooth_Sendbuff b ?buf len s"
    using assms(1-4) by (simp add: chang_upid_upframe_def slice_def blit_def nth_append)
  have l: "unat len < 256" "unat len \<le> length ?buf" "take (unat len) ?buf = q[3 := (q ! 3) AND 0x7F]"
    using assms(1-4) by (simp_all add: list_update_append)
  have room: "pending (world s) 1 + unat len \<le> 256" "pending (world s) 1 < 256" using assms(1,2,5) by simp_all
  obtain w where w: "Wk2xxxSendBuf (spi2 b) 0 1 ?buf len (world s) = Some (len, w)"
    "sent_on w = (sent_on (world s))(1 := sent_on (world s) 1 @ q[3 := (q ! 3) AND 0x7F])" "rxq w = rxq (world s)"
    using SendBuf_ok [of 1 "world s" len ?buf 0] room l by auto
  then show ?thesis using SendBuf_keeps [OF w(1)] by (intro exI [of _ w]) (simp add: c BlueTooth_Sendbuff_def)
qed

lemma address_turn:
  assumes idle: "busy (world s) = 0" and g: "param_wf (g_rtu_parameters s)" and buff: "length buff = 50"
    and q: "rxq (world s) 1 = q" "13 \<le> length q" "length q \<le> 50" "q ! 2 = BT_MODIFY_RTU_PARAMETERS_FUNID"
      "q ! 6 = REMOTE_ADDR_GUIDE_ID"
    and room: "pending (world s) 1 + length q \<le> 256"
    and p: "p = (g_rtu_parameters s)\<lparr>rtu_remote_addr := take 5 (drop 8 q)\<rparr>"
  shows "\<exists>buff' s'. bluetooth_turn b buff s = Some (buff', s') \<and> busy (world s') = 0 \<and> g_rtu_parameters s' = p \<and>
    cells (world s') = mem_write (cells (world s)) 0x080010 (param_bytes p) \<and> stored_parameters (cells (world s')) = p \<and>
    rxq (world s') 1 = [] \<and> sent_on (world s') 1 = sent_on (world s) 1 @ q[3 := (q ! 3) AND 0x7F]"
proof -
  let ?n = "length q" and ?buff = "q @ drop (length q) buff"
  obtain w1 where 1: "Wk2xxxGetBuf (spi2 b) 1 buff (world s) = Some (of_nat ?n, ?buff, w1)"
    "rxq w1 = (rxq (world s))(1 := [])" "sent_on w1 = sent_on (world s)" "\<forall>k. pending w1 k \<le> pending (world s) k"
    using GetBuf_ok [of 1 "world s" buff] q buff by auto
  note k1 = GetBuf_keeps [OF 1(1)]
  let ?s1 = "s\<lparr>world := w1\<rparr>"
  have l: "length ?buff = 50" "?buff ! 6 = REMOTE_ADDR_GUIDE_ID" "take 5 (drop 8 ?buff) = take 5 (drop 8 q)" "?buff ! 2 = q ! 2"
    using q buff by (simp_all add: nth_append)
  have "busy (world ?s1) = 0" "param_wf (g_rtu_parameters ?s1)" "p = (g_rtu_parameters ?s1)\<lparr>rtu_remote_addr := take 5 (drop 8 ?buff)\<rparr>"
    using idle g k1 p l(3) by simp_all
  from modify_ok [OF this(1,2) l(1,2) this(3)] obtain w2 where
    2: "modify_rtu_parameters b ?buff ?s1 = Some (?s1\<lparr>g_rtu_parameters := p, world := w2\<rparr>)" "busy w2 = 0"
      "cells w2 = mem_write (cells (world ?s1)) 0x080010 (param_bytes p)" "stored_parameters (cells w2) = p"
      "sent_on w2 = sent_on (world ?s1)" "pending w2 = pending (world ?s1)" "rxq w2 = rxq (world ?s1)"
    by blast
  let ?s2 = "?s1\<lparr>g_rtu_parameters := p, world := w2\<rparr>"
  have n: "unat (of_nat ?n :: u32) = ?n" using q by simp
  have "pending w1 1 \<le> pending (world s) 1" using 1(4) by blast
  then have room2: "pending (world ?s2) 1 + ?n \<le> 256" using room 2(6) by simp
  obtain w3 where 3: "chang_upid_upframe b ?buff (of_nat ?n) ?s2 = Some (?s2\<lparr>world := w3\<rparr>)" "cells w3 = cells w2" "busy w3 = busy w2"
    "rxq w3 = rxq w2" "sent_on w3 = (sent_on w2)(1 := sent_on w2 1 @ q[3 := (q ! 3) AND 0x7F])"
    using answer_ok [OF n _ q(3) refl room2, of "drop ?n buff"] q(2) by auto
  have "bluetooth_turn b buff s = Some (?buff, ?s2\<lparr>world := w3\<rparr>)"
  proof -
    have "bluetooth_getbuff b buff s = Some (of_nat ?n, ?buff, ?s1)" using 1(1) by (simp add: bluetooth_getbuff_def)
    moreover have "0 < ?n" using q(2) by linarith
    then have "(0 :: u32) < of_nat ?n" unfolding word_less_nat_alt n by simp
    moreover have "rd ?buff 2 = Some (q ! 2)" using l(1,4) by simp
    ultimately show ?thesis
      using 2(1) 3(1) q(4) by (simp add: bluetooth_turn_def Execute_commanad_def Response_upframe_def)
  qed
  then show ?thesis using 1 2 3 k1 by simp
qed

end

end
