(* ===== verification/Untouched.thy ===== *)
theory Untouched
  imports Commands
begin

text \<open>
  What the operations of memory store, modem driver and protocol leave alone: everything that later
  components add to the state (\<open>rest\<close>). One fact per operation, collected in \<open>rest_frame\<close> for those with
  a plain result and \<open>rest_result\<close> for those that can fail.
\<close>

abbreviation rest :: "('w, 'z) proto_scheme \<Rightarrow> 'z" where "rest s \<equiv> proto.more s"

named_theorems rest_frame
named_theorems rest_result

section \<open>Flash and samples\<close>

lemma flash_write_rest [rest_result]: "flash_write b bs a n s = Some s' \<Longrightarrow> rest s' = rest s"
  by (auto simp: flash_write_def bind_eq_Some_conv)

lemma flash_read_rest [rest_frame]: "rest (snd (flash_read b a n s)) = rest s"
  by (simp add: flash_read_def split_beta Let_def)

lemma Readdata_rest [rest_frame]: "rest (snd (RTU_parameters_Readdata b s)) = rest s"
  by (simp add: RTU_parameters_Readdata_def split_beta Let_def rest_frame)

lemma Writedata_rest [rest_result]: "RTU_parameters_Writedata b p s = Some s' \<Longrightarrow> rest s' = rest s"
  by (auto simp: RTU_parameters_Writedata_def dest: rest_result)

lemma SaveDataToFlash_rest [rest_result]: "SaveDataToFlash b d t data n s = Some (r, s') \<Longrightarrow> rest s' = rest s"
  by (cases "GetAddress d t (s_monthday s)"; cases "fst (the (GetAddress d t (s_monthday s)))")
    (auto simp: SaveDataToFlash_def bind_eq_Some_conv Let_def dest!: flash_write_rest)

lemma ReadDataFromFlash_rest [rest_result]: "ReadDataFromFlash b d t buf n s = Some (r, bs, s') \<Longrightarrow> rest s' = rest s"
  by (cases "GetAddress d t (s_monthday s)"; cases "fst (the (GetAddress d t (s_monthday s)))")
    (auto simp: ReadDataFromFlash_def bind_eq_Some_conv split_beta Let_def rest_frame)

lemma SaveAndGetData_rest [rest_result]: "SaveAndGetData_FiveMinute b t s = Some (x, y, s') \<Longrightarrow> rest s' = rest s"
  by (auto simp: SaveAndGetData_FiveMinute_def bind_eq_Some_conv split_beta Let_def rest_frame dest!: rest_result)

section \<open>The modem\<close>

lemma IRQ_rest [rest_frame]: "rest (USART2_IRQHandler bs s) = rest s"
  by (simp add: USART2_IRQHandler_def Let_def)

lemma delay_rest [rest_frame]: "rest (delay b s) = rest s"
  by (simp add: delay_def Let_def split_beta rest_frame split: option.splits)

lemma send_string_rest [rest_frame]: "rest (gprs_send_string b x s) = rest s" "rest (Usart2_Send b x s) = rest s"
  by (simp_all add: gprs_send_string_def Usart2_Send_def)

lemma wait_ack_rest [rest_frame]: "rest (snd (wait_ack b ack n s)) = rest s"
proof (induction n arbitrary: s)
  case (Suc n)
  show ?case by (simp add: Let_def rest_frame Suc)
qed simp

lemma send_cmd_rest [rest_frame]: "rest (snd (gprs_send_cmd b cmd ack t r s)) = rest s"
proof (induction r arbitrary: s)
  case (Suc r)
  show ?case by (simp add: Let_def split_beta rest_frame Suc)
qed simp

lemma sequence_rest [rest_frame]: "rest (snd (at_sequence b cmds s)) = rest s"
proof (induction cmds arbitrary: s)
  case (Cons c cmds)
  obtain cmd ack t r e where c: "c = (cmd, ack, t, r, e)" by (cases c) auto
  show ?case unfolding c by (simp add: Let_def split_beta rest_frame Cons)
qed simp

lemma connect_rest [rest_frame]:
  "rest (snd (gprs_init b s)) = rest s" "rest (snd (gprs_net_config b s)) = rest s"
  "rest (snd (gprs_connect b s)) = rest s" "rest (snd (gprs_disconnect b s)) = rest s" "rest (GPRS_Reset b s) = rest s"
  by (simp_all add: gprs_init_def gprs_net_config_def gprs_connect_def gprs_disconnect_def GPRS_Reset_def Let_def split_beta rest_frame)

lemma err_process_rest [rest_frame]: "rest (err_process b e s) = rest s"
  by (simp add: err_process_def Let_def rest_frame)

lemma init_turn_rest:
  fixes s :: "('w, 'z) proto_scheme"
  shows "rest (case init_turn b s of Inl s' \<Rightarrow> s' | Inr s' \<Rightarrow> s') = rest s"
proof -
  have part: "rest (if c then (let (e, s) = x in s\<lparr>s_error_flag := e\<rparr>) else s) = rest s" if "rest (snd x) = rest s"
    for c and x :: "u8 \<times> ('w, 'z) proto_scheme" and s
    using that by (simp add: split_beta)
  define s1 where "s1 = (if \<not> s_gprs_init_flag s \<and> \<not> s_gprs_connect_flag s \<and> \<not> s_gprs_net_flag s
     then let (e, s) = gprs_init b s in s\<lparr>s_error_flag := e\<rparr> else s)"
  define s2 where "s2 = (if \<not> s_gprs_net_flag s1 \<and> \<not> s_gprs_connect_flag s1 \<and> s_gprs_init_flag s1
     then let (e, s) = gprs_net_config b s1 in s\<lparr>s_error_flag := e\<rparr> else s1)"
  define tried where "tried = (s_gprs_init_flag s2 \<and> s_gprs_net_flag s2 \<and> \<not> s_gprs_connect_flag s2)"
  define s3 where "s3 = (if tried then let (e, s) = gprs_connect b s2 in s\<lparr>s_error_flag := e\<rparr> else s2)"
  have "rest s1 = rest s" unfolding s1_def by (intro part connect_rest)
  moreover have "rest s2 = rest s1" unfolding s2_def by (intro part connect_rest)
  moreover have "rest s3 = rest s2" unfolding s3_def by (intro part connect_rest)
  moreover have "init_turn b s = (if tried \<and> s_error_flag s3 = 0 then Inr s3
     else if (\<not> s_gprs_init_flag s3 \<or> \<not> s_gprs_net_flag s3 \<or> \<not> s_gprs_connect_flag s3) \<and> s_error_flag s3 \<noteq> 0
       then Inl (err_process b (s_error_flag s3) s3) else Inl s3)"
    by (simp only: init_turn_def Let_def s1_def s2_def s3_def tried_def)
  ultimately show ?thesis by (simp add: rest_frame)
qed

lemma init_turns_rest [rest_frame]: "rest (snd (init_turns b n s)) = rest s"
proof (induction n arbitrary: s)
  case (Suc n)
  show ?case using init_turn_rest [of b s] Suc by (cases "init_turn b s") simp_all
qed simp

lemma GPRS_4G_Init_rest [rest_frame]: "rest (snd (GPRS_4G_Init b s)) = rest s"
  by (simp add: GPRS_4G_Init_def rest_frame)

lemma send_len_rest [rest_result]: "gprs_send_string_len b bs n s = Some (r, s') \<Longrightarrow> rest s' = rest s"
  by (auto simp: gprs_send_string_len_def bind_eq_Some_conv split_beta Let_def rest_frame split: if_splits)

lemma wp_send_rest [rest_result]: "wp_send_data b n s = Some (r, s') \<Longrightarrow> rest s' = rest s"
  by (auto simp: wp_send_data_def bind_eq_Some_conv split_beta Let_def dest!: rest_result)

lemma picture_start_rest [rest_frame]:
  "rest (FrameConstantInit b s) = rest s" "rest (snd (snd (OpenAndGetPictureSize b s))) = rest s"
  by (simp_all add: FrameConstantInit_def OpenAndGetPictureSize_def split_beta Let_def rest_frame split: option.splits)

lemma Update_rest [rest_result]: "UpdateFrameContentData b buf n f s = Some (r, l, s') \<Longrightarrow> rest s' = rest s"
  by (auto simp: UpdateFrameContentData_def bind_eq_Some_conv split_beta Let_def rest_frame split: if_splits)

lemma CheckReceive_rest [rest_result]: "CheckReceive_loop b n s = Some (r, s') \<Longrightarrow> rest s' = rest s"
proof (induction n arbitrary: s)
  case (Suc n)
  show ?case using Suc.prems Suc.IH [of "delay b s"]
    by (auto simp: Let_def bind_eq_Some_conv rest_frame split: if_splits option.splits)
qed simp

lemma SendPicture_rest [rest_result]: "SendPicture_loop b f s = Some (r, s') \<Longrightarrow> rest s' = rest s"
proof (rule SendPicture_loop.raw_induct [where P = "\<lambda>b f s x. rest (snd x) = rest s", of b f s "(r, s')", simplified snd_conv])
  fix loop b' f' s1 and x :: "int \<times> ('a, 'b) proto_scheme"
  assume ih: "\<And>b f s x. loop b f s = Some x \<Longrightarrow> rest (snd x) = rest s"
    and body: "(case f_read b' TRANS_CONTENT_LEN (world s1) of
        (None, w) \<Rightarrow> Some (- 1, s1\<lparr>world := w\<rparr>)
      | (Some [], w) \<Rightarrow> Some (0, s1\<lparr>world := w\<rparr>)
      | (Some (x # xs), w) \<Rightarrow>
          let s = s1\<lparr>world := w\<rparr>; br = length (x # xs);
              buf = (x # xs) @ replicate (MAX_CONTENT_LEN - br) 0
          in Option.bind (UpdateFrameContentData b' buf br f' s) (\<lambda>(_, br, s).
             Option.bind (wp_send_data b' br s) (\<lambda>(r, s).
               if r \<noteq> 0 then Some (- 1, s)
               else Option.bind (CheckReceive b' (delay b' s)) (\<lambda>(c, s).
                 let s = (if c \<noteq> 0 then s\<lparr>g_single_retransmit_count := g_single_retransmit_count s + 1\<rparr> else s)
                 in loop b' False s)))) = Some x"
  show "rest (snd x) = rest s1"
    using body by (auto simp: Let_def bind_eq_Some_conv CheckReceive_def rest_frame split: prod.split_asm option.split_asm list.split_asm if_split_asm
        dest!: ih rest_result)
qed

lemma SendPictureToServer_rest [rest_result]: "SendPictureToServer b s = Some (r, s') \<Longrightarrow> rest s' = rest s"
  by (auto simp: SendPictureToServer_def Let_def split_beta rest_frame split: if_split_asm dest!: SendPicture_rest)

section \<open>The protocol\<close>

lemma systime_rest [rest_frame]: "rest (snd (read_systime b s)) = rest s"
  by (simp add: read_systime_def split_beta Let_def)

lemma RS232_rest [rest_frame]: "rest (RS232_3_Send_buf b bs s) = rest s"
  by (simp add: RS232_3_Send_buf_def)

lemma QueryRealData_rest [rest_result]: "QueryRealData_Init b s = Some s' \<Longrightarrow> rest s' = rest s"
  by (auto simp: QueryRealData_Init_def bind_eq_Some_conv split_beta Let_def rest_frame)

lemma plus_message_rest [rest_result]: "plus_message_init b s = Some s' \<Longrightarrow> rest s' = rest s"
  by (auto simp: plus_message_init_def bind_eq_Some_conv split_beta Let_def rest_frame)

lemma HourWaterLevel_rest [rest_result]: "HourWaterLevelSaveData_To_Value b xs s = Some (r, s') \<Longrightarrow> rest s' = rest s"
  by (auto simp: HourWaterLevelSaveData_To_Value_def bind_eq_Some_conv split_beta Let_def rest_frame)

lemma hour_message_rest [rest_result]: "hour_message_init b s = Some s' \<Longrightarrow> rest s' = rest s"
  by (auto simp: hour_message_init_def bind_eq_Some_conv split_beta Let_def rest_frame dest!: rest_result)

lemma upframe_rest [rest_result]: "SendTimePerioadData_upframe b m i s = Some (m', s') \<Longrightarrow> rest s' = rest s"
  by (auto simp: SendTimePerioadData_upframe_def bind_eq_Some_conv split_beta Let_def rest_frame split: if_split_asm dest!: rest_result)

lemma full_packets_rest [rest_result]: "send_full_packets b i k n j a m s = Some (a', m', s') \<Longrightarrow> rest s' = rest s"
proof (induction n arbitrary: j a m s)
  case (Suc n)
  then show ?case by (auto simp: bind_eq_Some_conv Let_def dest!: upframe_rest)
qed simp

lemma remainder_rest [rest_result]: "send_remainder b i k n j a m s = Some (m', s') \<Longrightarrow> rest s' = rest s"
  by (auto simp: send_remainder_def Let_def dest!: upframe_rest)

lemma first_address_rest [rest_result]: "first_address d t s = Some (a, s') \<Longrightarrow> rest s' = rest s"
  by (auto simp: first_address_def bind_eq_Some_conv)

lemma packets_rest [rest_result]:
  "send_one_packet b i d t k n m s = Some s' \<Longrightarrow> rest s' = rest s" "send_packets b i d t k n m s = Some s' \<Longrightarrow> rest s' = rest s"
  by (auto simp: send_one_packet_def send_packets_def bind_eq_Some_conv Let_def split: if_split_asm
      dest!: upframe_rest full_packets_rest remainder_rest first_address_rest)

lemma period_rest [rest_result]: "test_SendTimePeriodData b d i s = Some s' \<Longrightarrow> rest s' = rest s"
  by (auto simp: test_SendTimePeriodData_def QueryTimePeriodData_Init_def bind_eq_Some_conv split_beta Let_def rest_frame
      split: if_split_asm dest!: packets_rest)

lemma down_frame_rest [rest_result]: "GetDownFrameFunId i s = Some (f, s') \<Longrightarrow> rest s' = rest s"
  by (auto simp: GetDownFrameFunId_def bind_eq_Some_conv Let_def split: if_split_asm)

lemma answer_rest [rest_result]: "send_answer b i bs s = Some s' \<Longrightarrow> rest s' = rest s"
  by (auto simp: send_answer_def rest_frame split: if_split_asm dest!: send_len_rest)

lemma Execute_rest [rest_result]: "ExecuteFunctionByFunId b f i s = Some (r, s') \<Longrightarrow> rest s' = rest s"
  by (auto simp: ExecuteFunctionByFunId_def QueryParameters_Init_def SetParameters_def bind_eq_Some_conv split_beta Let_def rest_frame
      split: if_split_asm dest!: answer_rest QueryRealData_rest period_rest Writedata_rest)

lemma Response_rest [rest_result]: "ResponseUpMessage b f i s = Some (r, s') \<Longrightarrow> rest s' = rest s"
  by (auto simp: ResponseUpMessage_def Calibration_time_UpMessage_init_def split_beta Let_def rest_frame
      split: if_split_asm dest!: answer_rest)

end
