(* ===== verification/St16c554.thy ===== *)
theory St16c554
  imports Protocol Wk2124
begin

text \<open>
  The four-channel UART: HARDWARE/ST16C554-RS232, HARDWARE/RS232, HARDWARE/RS485 and the branch of
  EXTI9_5_IRQHandler (THREAD/thread.c) that empties its receivers. Channel 0 is the RS485 port, channels 1 to
  3 are RS232 ports; commands come in on channel 2. The chip sits on the memory bus, a parameter; what
  a data sheet says of it is the locale \<open>uart554\<close>. Delays only let time pass and are left out, and so are
  the bus controller's registers and log messages.
\<close>

section \<open>Registers\<close>

record 'w bus =
  bus_read :: "u32 \<Rightarrow> 'w \<Rightarrow> u8 \<times> 'w"
  bus_write :: "u32 \<Rightarrow> u8 \<Rightarrow> 'w \<Rightarrow> 'w"

definition ST16C554D_RHR :: u8 where "ST16C554D_RHR = 0x00"
definition ST16C554D_THR :: u8 where "ST16C554D_THR = 0x00"
definition ST16C554D_IER :: u8 where "ST16C554D_IER = 0x01"
definition ST16C554D_FCR :: u8 where "ST16C554D_FCR = 0x02"
definition ST16C554D_ISR :: u8 where "ST16C554D_ISR = 0x02"
definition ST16C554D_LCR :: u8 where "ST16C554D_LCR = 0x03"
definition ST16C554D_MCR :: u8 where "ST16C554D_MCR = 0x04"
definition ST16C554D_LSR :: u8 where "ST16C554D_LSR = 0x05"
definition ST16C554D_SCR :: u8 where "ST16C554D_SCR = 0x07"
definition DIVLSB :: u8 where "DIVLSB = 0x00"
definition DIVMSB :: u8 where "DIVMSB = 0x01"
definition NO_PARITY :: u8 where "NO_PARITY = 0"
definition EVEN_PARITY :: u8 where "EVEN_PARITY = 2"

definition ST16C554D_BASE :: u32 where "ST16C554D_BASE = 0x60000000"

text \<open>The table of base addresses, as \<open>ST16C554D_Init\<close> fills it before it sets the channels up.\<close>

definition port_base_addr :: "u32 list" where
  "port_base_addr = [ST16C554D_BASE, ST16C554D_BASE OR push_bit 13 0x4, ST16C554D_BASE OR push_bit 13 0x2,
     ST16C554D_BASE OR push_bit 13 0x6]"

definition ST16C554D_ReadReg :: "'w bus \<Rightarrow> u8 \<Rightarrow> u16 \<Rightarrow> 'w \<Rightarrow> (u16 \<times> 'w) option" where
  "ST16C554D_ReadReg bus port reg w = do {
     addr \<leftarrow> rd port_base_addr (unat port);
     let (v, w) = bus_read bus (addr + ucast reg) w;
     Some (ucast v, w)
   }"

definition ST16C554D_WriteReg :: "'w bus \<Rightarrow> u8 \<Rightarrow> u16 \<Rightarrow> u16 \<Rightarrow> 'w \<Rightarrow> 'w option" where
  "ST16C554D_WriteReg bus port reg data w = do {
     addr \<leftarrow> rd port_base_addr (unat port);
     Some (bus_write bus (addr + ucast reg) (ucast data) w)
   }"

definition ST16C554D_WriteByte :: "'w bus \<Rightarrow> u8 \<Rightarrow> u8 \<Rightarrow> u8 \<Rightarrow> 'w \<Rightarrow> 'w option" where
  "ST16C554D_WriteByte bus port reg v w = ST16C554D_WriteReg bus port (ucast reg) (ucast v) w"

definition ST16C554D_ReadByte :: "'w bus \<Rightarrow> u8 \<Rightarrow> u8 \<Rightarrow> 'w \<Rightarrow> (u8 \<times> 'w) option" where
  "ST16C554D_ReadByte bus port reg w = do {
     (v, w) \<leftarrow> ST16C554D_ReadReg bus port (ucast reg) w;
     Some (ucast v AND 0xFF, w)
   }"

definition ST16C554D_Check_Port :: "'w bus \<Rightarrow> u8 \<Rightarrow> 'w \<Rightarrow> (u8 \<times> 'w) option" where
  "ST16C554D_Check_Port bus port w = do {
     w \<leftarrow> ST16C554D_WriteByte bus port ST16C554D_SCR 0xAA w;
     ST16C554D_ReadByte bus port ST16C554D_SCR w
   }"

section \<open>Setting up\<close>

definition baud_table :: "(u8 \<times> u8) list" where
  "baud_table = [(0x00, 0x09), (0x40, 0x02), (0x20, 0x01), (0x48, 0x00), (0x24, 0x00), (0x12, 0x00), (0x0c, 0x00), (0x06, 0x00)]"

definition line_control :: "u8 \<Rightarrow> u8 \<Rightarrow> u8 \<Rightarrow> u8" where
  "line_control parity stop wordLength =
     (let lcr_byte = wordLength OR push_bit 2 stop;
          lcr_byte = (if parity \<noteq> NO_PARITY then
              let lcr_byte = lcr_byte OR push_bit 3 1
              in if parity = EVEN_PARITY then lcr_byte OR 0x10 else lcr_byte AND 0xEF
            else lcr_byte)
      in lcr_byte)"

definition ST16C554D_Init_Port :: "'w bus \<Rightarrow> u8 \<Rightarrow> u8 \<Rightarrow> u8 \<Rightarrow> u8 \<Rightarrow> u8 \<Rightarrow> u8 \<Rightarrow> u8 \<Rightarrow> 'w \<Rightarrow> 'w option" where
  "ST16C554D_Init_Port bus port baud parity stop wordLength fifo trigger w = do {
     divisor \<leftarrow> rd baud_table (unat baud);
     w \<leftarrow> ST16C554D_WriteByte bus port ST16C554D_LCR 0x80 w;
     w \<leftarrow> ST16C554D_WriteByte bus port DIVLSB (fst divisor) w;
     w \<leftarrow> ST16C554D_WriteByte bus port DIVMSB (snd divisor) w;
     w \<leftarrow> ST16C554D_WriteByte bus port ST16C554D_LCR (line_control parity stop wordLength) w;
     w \<leftarrow> (if fifo \<noteq> 0 then do {
         w \<leftarrow> ST16C554D_WriteByte bus port ST16C554D_FCR 0x01 w;
         ST16C554D_WriteByte bus port ST16C554D_FCR (0x07 OR push_bit 6 trigger) w
       }
       else ST16C554D_WriteReg bus port (ucast ST16C554D_FCR) 0x6 w);
     (_, w) \<leftarrow> ST16C554D_ReadByte bus port ST16C554D_ISR w;
     w \<leftarrow> ST16C554D_WriteByte bus port ST16C554D_MCR 0x08 w;
     ST16C554D_WriteByte bus port ST16C554D_IER 0x01 w
   }"

text \<open>All four channels at 115200 baud, eight bits, no parity, one stop bit, with queues that report every byte.\<close>

definition ST16C554D_Reset :: "'w board \<Rightarrow> 'w \<Rightarrow> 'w" where
  "ST16C554D_Reset b w = pin_out b GPIOG 8 False (pin_out b GPIOG 8 True w)"

fun set_up_ports :: "'w bus \<Rightarrow> u8 list \<Rightarrow> 'w \<Rightarrow> 'w option" where
  "set_up_ports bus [] w = Some w"
| "set_up_ports bus (p # ps) w = do { w \<leftarrow> ST16C554D_Init_Port bus p 7 NO_PARITY 0 3 1 0 w; set_up_ports bus ps w }"

fun check_ports :: "'w bus \<Rightarrow> u8 list \<Rightarrow> 'w \<Rightarrow> 'w option" where
  "check_ports bus [] w = Some w"
| "check_ports bus (p # ps) w = do { (_, w) \<leftarrow> ST16C554D_Check_Port bus p w; check_ports bus ps w }"

definition ST16C554D_Init :: "'w board \<Rightarrow> 'w bus \<Rightarrow> 'w \<Rightarrow> (u8 \<times> 'w) option" where
  "ST16C554D_Init b bus w = do {
     w \<leftarrow> set_up_ports bus [0, 1, 2, 3] (ST16C554D_Reset b w);
     w \<leftarrow> check_ports bus [0, 1, 2, 3] w;
     Some (0, w)
   }"

section \<open>Receiving and sending\<close>

text \<open>One more byte is read when the counter \<open>time_out\<close> is at 0.\<close>

fun read_turns :: "'w bus \<Rightarrow> u8 \<Rightarrow> nat \<Rightarrow> u8 list \<Rightarrow> nat \<Rightarrow> 'w \<Rightarrow> (nat \<times> u8 list \<times> 'w) option" where
  "read_turns bus port time_out pBuff len w = do {
     (lsr, w) \<leftarrow> ST16C554D_ReadByte bus port ST16C554D_LSR w;
     if lsr AND 0x01 \<noteq> 0 then do {
       (dat, w) \<leftarrow> ST16C554D_ReadByte bus port ST16C554D_RHR w;
       pBuff \<leftarrow> wr pBuff len dat;
       (case time_out of 0 \<Rightarrow> Some (len + 1, pBuff, w) | Suc n \<Rightarrow> read_turns bus port n pBuff (len + 1) w)
     }
     else Some (len, pBuff, w)
   }"

declare read_turns.simps [simp del]

definition ST16C554D_ReadBuff :: "'w bus \<Rightarrow> u8 \<Rightarrow> u8 list \<Rightarrow> 'w \<Rightarrow> (nat \<times> u8 list \<times> 'w) option" where
  "ST16C554D_ReadBuff bus port pBuff w = read_turns bus port 0x8F pBuff 0 w"

text \<open>A transmitter that never gets ready keeps the loop going for ever.\<close>

partial_function (option) write_turns :: "'w bus \<Rightarrow> u8 \<Rightarrow> u8 list \<Rightarrow> nat \<Rightarrow> nat \<Rightarrow> 'w \<Rightarrow> 'w option" where
  "write_turns bus port pBuff len i w =
     (if i < len then
        Option.bind (ST16C554D_ReadByte bus port ST16C554D_LSR w) (\<lambda>(lsr, w).
          if lsr AND 0x20 \<noteq> 0 then
            Option.bind (rd pBuff i) (\<lambda>x. Option.bind (ST16C554D_WriteByte bus port ST16C554D_THR x w) (\<lambda>w.
              write_turns bus port pBuff len (i + 1) w))
          else write_turns bus port pBuff len i w)
      else Some w)"

definition ST16C554D_WriteBuff :: "'w bus \<Rightarrow> u8 \<Rightarrow> u8 list \<Rightarrow> u32 \<Rightarrow> 'w \<Rightarrow> 'w option" where
  "ST16C554D_WriteBuff bus port pBuff len w = write_turns bus port pBuff (unat len) 0 w"

definition rs485_1_sendbuff :: "'w board \<Rightarrow> 'w bus \<Rightarrow> u8 list \<Rightarrow> u32 \<Rightarrow> 'w \<Rightarrow> 'w option" where
  "rs485_1_sendbuff b bus buff len w = do {
     w \<leftarrow> ST16C554D_WriteBuff bus 0 buff len (pin_out b GPIOB 10 True w);
     Some (pin_out b GPIOB 10 False w)
   }"

text \<open>The second RS485 port hangs on the UART bridge.\<close>

definition rs485_2_sendbuff :: "'w board \<Rightarrow> u8 list \<Rightarrow> u32 \<Rightarrow> 'w \<Rightarrow> 'w option" where
  "rs485_2_sendbuff b buff len w = do {
     (_, w) \<leftarrow> Wk2xxxSendBuf (spi2 b) 0 3 buff len (pin_out b GPIOB 11 True w);
     Some (pin_out b GPIOB 11 False w)
   }"

definition RS232_2_Send_buf :: "'w bus \<Rightarrow> u8 list \<Rightarrow> u32 \<Rightarrow> 'w \<Rightarrow> 'w option" where
  "RS232_2_Send_buf bus buf len w = ST16C554D_WriteBuff bus 1 buf len w"

definition uart_RS232_3_Send_buf :: "'w bus \<Rightarrow> u8 list \<Rightarrow> u32 \<Rightarrow> 'w \<Rightarrow> 'w option" where
  "uart_RS232_3_Send_buf bus buf len w = ST16C554D_WriteBuff bus 2 buf len w"

definition RS232_4_Send_buf :: "'w bus \<Rightarrow> u8 list \<Rightarrow> u32 \<Rightarrow> 'w \<Rightarrow> 'w option" where
  "RS232_4_Send_buf bus buf len w = ST16C554D_WriteBuff bus 3 buf len w"

section \<open>The receive interrupt\<close>

text \<open>The buffers of the ports that no task looks at; \<open>RS232_3_Recv\<close> is part of the state the commands are read from.\<close>

record ports =
  RS485_1_Receive :: "u8 list"
  RS485_1_Address :: nat
  RS232_2_Recv :: "u8 list"
  RS232_2_Recv_Address :: nat
  RS232_4_Recv :: "u8 list"
  RS232_4_Recv_Address :: nat

text \<open>The loop reads while \<open>reg AND bits\<close> shows data; it writes past the end of a buffer that is full.\<close>

partial_function (option) receive_turns ::
    "'w bus \<Rightarrow> u8 \<Rightarrow> u8 \<Rightarrow> u16 \<Rightarrow> u8 list \<Rightarrow> nat \<Rightarrow> 'w \<Rightarrow> (u8 list \<times> nat \<times> 'w) option" where
  "receive_turns bus port reg bits buf a w =
     Option.bind (ST16C554D_ReadReg bus port (ucast ST16C554D_RHR) w) (\<lambda>(dat, w).
       Option.bind (wr buf a (ucast dat)) (\<lambda>buf.
         Option.bind (ST16C554D_ReadReg bus port (ucast reg) w) (\<lambda>(status, w).
           if status AND bits \<noteq> 0 then receive_turns bus port reg bits buf (a + 1) w
           else Some (buf, a + 1, w))))"

definition receive_port :: "'w bus \<Rightarrow> u8 \<Rightarrow> u8 \<Rightarrow> u16 \<Rightarrow> u8 list \<times> nat \<Rightarrow> 'w \<Rightarrow> (u8 list \<times> nat \<times> 'w) option" where
  "receive_port bus port reg bits ba w = do {
     (lsr, w) \<leftarrow> ST16C554D_ReadReg bus port (ucast ST16C554D_LSR) w;
     if lsr AND 0x01 \<noteq> 0 then receive_turns bus port reg bits (fst ba) 0 w else Some (fst ba, snd ba, w)
   }"

definition ST16C554D_interrupt :: "'w bus \<Rightarrow> ports \<Rightarrow> ('w, 'z) proto_scheme \<Rightarrow> (ports \<times> ('w, 'z) proto_scheme) option" where
  "ST16C554D_interrupt bus p s = do {
     (buf0, a0, w) \<leftarrow> receive_port bus 0 ST16C554D_LSR 0x01 (RS485_1_Receive p, RS485_1_Address p) (world s);
     (buf1, a1, w) \<leftarrow> receive_port bus 1 ST16C554D_LSR 0x01 (RS232_2_Recv p, RS232_2_Recv_Address p) w;
     (buf2, a2, w) \<leftarrow> receive_port bus 2 ST16C554D_ISR 0x04 (RS232_3_Recv s, RS232_3_Recv_Address s) w;
     (buf3, a3, w) \<leftarrow> receive_port bus 3 ST16C554D_LSR 0x01 (RS232_4_Recv p, RS232_4_Recv_Address p) w;
     Some (\<lparr>RS485_1_Receive = buf0, RS485_1_Address = a0, RS232_2_Recv = buf1, RS232_2_Recv_Address = a1,
         RS232_4_Recv = buf3, RS232_4_Recv_Address = a3\<rparr>,
       s\<lparr>RS232_3_Recv := buf2, RS232_3_Recv_Address := a2, world := w\<rparr>)
   }"

section \<open>The chip\<close>

text \<open>
  What the driver relies on: \<open>line_in p\<close> is what has arrived on channel \<open>p\<close> by the time it is asked for (what arrives
  during the delays of the interrupt included), \<open>line_out p\<close> what was sent there, \<open>wait p\<close> how often the
  status is still read before the transmitter is ready.
\<close>

definition uart_reg :: "u8 \<Rightarrow> u8 \<Rightarrow> u32" where
  "uart_reg p r = port_base_addr ! unat p + ucast r"

definition channels :: "u8 set" where "channels = {0, 1, 2, 3}"

locale uart554 =
  fixes bus :: "'w bus" and line_in line_out :: "u8 \<Rightarrow> 'w \<Rightarrow> u8 list" and wait :: "u8 \<Rightarrow> 'w \<Rightarrow> nat"
  assumes lsr_law: "\<lbrakk>p \<in> channels; bus_read bus (uart_reg p ST16C554D_LSR) w = (v, w')\<rbrakk> \<Longrightarrow>
      (v AND 0x01 \<noteq> 0 \<longleftrightarrow> line_in p w \<noteq> []) \<and> (v AND 0x20 \<noteq> 0 \<longleftrightarrow> wait p w = 0) \<and> wait p w' = wait p w - 1 \<and>
      line_in q w' = line_in q w \<and> line_out q w' = line_out q w"
    and isr_law: "\<lbrakk>p \<in> channels; bus_read bus (uart_reg p ST16C554D_ISR) w = (v, w')\<rbrakk> \<Longrightarrow>
      (v AND 0x04 \<noteq> 0 \<longleftrightarrow> line_in p w \<noteq> []) \<and> line_in q w' = line_in q w \<and> line_out q w' = line_out q w"
    and rhr_law: "\<lbrakk>p \<in> channels; line_in p w = c # cs; bus_read bus (uart_reg p ST16C554D_RHR) w = (v, w')\<rbrakk> \<Longrightarrow>
      v = c \<and> line_in q w' = (if q = p then cs else line_in q w) \<and> line_out q w' = line_out q w"
    and thr_law: "\<lbrakk>p \<in> channels; wait p w = 0\<rbrakk> \<Longrightarrow>
      line_out q (bus_write bus (uart_reg p ST16C554D_THR) v w) = (if q = p then line_out p w @ [v] else line_out q w) \<and>
      line_in q (bus_write bus (uart_reg p ST16C554D_THR) v w) = line_in q w"

lemma rd_base: "p \<in> channels \<Longrightarrow> rd port_base_addr (unat p) = Some (port_base_addr ! unat p)"
  by (rule rd_Some) (auto simp: channels_def port_base_addr_def)

lemma ucast_u8_u16_u32: "(ucast (ucast (r :: u8) :: u16) :: u32) = ucast r"
  by (rule bit_word_eqI) (auto simp: bit_simps dest: bit_imp_le_length)

lemma ucast_u8_u16_u8: "(ucast (ucast (r :: u8) :: u16) :: u8) = r"
  by (rule bit_word_eqI) (auto simp: bit_simps)

lemma and_ones_u8: "(v :: u8) AND 0xFF = v"
proof -
  have "(0xFF :: u8) = - 1" by simp
  then show ?thesis by (simp only: and.right_neutral)
qed

lemma ReadReg_eq:
  assumes "p \<in> channels" and "bus_read bus (uart_reg p r) w = (v, w')"
  shows "ST16C554D_ReadReg bus p (ucast r) w = Some (ucast v, w')" "ST16C554D_ReadByte bus p r w = Some (v, w')"
  using assms(2) by (simp_all add: ST16C554D_ReadReg_def ST16C554D_ReadByte_def rd_base [OF assms(1)] uart_reg_def
      ucast_u8_u16_u32 ucast_u8_u16_u8 and_ones_u8)

lemma WriteByte_eq:
  assumes "p \<in> channels"
  shows "ST16C554D_WriteByte bus p r v w = Some (bus_write bus (uart_reg p r) v w)"
  by (simp add: ST16C554D_WriteByte_def ST16C554D_WriteReg_def rd_base [OF assms] uart_reg_def ucast_u8_u16_u32 ucast_u8_u16_u8)

lemma ucast_flag: "(ucast (v :: u8) :: u16) AND ucast (m :: u8) \<noteq> 0 \<longleftrightarrow> v AND m \<noteq> 0"
proof -
  have "(ucast v :: u16) AND ucast m = ucast (v AND m)" by (rule bit_word_eqI) (auto simp: bit_simps)
  moreover have "(ucast x :: u16) = 0 \<longleftrightarrow> x = 0" for x :: u8
    by (metis ucast_0 ucast_u8_u16_u8)
  ultimately show ?thesis by simp
qed

lemma flags: "(ucast (v :: u8) :: u16) AND 1 \<noteq> 0 \<longleftrightarrow> v AND 1 \<noteq> 0" "(ucast v :: u16) AND 4 \<noteq> 0 \<longleftrightarrow> v AND 4 \<noteq> 0"
  using ucast_flag [of v 1] ucast_flag [of v 4] by simp_all

text \<open>A buffer and its counter after a burst.\<close>

definition received :: "u8 list \<Rightarrow> u8 list \<times> nat \<Rightarrow> u8 list \<times> nat" where
  "received burst ba = (if burst = [] then ba else (burst @ drop (length burst) (fst ba), length burst))"

lemma receive_turns_step:
  assumes "p \<in> channels" and "bus_read bus (uart_reg p ST16C554D_RHR) w = (v, w1)" and "bus_read bus (uart_reg p reg) w1 = (s, w2)"
  shows "receive_turns bus p reg bits buf a w = Option.bind (wr buf a v) (\<lambda>buf.
    if ucast s AND bits \<noteq> 0 then receive_turns bus p reg bits buf (a + 1) w2 else Some (buf, a + 1, w2))"
  by (subst receive_turns.simps)
    (simp only: ReadReg_eq(1) [OF assms(1,2)] ReadReg_eq(1) [OF assms(1,3)] bind.bind_lunit case_prod_conv ucast_u8_u16_u8)

context uart554
begin

text \<open>One byte of a channel, then its status: with nothing more on the line the loop ends.\<close>

lemma receive_turns_burst:
  assumes p: "p \<in> channels" and reg: "(reg, bits) \<in> {(ST16C554D_LSR, 1), (ST16C554D_ISR, 4)}"
    and "line_in p w = c # cs" and "a \<le> length buf"
  shows "if a + length (c # cs) \<le> length buf
    then \<exists>w'. receive_turns bus p reg bits buf a w = Some (take a buf @ c # cs @ drop (a + length (c # cs)) buf, a + length (c # cs), w') \<and>
      (\<forall>q. line_in q w' = (if q = p then [] else line_in q w) \<and> line_out q w' = line_out q w)
    else receive_turns bus p reg bits buf a w = None"
  using assms(3,4)
proof (induction cs arbitrary: c a buf w)
  case (Nil c a buf w)
  obtain v w1 where 1: "bus_read bus (uart_reg p ST16C554D_RHR) w = (v, w1)" by (rule prod.exhaust)
  obtain s w2 where 2: "bus_read bus (uart_reg p reg) w1 = (s, w2)" by (rule prod.exhaust)
  note r = rhr_law [OF p Nil(1) 1]
  have st: "(ucast s :: u16) AND bits = 0" "line_in q w2 = line_in q w1 \<and> line_out q w2 = line_out q w1" for q
    using reg lsr_law [OF p, of w1 s w2 q] isr_law [OF p, of w1 s w2 q] 2 r [of p] flags [of s] by auto
  note step = receive_turns_step [OF p 1 2, of bits buf a]
  show ?case
  proof (cases "a < length buf")
    case True
    then show ?thesis using r [of p] r st unfolding step by (simp add: upd_conv_take_nth_drop)
  next
    case False
    then show ?thesis unfolding step by (simp add: wr_def)
  qed
next
  case (Cons d cs c a buf w)
  obtain v w1 where 1: "bus_read bus (uart_reg p ST16C554D_RHR) w = (v, w1)" by (rule prod.exhaust)
  obtain s w2 where 2: "bus_read bus (uart_reg p reg) w1 = (s, w2)" by (rule prod.exhaust)
  note r = rhr_law [OF p Cons.prems(1) 1]
  have st: "(ucast s :: u16) AND bits \<noteq> 0" "line_in q w2 = line_in q w1 \<and> line_out q w2 = line_out q w1" for q
    using reg lsr_law [OF p, of w1 s w2 q] isr_law [OF p, of w1 s w2 q] 2 r [of p] flags [of s] by auto
  note step = receive_turns_step [OF p 1 2, of bits buf a]
  show ?case
  proof (cases "a < length buf")
    case True
    let ?buf = "buf[a := c]"
    have more: "receive_turns bus p reg bits buf a w = receive_turns bus p reg bits ?buf (a + 1) w2"
      using r [of p] st(1) True unfolding step by simp
    have "take (a + 1) ?buf = take a buf @ [c]" using True by (simp add: take_Suc_conv_app_nth)
    then show ?thesis
      using Cons.IH [of w2 d "a + 1" ?buf] st(2) r True unfolding more by auto
  next
    case False
    then show ?thesis unfolding step by (simp add: wr_def)
  qed
qed

text \<open>A channel, then the whole interrupt.\<close>

lemma receive_port_burst:
  assumes p: "p \<in> channels" and reg: "(reg, bits) \<in> {(ST16C554D_LSR, 1), (ST16C554D_ISR, 4)}"
  shows "if length (line_in p w) \<le> length (fst ba)
    then \<exists>w'. receive_port bus p reg bits ba w = Some (fst (received (line_in p w) ba), snd (received (line_in p w) ba), w') \<and>
      (\<forall>q. line_in q w' = (if q = p then [] else line_in q w) \<and> line_out q w' = line_out q w)
    else receive_port bus p reg bits ba w = None"
proof -
  obtain v w1 where 1: "bus_read bus (uart_reg p ST16C554D_LSR) w = (v, w1)" by (rule prod.exhaust)
  note r = lsr_law [OF p 1]
  have step: "receive_port bus p reg bits ba w = (if v AND 1 \<noteq> 0 then receive_turns bus p reg bits (fst ba) 0 w1 else Some (fst ba, snd ba, w1))"
    unfolding receive_port_def by (simp only: ReadReg_eq(1) [OF p 1] bind.bind_lunit case_prod_conv flags)
  show ?thesis
  proof (cases "line_in p w")
    case Nil
    then show ?thesis using r [of p] r unfolding step by (auto simp: received_def)
  next
    case (Cons c cs)
    then have "line_in p w1 = c # cs" "v AND 1 \<noteq> 0" using r [of p] by simp_all
    with receive_turns_burst [OF p reg this(1), of 0 "fst ba"] show ?thesis
      using r Cons unfolding step by (auto simp: received_def)
  qed
qed

lemma interrupt_burst:
  fixes s :: "('w, 'z) proto_scheme"
  defines "i \<equiv> \<lambda>q. line_in q (world s)"
  shows "if length (i 0) \<le> length (RS485_1_Receive p) \<and> length (i 1) \<le> length (RS232_2_Recv p) \<and>
      length (i 2) \<le> length (RS232_3_Recv s) \<and> length (i 3) \<le> length (RS232_4_Recv p)
    then \<exists>p' w'. ST16C554D_interrupt bus p s = Some (p', s\<lparr>RS232_3_Recv := fst (received (i 2) (RS232_3_Recv s, RS232_3_Recv_Address s)),
        RS232_3_Recv_Address := snd (received (i 2) (RS232_3_Recv s, RS232_3_Recv_Address s)), world := w'\<rparr>) \<and>
      (RS485_1_Receive p', RS485_1_Address p') = received (i 0) (RS485_1_Receive p, RS485_1_Address p) \<and>
      (RS232_2_Recv p', RS232_2_Recv_Address p') = received (i 1) (RS232_2_Recv p, RS232_2_Recv_Address p) \<and>
      (RS232_4_Recv p', RS232_4_Recv_Address p') = received (i 3) (RS232_4_Recv p, RS232_4_Recv_Address p) \<and>
      (\<forall>q \<in> channels. line_in q w' = []) \<and> (\<forall>q. line_out q w' = line_out q (world s))
    else ST16C554D_interrupt bus p s = None"
proof -
  have ch: "(0 :: u8) \<in> channels" "(1 :: u8) \<in> channels" "(2 :: u8) \<in> channels" "(3 :: u8) \<in> channels" by (simp_all add: channels_def)
  have regs: "(ST16C554D_LSR, 1 :: u16) \<in> {(ST16C554D_LSR, 1), (ST16C554D_ISR, 4)}" "(ST16C554D_ISR, 4 :: u16) \<in> {(ST16C554D_LSR, 1), (ST16C554D_ISR, 4)}"
    by simp_all
  note b = receive_port_burst [OF ch(1) regs(1), of "world s" "(RS485_1_Receive p, RS485_1_Address p)"]
    receive_port_burst [OF ch(2) regs(1), of _ "(RS232_2_Recv p, RS232_2_Recv_Address p)"]
    receive_port_burst [OF ch(3) regs(2), of _ "(RS232_3_Recv s, RS232_3_Recv_Address s)"]
    receive_port_burst [OF ch(4) regs(1), of _ "(RS232_4_Recv p, RS232_4_Recv_Address p)"]
  show ?thesis
  proof (cases "length (i 0) \<le> length (RS485_1_Receive p)")
    case False
    then show ?thesis using b(1) by (simp add: i_def ST16C554D_interrupt_def)
  next
    case 0: True
    then obtain w0 where w0: "receive_port bus 0 ST16C554D_LSR 1 (RS485_1_Receive p, RS485_1_Address p) (world s) =
        Some (fst (received (i 0) (RS485_1_Receive p, RS485_1_Address p)), snd (received (i 0) (RS485_1_Receive p, RS485_1_Address p)), w0)"
      "\<And>q. line_in q w0 = (if q = 0 then [] else i q)" "\<And>q. line_out q w0 = line_out q (world s)"
      using b(1) by (auto simp: i_def)
    show ?thesis
    proof (cases "length (i 1) \<le> length (RS232_2_Recv p)")
      case False
      then show ?thesis using b(2) [of w0] w0 by (simp add: ST16C554D_interrupt_def)
    next
      case 1: True
      then obtain w1 where w1: "receive_port bus 1 ST16C554D_LSR 1 (RS232_2_Recv p, RS232_2_Recv_Address p) w0 =
          Some (fst (received (i 1) (RS232_2_Recv p, RS232_2_Recv_Address p)), snd (received (i 1) (RS232_2_Recv p, RS232_2_Recv_Address p)), w1)"
        "\<And>q. line_in q w1 = (if q = 1 \<or> q = 0 then [] else i q)" "\<And>q. line_out q w1 = line_out q (world s)"
        using b(2) [of w0] w0 by auto
      show ?thesis
      proof (cases "length (i 2) \<le> length (RS232_3_Recv s)")
        case False
        then show ?thesis using b(3) [of w1] w0(1) w1 by (simp add: ST16C554D_interrupt_def)
      next
        case 2: True
        then obtain w2 where w2: "receive_port bus 2 ST16C554D_ISR 4 (RS232_3_Recv s, RS232_3_Recv_Address s) w1 =
            Some (fst (received (i 2) (RS232_3_Recv s, RS232_3_Recv_Address s)), snd (received (i 2) (RS232_3_Recv s, RS232_3_Recv_Address s)), w2)"
          "\<And>q. line_in q w2 = (if q = 2 \<or> q = 1 \<or> q = 0 then [] else i q)" "\<And>q. line_out q w2 = line_out q (world s)"
          using b(3) [of w1] w1 by auto
        show ?thesis
        proof (cases "length (i 3) \<le> length (RS232_4_Recv p)")
          case False
          then show ?thesis using b(4) [of w2] w0(1) w1(1) w2 by (simp add: ST16C554D_interrupt_def)
        next
          case 3: True
          then obtain w3 where w3: "receive_port bus 3 ST16C554D_LSR 1 (RS232_4_Recv p, RS232_4_Recv_Address p) w2 =
              Some (fst (received (i 3) (RS232_4_Recv p, RS232_4_Recv_Address p)), snd (received (i 3) (RS232_4_Recv p, RS232_4_Recv_Address p)), w3)"
            "\<And>q. line_in q w3 = (if q = 3 \<or> q = 2 \<or> q = 1 \<or> q = 0 then [] else i q)" "\<And>q. line_out q w3 = line_out q (world s)"
            using b(4) [of w2] w2 by auto
          have "\<forall>q \<in> channels. line_in q w3 = []" using w3(2) by (simp add: channels_def)
          then show ?thesis
            using 0 1 2 3 w0(1) w1(1) w2(1) w3(1,3) by (simp add: ST16C554D_interrupt_def) blast
        qed
      qed
    qed
  qed
qed

text \<open>Sending waits for the transmitter before every byte, and comes to an end.\<close>

lemma write_turns_ok:
  assumes p: "p \<in> channels" and "len \<le> length buf"
  shows "\<exists>w'. write_turns bus p buf len i w = Some w' \<and>
    (\<forall>q. line_out q w' = (if q = p then line_out p w @ drop i (take len buf) else line_out q w) \<and> line_in q w' = line_in q w)"
proof (induction "len - i" arbitrary: i w)
  case 0
  then show ?case by (subst write_turns.simps) auto
next
  case (Suc n)
  have i: "i < len" "i < length buf" using Suc.hyps(2) assms(2) by simp_all
  have sent: "\<exists>w'. write_turns bus p buf len i w = Some w' \<and>
    (\<forall>q. line_out q w' = (if q = p then line_out p w @ drop i (take len buf) else line_out q w) \<and> line_in q w' = line_in q w)" for w
  proof (induction "wait p w" arbitrary: w)
    case 0
    obtain v w1 where 1: "bus_read bus (uart_reg p ST16C554D_LSR) w = (v, w1)" by (rule prod.exhaust)
    note r = lsr_law [OF p 1]
    let ?w2 = "bus_write bus (uart_reg p ST16C554D_THR) (buf ! i) w1"
    have "wait p w1 = 0" using r 0 by simp
    note t = thr_law [OF p this, of _ "buf ! i"]
    have "write_turns bus p buf len i w = write_turns bus p buf len (i + 1) ?w2"
      by (subst write_turns.simps) (use r 0 i in \<open>simp add: ReadReg_eq(2) [OF p 1] WriteByte_eq [OF p]\<close>)
    moreover have "drop i (take len buf) = buf ! i # drop (i + 1) (take len buf)"
      using i Cons_nth_drop_Suc [of i "take len buf"] by simp
    moreover have "n = len - (i + 1)" using Suc.hyps(2) by simp
    moreover from Suc.hyps(1) [OF this, of ?w2] obtain w3 where "write_turns bus p buf len (i + 1) ?w2 = Some w3"
      "\<forall>q. line_out q w3 = (if q = p then line_out p ?w2 @ drop (i + 1) (take len buf) else line_out q ?w2) \<and> line_in q w3 = line_in q ?w2"
      by blast
    ultimately show ?case using r t by (intro exI [of _ w3]) auto
  next
    case (Suc k)
    obtain v w1 where 1: "bus_read bus (uart_reg p ST16C554D_LSR) w = (v, w1)" by (rule prod.exhaust)
    note r = lsr_law [OF p 1]
    have "write_turns bus p buf len i w = write_turns bus p buf len i w1"
      by (subst write_turns.simps) (use r Suc.hyps(2) i in \<open>simp add: ReadReg_eq(2) [OF p 1]\<close>)
    moreover have "k = wait p w1" using r Suc.hyps(2) by simp
    moreover from Suc.hyps(1) [OF this] obtain w3 where "write_turns bus p buf len i w1 = Some w3"
      "\<forall>q. line_out q w3 = (if q = p then line_out p w1 @ drop i (take len buf) else line_out q w1) \<and> line_in q w3 = line_in q w1"
      by blast
    ultimately show ?case using r by (intro exI [of _ w3]) auto
  qed
  show ?case by (rule sent)
qed

text \<open>\<open>ST16C554D_ReadBuff\<close> takes at most 144 bytes.\<close>

lemma read_turns_burst:
  assumes p: "p \<in> channels" and "a + length (take (n + 1) (line_in p w)) \<le> length buf"
  shows "\<exists>w'. read_turns bus p n buf a w = Some (a + length (take (n + 1) (line_in p w)),
      take a buf @ take (n + 1) (line_in p w) @ drop (a + length (take (n + 1) (line_in p w))) buf, w') \<and>
    (\<forall>q. line_in q w' = (if q = p then drop (n + 1) (line_in p w) else line_in q w) \<and> line_out q w' = line_out q w)"
  using assms(2)
proof (induction n arbitrary: a buf w)
  case 0
  obtain v w1 where 1: "bus_read bus (uart_reg p ST16C554D_LSR) w = (v, w1)" by (rule prod.exhaust)
  obtain d w2 where 2: "bus_read bus (uart_reg p ST16C554D_RHR) w1 = (d, w2)" by (rule prod.exhaust)
  note r = lsr_law [OF p 1]
  show ?case
  proof (cases "line_in p w")
    case Nil
    then show ?thesis using r [of p] r by (subst read_turns.simps) (simp add: ReadReg_eq(2) [OF p 1])
  next
    case (Cons c cs)
    then have i: "line_in p w1 = c # cs" "v AND 1 \<noteq> 0" using r [of p] by simp_all
    note s = rhr_law [OF p i(1) 2]
    show ?thesis using r s Cons 0 i(2)
      by (subst read_turns.simps) (simp add: ReadReg_eq(2) [OF p 1] ReadReg_eq(2) [OF p 2] upd_conv_take_nth_drop)
  qed
next
  case (Suc n)
  obtain v w1 where 1: "bus_read bus (uart_reg p ST16C554D_LSR) w = (v, w1)" by (rule prod.exhaust)
  obtain d w2 where 2: "bus_read bus (uart_reg p ST16C554D_RHR) w1 = (d, w2)" by (rule prod.exhaust)
  note r = lsr_law [OF p 1]
  show ?case
  proof (cases "line_in p w")
    case Nil
    then show ?thesis using r [of p] r by (subst read_turns.simps) (simp add: ReadReg_eq(2) [OF p 1])
  next
    case (Cons c cs)
    then have i: "line_in p w1 = c # cs" "v AND 1 \<noteq> 0" using r [of p] by simp_all
    note s = rhr_law [OF p i(1) 2]
    let ?buf = "buf[a := c]"
    have a: "a < length buf" using Suc.prems Cons by simp
    have more: "read_turns bus p (Suc n) buf a w = read_turns bus p n ?buf (a + 1) w2"
      using s [of p] a i(2) by (subst read_turns.simps) (simp add: ReadReg_eq(2) [OF p 1] ReadReg_eq(2) [OF p 2])
    have "take (a + 1) ?buf = take a buf @ [c]" using a by (simp add: take_Suc_conv_app_nth)
    moreover have "line_in p w2 = cs" using s [of p] by simp
    ultimately show ?thesis using Suc.IH [of "a + 1" w2 ?buf] Suc.prems Cons r s unfolding more by auto
  qed
qed

end

section \<open>A chip on the bench\<close>

text \<open>Its transmitter is ready on the second look.\<close>

record uart_chip =
  chip_in :: "u8 \<Rightarrow> u8 list"
  chip_out :: "u8 \<Rightarrow> u8 list"
  chip_wait :: "u8 \<Rightarrow> nat"

definition channel_of :: "u32 \<Rightarrow> u8" where
  "channel_of addr = (let k = drop_bit 13 addr AND 0x6 in if k = 0 then 0 else if k = 4 then 1 else if k = 2 then 2 else 3)"

definition chip_read :: "u32 \<Rightarrow> uart_chip \<Rightarrow> u8 \<times> uart_chip" where
  "chip_read addr c =
     (let p = channel_of addr; reg = addr AND 0x7; i = chip_in c p
      in if reg = 5 then ((if i \<noteq> [] then 0x01 else 0) OR (if chip_wait c p = 0 then 0x20 else 0), c\<lparr>chip_wait := (chip_wait c)(p := chip_wait c p - 1)\<rparr>)
         else if reg = 2 then (if i \<noteq> [] then 0x04 else 0x01, c)
         else if reg = 0 then (case i of [] \<Rightarrow> (0, c) | d # ds \<Rightarrow> (d, c\<lparr>chip_in := (chip_in c)(p := ds)\<rparr>))
         else (0, c))"

definition chip_write :: "u32 \<Rightarrow> u8 \<Rightarrow> uart_chip \<Rightarrow> uart_chip" where
  "chip_write addr v c =
     (let p = channel_of addr
      in if addr AND 0x7 = 0 then c\<lparr>chip_out := (chip_out c)(p := chip_out c p @ [v]), chip_wait := (chip_wait c)(p := 1)\<rparr> else c)"

lemma channel_regs:
  "p \<in> channels \<Longrightarrow> channel_of (uart_reg p 0) = p \<and> channel_of (uart_reg p 2) = p \<and> channel_of (uart_reg p 5) = p \<and>
     uart_reg p 0 AND 0x7 = 0 \<and> uart_reg p 2 AND 0x7 = 2 \<and> uart_reg p 5 AND 0x7 = 5"
  by (auto simp: channels_def uart_reg_def port_base_addr_def ST16C554D_BASE_def channel_of_def push_bit_eq_mult)

lemmas uart_registers = ST16C554D_RHR_def ST16C554D_THR_def ST16C554D_ISR_def ST16C554D_LSR_def

interpretation chip: uart554 "\<lparr>bus_read = chip_read, bus_write = chip_write\<rparr>" "\<lambda>p c. chip_in c p" "\<lambda>p c. chip_out c p" "\<lambda>p c. chip_wait c p"
  by unfold_locales (auto simp: chip_read_def chip_write_def channel_regs uart_registers Let_def split: list.splits if_splits)

text \<open>The divisors are those of a clock of 11.0592 MHz.\<close>

definition uart_rates :: "nat list" where
  "uart_rates = [300, 1200, 2400, 9600, 19200, 38400, 56000, 115200]"

lemma uart_divisors:
  "map (\<lambda>(l, m). unat l + 256 * unat m) baud_table = map (\<lambda>r. 11059200 div (16 * r)) uart_rates"
  by (simp add: baud_table_def uart_rates_def)

end
