(* ===== verification/Dm9000.thy ===== *)
theory Dm9000
  imports Board
begin

text \<open>
  HARDWARE/DM9000/dm9000.c: the driver of the Ethernet chip that connects the camera. The chip is reached through an
  index register and a data register (the parameter \<open>'w nic\<close> of the board); packets go to and come from LWIP as chains of
  buffers, here lists of chunks, whose allocation is a parameter, too. The lock of the driver is a mutex
  of the RTOS: asking for it while it is held does not return, \<open>None\<close>. Set-up of pins, bus and interrupt
  lines and console output are left out.
\<close>

section \<open>Registers\<close>

text \<open>\<open>p_alloc\<close> gives the length and the room of each buffer of a chain, or none.\<close>

record 'w pbufs =
  p_alloc :: "u16 \<Rightarrow> 'w \<Rightarrow> (nat \<times> nat) list option \<times> 'w"
  p_free :: "'w \<Rightarrow> 'w"

record dm9000_config =
  cfg_mode :: u8
  imr_all :: u8
  queue_packet_len :: u16
  mac_addr :: "u8 list"
  multicase_addr :: "u8 list"

record 'w ether =
  e_world :: 'w
  dm9000cfg :: dm9000_config
  dm9000lock :: bool
  dm9000input :: nat

definition DM9000_NCR :: u16 where "DM9000_NCR = 0x00"
definition DM9000_NSR :: u16 where "DM9000_NSR = 0x01"
definition DM9000_TCR :: u16 where "DM9000_TCR = 0x02"
definition DM9000_RCR :: u16 where "DM9000_RCR = 0x05"
definition DM9000_BPTR :: u16 where "DM9000_BPTR = 0x08"
definition DM9000_FCTR :: u16 where "DM9000_FCTR = 0x09"
definition DM9000_FCR :: u16 where "DM9000_FCR = 0x0A"
definition DM9000_EPCR :: u16 where "DM9000_EPCR = 0x0B"
definition DM9000_EPAR :: u16 where "DM9000_EPAR = 0x0C"
definition DM9000_EPDRL :: u16 where "DM9000_EPDRL = 0x0D"
definition DM9000_EPDRH :: u16 where "DM9000_EPDRH = 0x0E"
definition DM9000_PAR :: u16 where "DM9000_PAR = 0x10"
definition DM9000_MAR :: u16 where "DM9000_MAR = 0x16"
definition DM9000_GPCR :: u16 where "DM9000_GPCR = 0x1E"
definition DM9000_GPR :: u16 where "DM9000_GPR = 0x1F"
definition DM9000_VIDL :: u16 where "DM9000_VIDL = 0x28"
definition DM9000_VIDH :: u16 where "DM9000_VIDH = 0x29"
definition DM9000_PIDL :: u16 where "DM9000_PIDL = 0x2A"
definition DM9000_PIDH :: u16 where "DM9000_PIDH = 0x2B"
definition DM9000_TCR2 :: u16 where "DM9000_TCR2 = 0x2D"
definition DM9000_SMCR :: u16 where "DM9000_SMCR = 0x2F"
definition DM9000_MRCMDX :: u16 where "DM9000_MRCMDX = 0xF0"
definition DM9000_MRCMD :: u16 where "DM9000_MRCMD = 0xF2"
definition DM9000_MWCMD :: u16 where "DM9000_MWCMD = 0xF8"
definition DM9000_TXPLL :: u16 where "DM9000_TXPLL = 0xFC"
definition DM9000_TXPLH :: u16 where "DM9000_TXPLH = 0xFD"
definition DM9000_ISR :: u16 where "DM9000_ISR = 0xFE"
definition DM9000_IMR :: u16 where "DM9000_IMR = 0xFF"
definition DM9000_PHY :: u16 where "DM9000_PHY = 0x40"
definition DM9000_PHY_BMCR :: u16 where "DM9000_PHY_BMCR = 0x00"
definition DM9000_PHY_ANAR :: u16 where "DM9000_PHY_ANAR = 0x04"
definition DM9000_AUTO :: u8 where "DM9000_AUTO = 8"
definition DM9000_ID :: u32 where "DM9000_ID = 0x90000A46"
definition DM9000_PKT_MAX :: u16 where "DM9000_PKT_MAX = 1536"

lemmas nic_registers = DM9000_NCR_def DM9000_NSR_def DM9000_TCR_def DM9000_RCR_def DM9000_BPTR_def DM9000_FCTR_def DM9000_FCR_def
  DM9000_EPCR_def DM9000_EPAR_def DM9000_EPDRL_def DM9000_EPDRH_def DM9000_PAR_def DM9000_MAR_def DM9000_GPCR_def DM9000_GPR_def
  DM9000_VIDL_def DM9000_VIDH_def DM9000_PIDL_def DM9000_PIDH_def DM9000_TCR2_def DM9000_SMCR_def DM9000_MRCMDX_def DM9000_MRCMD_def
  DM9000_MWCMD_def DM9000_TXPLL_def DM9000_TXPLH_def DM9000_ISR_def DM9000_IMR_def DM9000_PHY_def DM9000_PHY_BMCR_def DM9000_PHY_ANAR_def

definition DM9000_ReadReg :: "'w nic \<Rightarrow> u16 \<Rightarrow> 'w \<Rightarrow> u16 \<times> 'w" where
  "DM9000_ReadReg net reg w = nic_get net (nic_index net reg w)"

definition DM9000_WriteReg :: "'w nic \<Rightarrow> u16 \<Rightarrow> u16 \<Rightarrow> 'w \<Rightarrow> 'w" where
  "DM9000_WriteReg net reg data w = nic_put net data (nic_index net reg w)"

definition DM9000_PHY_ReadReg :: "'w nic \<Rightarrow> u16 \<Rightarrow> 'w \<Rightarrow> u16 \<times> 'w" where
  "DM9000_PHY_ReadReg net reg w =
     (let w = DM9000_WriteReg net DM9000_EPAR (DM9000_PHY OR reg) w; w = DM9000_WriteReg net DM9000_EPCR 0x0C w;
          w = DM9000_WriteReg net DM9000_EPCR 0x00 w;
          (h, w) = DM9000_ReadReg net DM9000_EPDRH w; (l, w) = DM9000_ReadReg net DM9000_EPDRL w
      in (push_bit 8 h OR l, w))"

definition DM9000_PHY_WriteReg :: "'w nic \<Rightarrow> u16 \<Rightarrow> u16 \<Rightarrow> 'w \<Rightarrow> 'w" where
  "DM9000_PHY_WriteReg net reg data w =
     (let w = DM9000_WriteReg net DM9000_EPAR (DM9000_PHY OR reg) w; w = DM9000_WriteReg net DM9000_EPDRL (data AND 0xFF) w;
          w = DM9000_WriteReg net DM9000_EPDRH (drop_bit 8 data AND 0xFF) w; w = DM9000_WriteReg net DM9000_EPCR 0x0A w
      in DM9000_WriteReg net DM9000_EPCR 0x00 w)"

definition DM9000_Get_DeiviceID :: "'w nic \<Rightarrow> 'w \<Rightarrow> u32 \<times> 'w" where
  "DM9000_Get_DeiviceID net w =
     (let (a, w) = DM9000_ReadReg net DM9000_VIDL w; (b, w) = DM9000_ReadReg net DM9000_VIDH w;
          (c, w) = DM9000_ReadReg net DM9000_PIDL w; (d, w) = DM9000_ReadReg net DM9000_PIDH w
      in (ucast a OR push_bit 8 (ucast b) OR push_bit 16 (ucast c) OR push_bit 24 (ucast d), w))"

section \<open>The line\<close>

text \<open>Eleven looks, one every tenth of a second.\<close>

fun poll :: "('w \<Rightarrow> bool \<times> 'w) \<Rightarrow> nat \<Rightarrow> 'w \<Rightarrow> bool \<times> 'w" where
  "poll up n w =
     (let (there, w) = up w in if there then (True, w) else (case n of 0 \<Rightarrow> (False, w) | Suc n \<Rightarrow> poll up n w))"

declare poll.simps [simp del]

definition DM9000_Get_SpeedAndDuplex :: "'w nic \<Rightarrow> u8 \<Rightarrow> 'w \<Rightarrow> u8 \<times> 'w" where
  "DM9000_Get_SpeedAndDuplex net mode w =
     (let (up, w) = (if mode = DM9000_AUTO then poll (\<lambda>w. let (v, w) = DM9000_PHY_ReadReg net 0x01 w in (v AND 0x0020 \<noteq> 0, w)) 10 w
            else poll (\<lambda>w. let (v, w) = DM9000_ReadReg net DM9000_NSR w in (v AND 0x40 \<noteq> 0, w)) 10 w)
      in if \<not> up then (0xFF, w)
         else let (s, w) = DM9000_ReadReg net DM9000_NSR w; (d, w) = DM9000_ReadReg net DM9000_NCR w
         in (ucast (drop_bit 6 s AND 0x02) OR ucast (drop_bit 3 d AND 0x01), w))"

text \<open>For any other mode the values written are uninitialised.\<close>

definition DM9000_Set_PHYMode :: "'w nic \<Rightarrow> u8 \<Rightarrow> 'w \<Rightarrow> 'w option" where
  "DM9000_Set_PHYMode net mode w = do {
     (BMCR_Value, ANAR_Value) \<leftarrow>
       (if mode = 0 then Some (0x0000, 0x21) else if mode = 4 then Some (0x0100, 0x41) else if mode = 1 then Some (0x2000, 0x81)
        else if mode = 5 then Some (0x2100, 0x101) else if mode = DM9000_AUTO then Some (0x1000, 0x01E1) else None);
     let w = DM9000_PHY_WriteReg net DM9000_PHY_BMCR BMCR_Value w;
     let w = DM9000_PHY_WriteReg net DM9000_PHY_ANAR ANAR_Value w;
     Some (DM9000_WriteReg net DM9000_GPR 0x00 w)
   }"

definition DM9000_Set_PhyPower :: "'w nic \<Rightarrow> u8 \<Rightarrow> 'w \<Rightarrow> 'w" where
  "DM9000_Set_PhyPower net mode w =
     (let (BMCR_Value, w) = DM9000_PHY_ReadReg net 0x0 w;
          BMCR_Value = (if mode = 1 then BMCR_Value AND NOT (push_bit 11 1) else BMCR_Value OR push_bit 11 1)
      in DM9000_PHY_WriteReg net DM9000_PHY_BMCR BMCR_Value w)"

definition DM9000_Get_PhyPower :: "'w nic \<Rightarrow> 'w \<Rightarrow> int \<times> 'w" where
  "DM9000_Get_PhyPower net w =
     (let (BMCR_Value, w) = DM9000_PHY_ReadReg net 0x0 w in (if drop_bit 11 BMCR_Value AND 0x1 = 0x1 then 0 else 1, w))"

definition set_bytes :: "'w nic \<Rightarrow> u16 \<Rightarrow> u8 list \<Rightarrow> 'w \<Rightarrow> 'w" where
  "set_bytes net reg xs w = fold (\<lambda>(i, x). DM9000_WriteReg net (reg + of_nat i) (ucast x)) (enumerate 0 xs) w"

definition DM9000_Set_MACAddress :: "'w nic \<Rightarrow> u8 list \<Rightarrow> 'w \<Rightarrow> 'w option" where
  "DM9000_Set_MACAddress net macaddr w = do { xs \<leftarrow> slice macaddr 0 6; Some (set_bytes net DM9000_PAR xs w) }"

definition DM9000_Set_Multicast :: "'w nic \<Rightarrow> u8 list \<Rightarrow> 'w \<Rightarrow> 'w option" where
  "DM9000_Set_Multicast net multicastaddr w = do { xs \<leftarrow> slice multicastaddr 0 8; Some (set_bytes net DM9000_MAR xs w) }"

section \<open>Starting\<close>

partial_function (option) reset_wait :: "'w nic \<Rightarrow> 'w \<Rightarrow> 'w option" where
  "reset_wait net w = (let (v, w) = DM9000_ReadReg net DM9000_NCR w in if v AND 1 \<noteq> 0 then reset_wait net w else Some w)"

definition DM9000_Reset :: "'w board \<Rightarrow> 'w nic \<Rightarrow> 'w \<Rightarrow> 'w option" where
  "DM9000_Reset b net w = do {
     let w = pin_out b GPIOD 6 True (pin_out b GPIOD 6 False w);
     let w = DM9000_WriteReg net DM9000_GPCR 0x01 w;
     let w = DM9000_WriteReg net DM9000_GPR 0 w;
     w \<leftarrow> reset_wait net (DM9000_WriteReg net DM9000_NCR (0x02 OR 0x01) w);
     let w = DM9000_WriteReg net DM9000_NCR 0 w;
     reset_wait net (DM9000_WriteReg net DM9000_NCR (0x02 OR 0x01) w)
   }"

definition init_config :: "u32 \<Rightarrow> dm9000_config" where
  "init_config uid =
     \<lparr>cfg_mode = DM9000_AUTO, imr_all = 0x80 OR 0x01, queue_packet_len = 0,
      mac_addr = [2, 0, 0, ucast (drop_bit 16 uid AND 0xFF), ucast (drop_bit 8 uid AND 0xFFF), ucast (uid AND 0xFF)],
      multicase_addr = replicate 8 0xFF\<rparr>"

definition init_registers :: "(u16 \<times> u16) list" where
  "init_registers = [(DM9000_NCR, 0x00), (DM9000_TCR, 0x00), (DM9000_BPTR, 0x3F), (DM9000_FCTR, 0x38), (DM9000_FCR, 0x00),
     (DM9000_SMCR, 0x00), (DM9000_NSR, 0x20 OR 0x08 OR 0x04), (DM9000_ISR, 0x0F), (DM9000_TCR2, 0x80)]"

text \<open>The registers are set without looking at the driver's other variables.\<close>

definition DM9000_start :: "'w board \<Rightarrow> 'w nic \<Rightarrow> dm9000_config \<Rightarrow> 'w \<Rightarrow> (u8 \<times> 'w) option" where
  "DM9000_start b net cfg w = do {
     w \<leftarrow> DM9000_Reset b net w;
     let (temp, w) = DM9000_Get_DeiviceID net w;
     if temp \<noteq> DM9000_ID then Some (1, w)
     else do {
       w \<leftarrow> DM9000_Set_PHYMode net (cfg_mode cfg) w;
       let w = fold (\<lambda>(reg, v). DM9000_WriteReg net reg v) init_registers w;
       w \<leftarrow> DM9000_Set_MACAddress net (mac_addr cfg) w;
       w \<leftarrow> DM9000_Set_Multicast net (multicase_addr cfg) w;
       let w = DM9000_WriteReg net DM9000_RCR (0x20 OR 0x10 OR 0x01) w;
       let w = DM9000_WriteReg net DM9000_IMR 0x80 w;
       Some (0, DM9000_WriteReg net DM9000_IMR (ucast (imr_all cfg)) w)
     }
   }"

definition DM9000_Init :: "'w board \<Rightarrow> 'w ether \<Rightarrow> (u8 \<times> 'w ether) option" where
  "DM9000_Init b st = do {
     let cfg = init_config (unique_id b);
     (r, w) \<leftarrow> DM9000_start b (ethernet b) cfg (e_world st);
     Some (r, st\<lparr>dm9000cfg := cfg, e_world := w\<rparr>)
   }"

text \<open>It returns when the chip ends its resets.\<close>

lemma DM9000_start_returns:
  assumes "\<And>w. reset_wait net w \<noteq> None"
  shows "DM9000_start b net (init_config uid) w \<noteq> None"
proof -
  have r: "\<exists>w'. reset_wait net w = Some w'" for w using assms by blast
  obtain w1 where "DM9000_Reset b net w = Some w1" using r unfolding DM9000_Reset_def Let_def by (metis bind.bind_lunit)
  then show ?thesis
    by (simp add: DM9000_start_def DM9000_Set_PHYMode_def DM9000_Set_MACAddress_def DM9000_Set_Multicast_def init_config_def
        DM9000_AUTO_def split_beta Let_def)
qed

lemma no_nic_reset: "reset_wait no_nic w = Some w"
  by (subst reset_wait.simps) (simp add: DM9000_ReadReg_def no_nic_def)

section \<open>Sending a packet\<close>

text \<open>The lock, with no limit on the waiting time.\<close>

definition lock_driver :: "'w ether \<Rightarrow> 'w ether option" where
  "lock_driver st = (if dm9000lock st then None else Some (st\<lparr>dm9000lock := True\<rparr>))"

text \<open>Two bytes make a word, also across the end of a chunk; a byte left over waits.\<close>

fun push_bytes :: "'w nic \<Rightarrow> u8 option \<Rightarrow> u8 list \<Rightarrow> 'w \<Rightarrow> u8 option \<times> 'w" where
  "push_bytes net word [] w = (word, w)"
| "push_bytes net None (x # xs) w = push_bytes net (Some x) xs w"
| "push_bytes net (Some y) (x # xs) w = push_bytes net None xs (nic_put net (push_bit 8 (ucast x) OR ucast y) w)"

fun push_chunks :: "'w nic \<Rightarrow> u8 option \<Rightarrow> u8 list list \<Rightarrow> 'w \<Rightarrow> u8 option \<times> 'w" where
  "push_chunks net word [] w = (word, w)"
| "push_chunks net word (q # qs) w = (let (word, w) = push_bytes net word q w in push_chunks net word qs w)"

text \<open>The driver waits until the chip reports the end, or has been switched off.\<close>

partial_function (option) send_wait :: "'w nic \<Rightarrow> 'w \<Rightarrow> 'w option" where
  "send_wait net w =
     (let (v, w) = DM9000_ReadReg net DM9000_ISR w
      in if v AND 0x02 = 0 then let (power, w) = DM9000_Get_PhyPower net w in if power = 1 then send_wait net w else Some w
         else Some w)"

definition tot_len :: "u8 list list \<Rightarrow> u16" where
  "tot_len p = of_nat (length (concat p))"

definition DM9000_SendPacket :: "'w nic \<Rightarrow> u8 list list \<Rightarrow> 'w ether \<Rightarrow> 'w ether option" where
  "DM9000_SendPacket net p st = do {
     st \<leftarrow> lock_driver st;
     let w = DM9000_WriteReg net DM9000_IMR 0x80 (e_world st);
     let w = nic_index net DM9000_MWCMD w;
     let (word, w) = push_chunks net None p w;
     let w = (case word of Some x \<Rightarrow> nic_put net (ucast x) w | None \<Rightarrow> w);
     let w = DM9000_WriteReg net DM9000_TXPLL (tot_len p AND 0xFF) w;
     let w = DM9000_WriteReg net DM9000_TXPLH (drop_bit 8 (tot_len p) AND 0xFF) w;
     w \<leftarrow> send_wait net (DM9000_WriteReg net DM9000_TCR 0x01 w);
     let w = DM9000_WriteReg net DM9000_ISR 0x02 w;
     let w = DM9000_WriteReg net DM9000_IMR (ucast (imr_all (dm9000cfg st))) w;
     Some (st\<lparr>e_world := w, dm9000lock := False\<rparr>)
   }"

section \<open>Receiving a packet\<close>

fun read_words :: "'w nic \<Rightarrow> nat \<Rightarrow> 'w \<Rightarrow> u8 list \<times> 'w" where
  "read_words net 0 w = ([], w)"
| "read_words net (Suc n) w = (let (v, w) = nic_get net w; (xs, w) = read_words net n w in (le16 v @ xs, w))"

text \<open>A buffer of odd length is written one byte past its end, into its room if it has some.\<close>

fun fill_chunks :: "'w nic \<Rightarrow> (nat \<times> nat) list \<Rightarrow> 'w \<Rightarrow> (u8 list list \<times> 'w) option" where
  "fill_chunks net [] w = Some ([], w)"
| "fill_chunks net ((len, room) # qs) w =
     (let n = (len + 1) div 2
      in if room < 2 * n then None
         else let (xs, w) = read_words net n w in do { (p, w) \<leftarrow> fill_chunks net qs w; Some (take len xs # p, w) })"

text \<open>Without a buffer the packet is read away; the loop misses 0 for an odd length and goes on for ever.\<close>

definition take_packet :: "'w nic \<Rightarrow> (nat \<times> nat) list option \<Rightarrow> u16 \<Rightarrow> 'w \<Rightarrow> (u8 list list option \<times> 'w) option" where
  "take_packet net chunks rx_length w =
     (case chunks of
        None \<Rightarrow> if odd (unat rx_length) then None else Some (None, snd (read_words net (unat rx_length div 2) w))
      | Some qs \<Rightarrow> map_option (\<lambda>(p, w). (Some p, w)) (fill_chunks net qs w))"

text \<open>The jump to \<open>__error_retry\<close>. After a receive error the function returns with the lock held.\<close>

partial_function (option) receive_retry :: "'w nic \<Rightarrow> 'w pbufs \<Rightarrow> 'w ether \<Rightarrow> (u8 list list option \<times> 'w ether) option" where
  "receive_retry net pool st =
     (let (_, w) = DM9000_ReadReg net DM9000_MRCMDX (e_world st); (v, w) = nic_get net w; rxbyte = ucast v :: u8
      in if rxbyte = 0 then
           let w = DM9000_WriteReg net DM9000_ISR 0x02 w; w = DM9000_WriteReg net DM9000_IMR (0x80 OR 0x01) w
           in Some (None, st\<lparr>e_world := w, dm9000cfg := (dm9000cfg st)\<lparr>imr_all := 0x80 OR 0x01\<rparr>, dm9000lock := False\<rparr>)
         else if rxbyte > 1 then
           Some (None, st\<lparr>e_world := DM9000_WriteReg net DM9000_ISR 0x80 (DM9000_WriteReg net DM9000_RCR 0x00 w)\<rparr>)
         else
           let w = nic_index net DM9000_MRCMD w; (rx_status, w) = nic_get net w; (rx_length, w) = nic_get net w;
               (chunks, w) = p_alloc pool rx_length w
           in Option.bind (take_packet net chunks rx_length w) (\<lambda>(p, w).
                if rx_status AND 0xBF00 \<noteq> 0 \<or> rx_length < 0x40 \<or> rx_length > DM9000_PKT_MAX then
                  let w = (if rx_length > DM9000_PKT_MAX then DM9000_WriteReg net DM9000_NCR 0x01 w else w);
                      w = (if p \<noteq> None then p_free pool w else w)
                  in receive_retry net pool (st\<lparr>e_world := w\<rparr>)
                else Some (p, st\<lparr>e_world := w, dm9000lock := False\<rparr>)))"

definition DM9000_Receive_Packet :: "'w nic \<Rightarrow> 'w pbufs \<Rightarrow> 'w ether \<Rightarrow> (u8 list list option \<times> 'w ether) option" where
  "DM9000_Receive_Packet net pool st = do { st \<leftarrow> lock_driver st; receive_retry net pool st }"

section \<open>The interrupt\<close>

definition DMA9000_ISRHandler :: "'w nic \<Rightarrow> 'w ether \<Rightarrow> 'w ether" where
  "DMA9000_ISRHandler net st =
     (let last_io = nic_which net (e_world st);
          (int_status, w) = DM9000_ReadReg net DM9000_ISR (e_world st);
          w = DM9000_WriteReg net DM9000_ISR int_status w;
          st = (if int_status AND 0x01 \<noteq> 0 then st\<lparr>dm9000input := min 65535 (dm9000input st + 1)\<rparr> else st)
      in st\<lparr>e_world := nic_index net last_io w\<rparr>)"

text \<open>As long as the line of the chip is low.\<close>

partial_function (option) DM9000_interrupt :: "'w board \<Rightarrow> 'w nic \<Rightarrow> 'w ether \<Rightarrow> 'w ether option" where
  "DM9000_interrupt b net st =
     (if \<not> pin_in b GPIOG 6 (e_world st) then DM9000_interrupt b net (DMA9000_ISRHandler net st) else Some st)"

section \<open>The chip\<close>

text \<open>
  What the driver relies on. \<open>n_index\<close> is the register selected, \<open>n_stale\<close> whether the next look at the packet flag
  still shows an old value, \<open>n_rx\<close> the words of the packets that have arrived, \<open>n_tx\<close> the words in the
  transmit memory with their length in bytes in \<open>n_low\<close> and \<open>n_high\<close>, \<open>n_busy\<close> how often the status is read before
  the packet is out, \<open>n_line\<close> the packets sent. A reset, which loses what has arrived, is no part of the contract.
\<close>

record nic_view =
  n_index :: u16
  n_stale :: bool
  n_rx :: "u16 list"
  n_tx :: "u16 list"
  n_low :: u16
  n_high :: u16
  n_busy :: nat
  n_line :: "u8 list list"

definition sent_packet :: "nic_view \<Rightarrow> u8 list" where
  "sent_packet n = take (unat (n_low n + 256 * n_high n)) (concat (map le16 (n_tx n)))"

definition put_view :: "u16 \<Rightarrow> nic_view \<Rightarrow> nic_view \<Rightarrow> bool" where
  "put_view v n n' \<longleftrightarrow>
     (if n_index n = DM9000_MWCMD then n' = n\<lparr>n_tx := n_tx n @ [v]\<rparr>
      else if n_index n = DM9000_TXPLL then n' = n\<lparr>n_low := v\<rparr>
      else if n_index n = DM9000_TXPLH then n' = n\<lparr>n_high := v\<rparr>
      else if n_index n = DM9000_TCR \<and> v = 1 then \<exists>k. n' = n\<lparr>n_line := n_line n @ [sent_packet n], n_tx := [], n_busy := k\<rparr>
      else n_index n = DM9000_NCR \<or> n_index n = DM9000_RCR \<or> n' = n)"

definition get_view :: "u16 \<Rightarrow> nic_view \<Rightarrow> nic_view \<Rightarrow> bool" where
  "get_view v n n' \<longleftrightarrow>
     (if n_index n = DM9000_MRCMD then n_rx n \<noteq> [] \<longrightarrow> v = hd (n_rx n) \<and> n' = n\<lparr>n_rx := tl (n_rx n)\<rparr>
      else if n_index n = DM9000_MRCMDX then n' = n\<lparr>n_stale := False\<rparr> \<and> (\<not> n_stale n \<longrightarrow> (ucast v :: u8) = (if n_rx n = [] then 0 else 1))
      else if n_index n = DM9000_ISR then n' = n\<lparr>n_busy := n_busy n - 1\<rparr> \<and> (v AND 0x02 \<noteq> 0 \<longleftrightarrow> n_busy n = 0)
      else n' = n)"

locale dm9000_chip =
  fixes net :: "'w nic" and view :: "'w \<Rightarrow> nic_view"
  assumes index_law: "view (nic_index net r w) = (view w)\<lparr>n_index := r, n_stale := True\<rparr>"
    and put_law: "put_view v (view w) (view (nic_put net v w))"
    and get_law: "nic_get net w = (v, w') \<Longrightarrow> get_view v (view w) (view w')"

text \<open>The words in which a packet travels.\<close>

fun words_of :: "u8 list \<Rightarrow> u16 list" where
  "words_of [] = []"
| "words_of [x] = [ucast x]"
| "words_of (x # y # xs) = (push_bit 8 (ucast y) OR ucast x) # words_of xs"

lemma le16_pair: "le16 (push_bit 8 (ucast y) OR ucast x) = [x, y]"
proof -
  have "push_bit 8 (ucast y) OR ucast x = of_le16 x y" by (simp add: of_le16_def or.commute)
  then show ?thesis by simp
qed

lemma low_high: "(t AND 0xFF) + 256 * (drop_bit 8 t AND 0xFF) = t" for t :: u16
proof -
  have "(0xFF :: u16) = mask 8" by (simp add: mask_eq_exp_minus_1)
  then have 1: "t AND 0xFF = take_bit 8 t" by (simp only: take_bit_eq_mask)
  have 2: "drop_bit 8 t AND mask 8 = drop_bit 8 t"
    by (rule bit_word_eqI) (auto simp: bit_simps dest: bit_imp_le_length)
  have 3: "256 * x = push_bit 8 x" for x :: u16 by (simp add: push_bit_eq_mult)
  have 4: "drop_bit 8 t AND 0xFF = drop_bit 8 t" using 2 \<open>0xFF = mask 8\<close> by (simp only:)
  show ?thesis unfolding 1 3 4 using bits_ident [of 8 t] by (simp only: add.commute)
qed

lemma words_bytes: "take (length xs) (concat (map le16 (words_of xs))) = xs"
proof (induction xs rule: words_of.induct)
  case (2 x)
  have "(ucast (ucast x :: u16) :: u8) = x" by (rule bit_word_eqI) (auto simp: bit_simps)
  then show ?case by (simp add: le16_def)
qed (simp_all add: le16_pair)

lemma length_words_of: "length (words_of xs) = (length xs + 1) div 2"
  by (induction xs rule: words_of.induct) auto

lemma words_of_append: "even (length xs) \<Longrightarrow> words_of (xs @ ys) = words_of xs @ words_of ys"
  by (induction xs rule: words_of.induct) auto

text \<open>Cutting a packet into chunks makes no difference to the words that are written.\<close>

lemma push_bytes_append:
  "push_bytes net word (xs @ ys) w = (let (word, w) = push_bytes net word xs w in push_bytes net word ys w)"
  by (induction net word xs w rule: push_bytes.induct) simp_all

lemma push_chunks_concat: "push_chunks net word qs w = push_bytes net word (concat qs) w"
  by (induction net word qs w rule: push_chunks.induct) (simp_all add: push_bytes_append split_beta Let_def)

lemma push_words:
  "(case push_bytes net None xs w of (word, w) \<Rightarrow> case word of Some x \<Rightarrow> nic_put net (ucast x) w | None \<Rightarrow> w) =
     fold (nic_put net) (words_of xs) w"
  by (induction xs arbitrary: w rule: words_of.induct) simp_all

text \<open>Buffers that take \<open>n\<close> bytes: only the last may have an odd length, and then has room for one more byte.\<close>

fun chain_ok :: "nat \<Rightarrow> (nat \<times> nat) list \<Rightarrow> bool" where
  "chain_ok n [] \<longleftrightarrow> n = 0"
| "chain_ok n ((len, room) # qs) \<longleftrightarrow> len \<le> n \<and> len + len mod 2 \<le> room \<and> (even len \<or> qs = []) \<and> chain_ok (n - len) qs"

context dm9000_chip
begin

lemma write_view: "put_view v ((view w)\<lparr>n_index := r, n_stale := True\<rparr>) (view (DM9000_WriteReg net r v w))"
  using put_law [of v "nic_index net r w"] by (simp add: DM9000_WriteReg_def index_law)

lemma read_view: "DM9000_ReadReg net r w = (v, w') \<Longrightarrow> get_view v ((view w)\<lparr>n_index := r, n_stale := True\<rparr>) (view w')"
  using get_law [of "nic_index net r w"] by (simp add: DM9000_ReadReg_def index_law)

text \<open>Two states of the chip that hold the same packets.\<close>

definition same_packets :: "'w \<Rightarrow> 'w \<Rightarrow> bool" where
  "same_packets w w' \<longleftrightarrow> n_rx (view w') = n_rx (view w) \<and> n_tx (view w') = n_tx (view w) \<and> n_low (view w') = n_low (view w) \<and>
     n_high (view w') = n_high (view w) \<and> n_line (view w') = n_line (view w) \<and> n_busy (view w') = n_busy (view w)"

lemma same_trans: "\<lbrakk>same_packets w w'; same_packets w' w''\<rbrakk> \<Longrightarrow> same_packets w w''"
  by (simp add: same_packets_def)

lemma write_same:
  "r \<notin> {DM9000_MWCMD, DM9000_TXPLL, DM9000_TXPLH, DM9000_TCR, DM9000_NCR, DM9000_RCR} \<Longrightarrow> same_packets w (DM9000_WriteReg net r v w)"
  using write_view [where v = v and w = w and r = r] by (simp add: put_view_def same_packets_def)

lemma read_same:
  "\<lbrakk>r \<notin> {DM9000_MRCMD, DM9000_ISR}; DM9000_ReadReg net r w = (v, w')\<rbrakk> \<Longrightarrow> same_packets w w'"
  using read_view [where r = r and w = w and v = v and w' = w'] by (auto simp: get_view_def same_packets_def split: if_splits)

lemma phy_same:
  assumes "DM9000_PHY_ReadReg net r w = (v, w')"
  shows "same_packets w w'"
proof -
  let ?w1 = "DM9000_WriteReg net DM9000_EPAR (DM9000_PHY OR r) w"
  let ?w2 = "DM9000_WriteReg net DM9000_EPCR 0x0C ?w1"
  let ?w3 = "DM9000_WriteReg net DM9000_EPCR 0x00 ?w2"
  obtain h w4 where 4: "DM9000_ReadReg net DM9000_EPDRH ?w3 = (h, w4)" by (rule prod.exhaust)
  obtain l w5 where 5: "DM9000_ReadReg net DM9000_EPDRL w4 = (l, w5)" by (rule prod.exhaust)
  have "w' = w5" using assms by (simp add: DM9000_PHY_ReadReg_def Let_def 4 5)
  moreover have "same_packets w ?w1" "same_packets ?w1 ?w2" "same_packets ?w2 ?w3"
    by (rule write_same; simp add: nic_registers)+
  moreover have "same_packets ?w3 w4" "same_packets w4 w5"
    by (rule read_same [OF _ 4] read_same [OF _ 5]; simp add: nic_registers)+
  ultimately show ?thesis using same_trans by blast
qed

text \<open>Waiting for the end of a transmission comes to an end.\<close>

lemma send_wait_ok:
  "\<exists>w'. send_wait net w = Some w' \<and> n_rx (view w') = n_rx (view w) \<and> n_tx (view w') = n_tx (view w) \<and> n_line (view w') = n_line (view w)"
proof (induction "n_busy (view w)" arbitrary: w)
  case 0
  obtain v w1 where 1: "DM9000_ReadReg net DM9000_ISR w = (v, w1)" by (rule prod.exhaust)
  have "v AND 0x02 \<noteq> 0" "n_rx (view w1) = n_rx (view w)" "n_tx (view w1) = n_tx (view w)" "n_line (view w1) = n_line (view w)"
    using read_view [OF 1] 0 by (simp_all add: get_view_def nic_registers)
  then show ?case by (subst send_wait.simps) (simp add: 1)
next
  case (Suc k)
  obtain v w1 where 1: "DM9000_ReadReg net DM9000_ISR w = (v, w1)" by (rule prod.exhaust)
  obtain x w2 where 2: "DM9000_PHY_ReadReg net 0x0 w1 = (x, w2)" by (rule prod.exhaust)
  have v: "v AND 0x02 = 0" "n_busy (view w1) = k" "n_rx (view w1) = n_rx (view w)" "n_tx (view w1) = n_tx (view w)"
    "n_line (view w1) = n_line (view w)"
    using read_view [OF 1] Suc.hyps(2) by (simp_all add: get_view_def nic_registers)
  note s = phy_same [OF 2, unfolded same_packets_def]
  have "send_wait net w = (if drop_bit 11 x AND 0x1 = 0x1 then Some w2 else send_wait net w2)"
    using v(1) by (subst send_wait.simps) (simp add: 1 2 DM9000_Get_PhyPower_def)
  then show ?case using Suc.hyps(1) [of w2] v s by auto
qed

lemma fold_put:
  "n_index (view w) = DM9000_MWCMD \<Longrightarrow> view (fold (nic_put net) vs w) = (view w)\<lparr>n_tx := n_tx (view w) @ vs\<rparr>"
proof (induction vs arbitrary: w)
  case (Cons v vs)
  have "view (nic_put net v w) = (view w)\<lparr>n_tx := n_tx (view w) @ [v]\<rparr>"
    using put_law [of v w] Cons.prems by (simp add: put_view_def)
  then show ?case using Cons.IH [of "nic_put net v w"] Cons.prems by simp
qed simp

text \<open>A packet goes out as it is, whatever its chunks.\<close>

lemma SendPacket_ok:
  assumes "\<not> dm9000lock st" and "n_tx (view (e_world st)) = []" and len: "length (concat p) < 65536"
  shows "\<exists>w'. DM9000_SendPacket net p st = Some (st\<lparr>e_world := w'\<rparr>) \<and> n_line (view w') = n_line (view (e_world st)) @ [concat p] \<and>
    n_rx (view w') = n_rx (view (e_world st)) \<and> n_tx (view w') = []"
proof -
  define w0 where "w0 = e_world st"
  define w1 where "w1 = DM9000_WriteReg net DM9000_IMR 0x80 w0"
  define w2 where "w2 = fold (nic_put net) (words_of (concat p)) (nic_index net DM9000_MWCMD w1)"
  define w3 where "w3 = DM9000_WriteReg net DM9000_TXPLL (tot_len p AND 0xFF) w2"
  define w4 where "w4 = DM9000_WriteReg net DM9000_TXPLH (drop_bit 8 (tot_len p) AND 0xFF) w3"
  define w5 where "w5 = DM9000_WriteReg net DM9000_TCR 0x01 w4"
  have 1: "same_packets w0 w1" unfolding w1_def by (rule write_same) (simp add: nic_registers)
  have 2: "view w2 = (view w1)\<lparr>n_index := DM9000_MWCMD, n_stale := True, n_tx := n_tx (view w1) @ words_of (concat p)\<rparr>"
    unfolding w2_def by (subst fold_put) (simp_all add: index_law)
  have 3: "view w3 = (view w2)\<lparr>n_index := DM9000_TXPLL, n_stale := True, n_low := tot_len p AND 0xFF\<rparr>"
    using write_view [where v = "tot_len p AND 0xFF" and w = w2 and r = DM9000_TXPLL, folded w3_def] by (simp add: put_view_def nic_registers)
  have 4: "view w4 = (view w3)\<lparr>n_index := DM9000_TXPLH, n_stale := True, n_high := drop_bit 8 (tot_len p) AND 0xFF\<rparr>"
    using write_view [where v = "drop_bit 8 (tot_len p) AND 0xFF" and w = w3 and r = DM9000_TXPLH, folded w4_def] by (simp add: put_view_def nic_registers)
  have l: "unat ((tot_len p AND 0xFF) + 256 * (drop_bit 8 (tot_len p) AND 0xFF)) = length (concat p)"
    unfolding low_high using len by (simp add: tot_len_def)
  have p5: "put_view 1 ((view w4)\<lparr>n_index := DM9000_TCR, n_stale := True\<rparr>) (view w5)"
    unfolding w5_def by (rule write_view)
  have 5: "n_line (view w5) = n_line (view w0) @ [concat p]" "n_rx (view w5) = n_rx (view w0)" "n_tx (view w5) = []"
    using p5 1 assms(2) words_bytes [of "concat p"]
    by (auto simp: put_view_def 2 3 4 sent_packet_def l same_packets_def w0_def nic_registers simp del: low_high)
  obtain w6 where 6: "send_wait net w5 = Some w6" "n_rx (view w6) = n_rx (view w5)" "n_tx (view w6) = n_tx (view w5)" "n_line (view w6) = n_line (view w5)"
    using send_wait_ok by blast
  let ?w7 = "DM9000_WriteReg net DM9000_ISR 0x02 w6"
  let ?w8 = "DM9000_WriteReg net DM9000_IMR (ucast (imr_all (dm9000cfg st))) ?w7"
  have 7: "same_packets w6 ?w7" "same_packets ?w7 ?w8"
    by (rule write_same; simp add: nic_registers)+
  obtain word w' where pb: "push_bytes net None (concat p) (nic_index net DM9000_MWCMD w1) = (word, w')" by (rule prod.exhaust)
  have "(case word of Some x \<Rightarrow> nic_put net (ucast x) w' | None \<Rightarrow> w') = w2"
    using push_words [of net "concat p" "nic_index net DM9000_MWCMD w1", folded w2_def] by (simp add: pb)
  moreover have "st\<lparr>e_world := w, dm9000lock := False\<rparr> = st\<lparr>e_world := w\<rparr>" for w using assms(1) by (cases st) simp
  ultimately have "DM9000_SendPacket net p st = Some (st\<lparr>e_world := ?w8\<rparr>)"
    using assms(1) 6(1)
    by (simp add: DM9000_SendPacket_def lock_driver_def push_chunks_concat pb w0_def [symmetric] w1_def [symmetric] w3_def w4_def w5_def)
  then show ?thesis using 5 6(2-4) 7 by (intro exI [of _ ?w8]) (auto simp: same_packets_def w0_def)
qed

lemma read_words_ok:
  "\<lbrakk>n_index (view w) = DM9000_MRCMD; n_rx (view w) = ws @ later\<rbrakk> \<Longrightarrow>
    \<exists>w'. read_words net (length ws) w = (concat (map le16 ws), w') \<and> view w' = (view w)\<lparr>n_rx := later\<rparr>"
proof (induction ws arbitrary: w)
  case Nil
  then show ?case by simp
next
  case (Cons x ws)
  obtain v w1 where 1: "nic_get net w = (v, w1)" by (rule prod.exhaust)
  have v: "v = x" "view w1 = (view w)\<lparr>n_rx := ws @ later\<rparr>" using get_law [OF 1] Cons.prems by (simp_all add: get_view_def)
  obtain w2 where "read_words net (length ws) w1 = (concat (map le16 ws), w2)" "view w2 = (view w1)\<lparr>n_rx := later\<rparr>"
    using Cons.IH [of w1] v(2) Cons.prems(1) by auto
  then show ?case by (simp add: 1 v)
qed

lemma fill_chunks_ok:
  "\<lbrakk>n_index (view w) = DM9000_MRCMD; n_rx (view w) = words_of data @ later; chain_ok (length data) qs\<rbrakk> \<Longrightarrow>
    \<exists>p w'. fill_chunks net qs w = Some (p, w') \<and> concat p = data \<and> view w' = (view w)\<lparr>n_rx := later\<rparr>"
proof (induction qs arbitrary: data w)
  case Nil
  then show ?case by simp
next
  case (Cons q qs)
  obtain len room where q: "q = (len, room)" by (rule prod.exhaust)
  let ?a = "take len data" and ?b = "drop len data"
  have c: "len \<le> length data" "len + len mod 2 \<le> room" "even len \<or> qs = []" "chain_ok (length ?b) qs"
    using Cons.prems(3) by (simp_all add: q)
  have "words_of data = words_of ?a @ words_of ?b"
  proof (cases "even len")
    case True
    then show ?thesis using words_of_append [of ?a ?b] c(1) by simp
  next
    case False
    then have "?b = []" using c(3,4) by simp
    then show ?thesis using append_take_drop_id [of len data] by (metis append_Nil2 words_of.simps(1))
  qed
  then obtain w1 where 1: "read_words net (length (words_of ?a)) w = (concat (map le16 (words_of ?a)), w1)"
      "view w1 = (view w)\<lparr>n_rx := words_of ?b @ later\<rparr>"
    using read_words_ok [of w "words_of ?a" "words_of ?b @ later"] Cons.prems by auto
  have n: "length (words_of ?a) = (len + 1) div 2" using c(1) by (simp add: length_words_of)
  have "2 * ((len + 1) div 2) = len + len mod 2" by presburger
  then have room: "\<not> room < 2 * ((len + 1) div 2)" using c(2) by simp
  obtain p w2 where 2: "fill_chunks net qs w1 = Some (p, w2)" "concat p = ?b" "view w2 = (view w1)\<lparr>n_rx := later\<rparr>"
    using Cons.IH [of w1 ?b] 1(2) c(4) Cons.prems(1) by auto
  have "take len (concat (map le16 (words_of ?a))) = ?a" using words_bytes [of ?a] c(1) by simp
  then have "fill_chunks net (q # qs) w = Some (?a # p, w2)"
    using room 1(1) 2(1) by (simp add: q n)
  then show ?case using 1(2) 2(2,3) by simp
qed

text \<open>A good packet is handed on as it came, and the lock is free again.\<close>

lemma Receive_Packet_ok:
  assumes "\<not> dm9000lock st" and rx: "n_rx (view (e_world st)) = status # of_nat (length data) # words_of data @ later"
    and "status AND 0xBF00 = 0" and len: "64 \<le> length data" "length data \<le> 1536"
    and pool: "\<And>w. \<exists>qs w'. p_alloc pool (of_nat (length data)) w = (Some qs, w') \<and> view w' = view w \<and> chain_ok (length data) qs"
  shows "\<exists>p w'. DM9000_Receive_Packet net pool st = Some (Some p, st\<lparr>e_world := w'\<rparr>) \<and> concat p = data \<and>
    n_rx (view w') = later \<and> n_line (view w') = n_line (view (e_world st))"
proof -
  obtain x w1 where 1: "DM9000_ReadReg net DM9000_MRCMDX (e_world st) = (x, w1)" by (rule prod.exhaust)
  obtain v w2 where 2: "nic_get net w1 = (v, w2)" by (rule prod.exhaust)
  have v1: "view w1 = (view (e_world st))\<lparr>n_index := DM9000_MRCMDX, n_stale := False\<rparr>"
    using read_view [OF 1] by (simp add: get_view_def nic_registers)
  have v2: "view w2 = view w1" "(ucast v :: u8) = 1"
    using get_law [OF 2] v1 rx by (simp_all add: get_view_def nic_registers)
  define w3 where "w3 = nic_index net DM9000_MRCMD w2"
  have v3: "view w3 = (view (e_world st))\<lparr>n_index := DM9000_MRCMD, n_stale := True\<rparr>" by (simp add: w3_def index_law v1 v2)
  obtain y w4 where 4: "nic_get net w3 = (y, w4)" by (rule prod.exhaust)
  have v4: "y = status" "view w4 = (view w3)\<lparr>n_rx := of_nat (length data) # words_of data @ later\<rparr>"
    using get_law [OF 4] v3 rx by (simp_all add: get_view_def)
  obtain l w5 where 5: "nic_get net w4 = (l, w5)" by (rule prod.exhaust)
  have v5: "l = of_nat (length data)" "view w5 = (view w3)\<lparr>n_rx := words_of data @ later\<rparr>"
    using get_law [OF 5] v3 v4 by (simp_all add: get_view_def)
  obtain qs w6 where 6: "p_alloc pool l w5 = (Some qs, w6)" "view w6 = view w5" "chain_ok (length data) qs"
    using pool [of w5] v5(1) by auto
  obtain p w7 where 7: "fill_chunks net qs w6 = Some (p, w7)" "concat p = data" "view w7 = (view w6)\<lparr>n_rx := later\<rparr>"
    using fill_chunks_ok [of w6 data later qs] 6(2,3) v5(2) v3 by auto
  have "unat l = length data" using len v5(1) by simp
  then have l: "\<not> l < 0x40" "\<not> DM9000_PKT_MAX < l" using len by (simp_all add: word_less_nat_alt DM9000_PKT_MAX_def)
  have "receive_retry net pool (st\<lparr>dm9000lock := True\<rparr>) = Some (Some p, st\<lparr>e_world := w7, dm9000lock := False\<rparr>)"
    using v2(2) v4(1) assms(3) l by (subst receive_retry.simps) (simp add: 1 2 w3_def [symmetric] 4 5 6(1) 7(1) take_packet_def)
  moreover have "st\<lparr>e_world := w7, dm9000lock := False\<rparr> = st\<lparr>e_world := w7\<rparr>" using assms(1) by (cases st) simp
  ultimately have "DM9000_Receive_Packet net pool st = Some (Some p, st\<lparr>e_world := w7\<rparr>)"
    using assms(1) by (simp add: DM9000_Receive_Packet_def lock_driver_def)
  then show ?thesis using 6(2) 7(2,3) v5(2) v3 by auto
qed

end

section \<open>A receive error\<close>

text \<open>The function returns with the lock held, and no call of the driver returns from then on.\<close>

lemma receive_error:
  assumes "\<not> dm9000lock st" and "DM9000_ReadReg net DM9000_MRCMDX (e_world st) = (x, w1)" and "nic_get net w1 = (v, w2)"
    and "(ucast v :: u8) > 1"
  shows "\<exists>st'. DM9000_Receive_Packet net pool st = Some (None, st') \<and>
    DM9000_Receive_Packet net pool st' = None \<and> DM9000_SendPacket net p st' = None"
proof -
  have "(ucast v :: u8) \<noteq> 0" using assms(4) by auto
  then show ?thesis
    using assms by (simp add: DM9000_Receive_Packet_def DM9000_SendPacket_def lock_driver_def receive_retry.simps [of net pool] Let_def)
qed

section \<open>A chip on the bench\<close>

text \<open>A chip that is its own view, and the same chip with a fault that shows as a bad packet flag.\<close>

definition bench_get :: "u16 \<Rightarrow> nic_view \<Rightarrow> u16 \<times> nic_view" where
  "bench_get fault n =
     (if n_index n = DM9000_MRCMD then (case n_rx n of [] \<Rightarrow> (0, n) | v # vs \<Rightarrow> (v, n\<lparr>n_rx := vs\<rparr>))
      else if n_index n = DM9000_MRCMDX then (if n_stale n then 0 else if n_rx n = [] then 0 else fault, n\<lparr>n_stale := False\<rparr>)
      else if n_index n = DM9000_ISR then (if n_busy n = 0 then 0x02 else 0, n\<lparr>n_busy := n_busy n - 1\<rparr>)
      else (0, n))"

definition bench_put :: "u16 \<Rightarrow> nic_view \<Rightarrow> nic_view" where
  "bench_put v n =
     (if n_index n = DM9000_MWCMD then n\<lparr>n_tx := n_tx n @ [v]\<rparr>
      else if n_index n = DM9000_TXPLL then n\<lparr>n_low := v\<rparr>
      else if n_index n = DM9000_TXPLH then n\<lparr>n_high := v\<rparr>
      else if n_index n = DM9000_TCR \<and> v = 1 then n\<lparr>n_line := n_line n @ [sent_packet n], n_tx := [], n_busy := 3\<rparr>
      else n)"

definition bench_nic :: "u16 \<Rightarrow> nic_view nic" where
  "bench_nic fault = \<lparr>nic_index = (\<lambda>r n. n\<lparr>n_index := r, n_stale := True\<rparr>), nic_which = n_index, nic_put = bench_put, nic_get = bench_get fault\<rparr>"

interpretation eth: dm9000_chip "bench_nic 1" "\<lambda>n. n"
proof (unfold_locales, goal_cases)
  case (1 r w)
  show ?case by (simp add: bench_nic_def)
next
  case (2 v w)
  show ?case by (simp add: bench_nic_def bench_put_def put_view_def) blast
next
  case (3 w v w')
  then show ?case by (cases "n_rx w") (simp_all add: bench_nic_def bench_get_def get_view_def split: if_split_asm, auto)
qed

text \<open>Buffers of at most 512 bytes, as the pool of LWIP has them.\<close>

fun cut :: "nat \<Rightarrow> nat \<Rightarrow> (nat \<times> nat) list" where
  "cut n 0 = []"
| "cut n (Suc k) = (if n = 0 then [] else (min n 512, 512) # cut (n - min n 512) k)"

definition bench_pool :: "'w pbufs" where
  "bench_pool = \<lparr>p_alloc = (\<lambda>n w. (Some (cut (unat n) 200), w)), p_free = (\<lambda>w. w)\<rparr>"

lemma cut_ok: "n \<le> 512 * k \<Longrightarrow> chain_ok n (cut n k)"
proof (induction k arbitrary: n)
  case (Suc k)
  have c: "chain_ok (n - 512) (cut (n - 512) k)" using Suc by simp
  have z: "cut 0 k = []" by (cases k) simp_all
  have m: "n + n mod 2 \<le> 512" if "n \<le> 512" using that by presburger
  consider "n = 0" | "0 < n" "n \<le> 512" | "512 < n" by linarith
  then show ?case
  proof cases
    case 2
    then show ?thesis using z m by simp
  next
    case 3
    then show ?thesis using c by (simp add: min_absorb2)
  qed simp
qed simp

end
