(* ===== verification/Tasks.thy ===== *)
theory Tasks
  imports Answers Bluetooth Untouched St16c554 Dm9000
begin

text \<open>
  THREAD/thread.c: the tasks of the RTOS, one turn of the loop of each as a function, and the interrupt that
  wakes the board. Of uC/OS-II the state keeps what the tasks use: which priorities are suspended, the
  message queue with its five places, and the semaphore of the modem task. The order in which turns are
  taken is open: \<open>system_step\<close> lets any task that is not suspended or blocked take one. Within a turn the other
  tasks stand still, except that the FTP task may report a picture saved. HARDWARE/PWCTROL and
  HARDWARE/LOW-Power, which switch supplies and stop the processor, are here, too. Left out: console
  output, and the registers of clocks and interrupt lines.
\<close>

section \<open>Supplies\<close>

definition power_pins :: "(port \<times> nat) list" where
  "power_pins = [(GPIOD, 3), (GPIOG, 11), (GPIOG, 12), (GPIOG, 13), (GPIOG, 15), (GPIOB, 3), (GPIOB, 4), (GPIOB, 5),
     (GPIOC, 1), (GPIOC, 2), (GPIOC, 3)]"

definition set_pins :: "'w board \<Rightarrow> bool \<Rightarrow> (port \<times> nat) list \<Rightarrow> 'w \<Rightarrow> 'w" where
  "set_pins b v pins w = fold (\<lambda>(p, k). pin_out b p k v) pins w"

definition PWR_ON :: "'w board \<Rightarrow> 'w \<Rightarrow> 'w" where
  "PWR_ON b w = set_pins b True power_pins w"

text \<open>The rain gauge stays on.\<close>

definition PWR_OFF :: "'w board \<Rightarrow> 'w \<Rightarrow> 'w" where
  "PWR_OFF b w = set_pins b False (filter (\<lambda>p. p \<noteq> (GPIOG, 15)) power_pins) w"

definition POE_ON :: "'w board \<Rightarrow> 'w \<Rightarrow> 'w" where "POE_ON b w = pin_out b GPIOD 3 True w"
definition POE_OFF :: "'w board \<Rightarrow> 'w \<Rightarrow> 'w" where "POE_OFF b w = pin_out b GPIOD 3 False w"

definition PWCTRL_GPIO_Init :: "'w board \<Rightarrow> 'w \<Rightarrow> 'w" where
  "PWCTRL_GPIO_Init b w =
     set_pins b True [(GPIOG, 11), (GPIOG, 12), (GPIOG, 13), (GPIOG, 15), (GPIOB, 3), (GPIOB, 4), (GPIOB, 5), (GPIOC, 1), (GPIOC, 3)]
       (POE_OFF b w)"

section \<open>State\<close>

abbreviation FTP_TASK_PRIO :: nat where "FTP_TASK_PRIO \<equiv> 9"
abbreviation GPRS_TASK_PRIO :: nat where "GPRS_TASK_PRIO \<equiv> 10"
abbreviation START_TASK_PRIO :: nat where "START_TASK_PRIO \<equiv> 11"
abbreviation BASIC_MESSAGE_TASK_PRIO :: nat where "BASIC_MESSAGE_TASK_PRIO \<equiv> 13"
abbreviation Receive_COMMAND_TASK_PRIO :: nat where "Receive_COMMAND_TASK_PRIO \<equiv> 15"
abbreviation BLUETOOTH_TASK_PRIO :: nat where "BLUETOOTH_TASK_PRIO \<equiv> 16"
abbreviation STOP_MODE_TASK_PRIO :: nat where "STOP_MODE_TASK_PRIO \<equiv> 17"
abbreviation ENTER_STOP_MODE :: u8 where "ENTER_STOP_MODE \<equiv> 1"
abbreviation WAKE_UP_MODE :: u8 where "WAKE_UP_MODE \<equiv> 2"

definition N_MESSAGE :: nat where "N_MESSAGE = 5"
definition FTP_TIME_INTERVAL_MINUTES :: u8 where "FTP_TIME_INTERVAL_MINUTES = 5"
definition FTP_SAVE_MAX_WAIT_TIME :: nat where "FTP_SAVE_MAX_WAIT_TIME = 120"

text \<open>The fields \<open>bm_\<close> and \<open>bt_\<close> are the local variables that \<open>basic_message_task\<close> and \<open>bluetooth_task\<close> keep from turn to turn.\<close>

record 'w tasks = "'w proto" +
  suspended :: "nat set"
  Message_Q :: "u8 list"
  gprs_task_en :: nat
  g_respose_flag :: u8
  g_stop_mode_flag :: u8
  bm_real_time :: Time_Def
  bm_last_minutes :: u8
  bm_last_hours :: u8
  bm_ftp_time_interval :: u8
  bt_buff :: "u8 list"

definition OSTaskSuspend :: "nat \<Rightarrow> ('w, 'z) tasks_scheme \<Rightarrow> ('w, 'z) tasks_scheme" where
  "OSTaskSuspend prio s = s\<lparr>suspended := insert prio (suspended s)\<rparr>"

definition OSTaskResume :: "nat \<Rightarrow> ('w, 'z) tasks_scheme \<Rightarrow> ('w, 'z) tasks_scheme" where
  "OSTaskResume prio s = s\<lparr>suspended := suspended s - {prio}\<rparr>"

text \<open>A message for a full queue is lost.\<close>

definition OSQPost :: "u8 \<Rightarrow> ('w, 'z) tasks_scheme \<Rightarrow> ('w, 'z) tasks_scheme" where
  "OSQPost message s = (if length (Message_Q s) < N_MESSAGE then s\<lparr>Message_Q := Message_Q s @ [message]\<rparr> else s)"

definition start_task :: "('w, 'z) tasks_scheme \<Rightarrow> ('w, 'z) tasks_scheme" where
  "start_task s =
     (let s = s\<lparr>gprs_task_en := 0, Message_Q := []\<rparr>; s = OSTaskSuspend FTP_TASK_PRIO s
      in OSTaskSuspend START_TASK_PRIO s)"

section \<open>The reporting task\<close>

text \<open>\<open>saved i\<close>: the \<open>i\<close>th look at \<open>g_save_picture_flag\<close> finds it set. The result is \<open>wait_time\<close> at the end.\<close>

fun wait_picture :: "(nat \<Rightarrow> bool) \<Rightarrow> nat \<Rightarrow> nat \<Rightarrow> nat" where
  "wait_picture saved i 0 = 0"
| "wait_picture saved i (Suc wait_time) =
     (if saved i then Suc wait_time else wait_picture saved (Suc i) wait_time)"

definition picture_phase :: "'w board \<Rightarrow> (nat \<Rightarrow> bool) \<Rightarrow> ('w, 'z) tasks_scheme \<Rightarrow> ('w, 'z) tasks_scheme" where
  "picture_phase b saved s =
     (let s = s\<lparr>bm_ftp_time_interval := bm_ftp_time_interval s - 5\<rparr>
      in if bm_ftp_time_interval s = 0 then
           let s = s\<lparr>world := POE_ON b (world s), bm_ftp_time_interval := FTP_TIME_INTERVAL_MINUTES\<rparr>;
               s = OSTaskResume FTP_TASK_PRIO s
           in if wait_picture saved 0 FTP_SAVE_MAX_WAIT_TIME = 0 then OSQPost ENTER_STOP_MODE s
              else let s = OSTaskSuspend FTP_TASK_PRIO s in s\<lparr>gprs_task_en := gprs_task_en s + 1\<rparr>
         else OSQPost ENTER_STOP_MODE s)"

definition hour_phase :: "'w board \<Rightarrow> u8 \<Rightarrow> u8 \<Rightarrow> ('w, 'z) tasks_scheme \<Rightarrow> ('w, 'z) tasks_scheme option" where
  "hour_phase b minutes hours s =
     (if minutes = 0 \<and> hours \<noteq> bm_last_hours s then do {
        let s = s\<lparr>bm_last_hours := hours\<rparr>;
        s \<leftarrow> hour_message_init b s;
        Some (RS232_3_Send_buf b (hour_message_bytes (g_hour_message s)) s)
      }
      else Some s)"

text \<open>What is done at a boundary of five minutes before the picture is taken.\<close>

definition report_phase :: "'w board \<Rightarrow> u8 \<Rightarrow> u8 \<Rightarrow> ('w, 'z) tasks_scheme \<Rightarrow> ('w, 'z) tasks_scheme option" where
  "report_phase b minutes hours s = do {
     let (rtu_paramters, s) = RTU_parameters_Readdata b s;
     (_, _, s) \<leftarrow> SaveAndGetData_FiveMinute b (stack_time s) s;
     let s = s\<lparr>bm_last_minutes := minutes\<rparr>;
     s \<leftarrow> plus_message_init b s;
     s \<leftarrow> hour_phase b minutes hours s;
     five_minute_rainfall \<leftarrow> BCDSendataToFloat FIVE_MIN_PRECIPIT_ID (five_min_precipit_data (m_content (g_plus_message s)));
     rainfall_threshold \<leftarrow> BCDSendataToFloat 0x0008 [threshold_rainfall_value_of_plusemessage rtu_paramters];
     Some (if five_minute_rainfall \<ge> rainfall_threshold then RS232_3_Send_buf b (plus_message_bytes (g_plus_message s)) s else s)
   }"

definition basic_message_turn :: "'w board \<Rightarrow> (nat \<Rightarrow> bool) \<Rightarrow> ('w, 'z) tasks_scheme \<Rightarrow> ('w, 'z) tasks_scheme option" where
  "basic_message_turn b saved s = do {
     let (_, real_time, w) = RTC_ReadDate b (bm_real_time s) (world s);
     let s = s\<lparr>world := w, bm_real_time := real_time\<rparr>;
     let minutes = BCDTimeTodata (t_minute real_time);
     let hours = BCDTimeTodata (t_hour real_time);
     if minutes mod 5 = 0 \<and> minutes \<noteq> bm_last_minutes s then do {
       s \<leftarrow> report_phase b minutes hours s;
       Some (picture_phase b saved s)
     }
     else Some s
   }"

section \<open>The other tasks\<close>

definition gprs_turn :: "'w board \<Rightarrow> ('w, 'z) tasks_scheme \<Rightarrow> ('w, 'z) tasks_scheme option" where
  "gprs_turn b s = do {
     let s = s\<lparr>gprs_task_en := gprs_task_en s - 1\<rparr>;
     let s = OSTaskSuspend Receive_COMMAND_TASK_PRIO s;
     (_, s) \<leftarrow> SendPictureToServer b s;
     let s = OSTaskResume Receive_COMMAND_TASK_PRIO s;
     Some (OSQPost ENTER_STOP_MODE s)
   }"

definition mode_change :: "u8 \<Rightarrow> ('w, 'z) tasks_scheme \<Rightarrow> ('w, 'z) tasks_scheme" where
  "mode_change fun_id s =
     (if fun_id = ENTER_RESPONSE_MODE then OSTaskSuspend BASIC_MESSAGE_TASK_PRIO (OSTaskSuspend STOP_MODE_TASK_PRIO s)
      else if fun_id = ENTER_NORMAL_MODE then OSTaskResume STOP_MODE_TASK_PRIO s
      else s)"

definition receive_command_turn :: "'w board \<Rightarrow> ('w, 'z) tasks_scheme \<Rightarrow> ('w, 'z) tasks_scheme option" where
  "receive_command_turn b s =
     (if RS232_3_Recv_Address s \<noteq> 0 then
        if strstr (RS232_3_Recv s) [0x7E, 0x7E] \<noteq> None then do {
          (fun_id, s) \<leftarrow> GetDownFrameFunId RS232_3 s;
          let s = mode_change fun_id s;
          (_, s) \<leftarrow> ExecuteFunctionByFunId b fun_id RS232_3 s;
          (_, s) \<leftarrow> ResponseUpMessage b fun_id RS232_3 s;
          Some (s\<lparr>RS232_3_Recv_Address := 0\<rparr>)
        }
        else Some s
      else if g_usart2_receive_stat s then
        if strstr (DMA_usart2_Buf s) [0x7E, 0x7E] \<noteq> None then do {
          (fun_id, s) \<leftarrow> GetDownFrameFunId SERIAL_2 s;
          (_, s) \<leftarrow> ExecuteFunctionByFunId b fun_id SERIAL_2 s;
          (_, s) \<leftarrow> ResponseUpMessage b fun_id SERIAL_2 s;
          Some (s\<lparr>g_usart2_receive_stat := False\<rparr>)
        }
        else Some s
      else Some s)"

definition bluetooth_task_turn :: "'w board \<Rightarrow> ('w, 'z) tasks_scheme \<Rightarrow> ('w, 'z) tasks_scheme option" where
  "bluetooth_task_turn b s = do { (buff, s) \<leftarrow> bluetooth_turn b (bt_buff s) s; Some (s\<lparr>bt_buff := buff\<rparr>) }"

section \<open>Stopping and waking\<close>

definition Peripheral_Disable :: "'w board \<Rightarrow> 'w \<Rightarrow> 'w" where "Peripheral_Disable b w = PWR_OFF b w"
definition Peripheral_Enable :: "'w board \<Rightarrow> 'w \<Rightarrow> 'w" where "Peripheral_Enable b w = PWR_ON b w"

definition enter_stop_mode :: "'w board \<Rightarrow> ('w, 'z) tasks_scheme \<Rightarrow> ('w, 'z) tasks_scheme option" where
  "enter_stop_mode b s = do {
     let s = s\<lparr>g_stop_mode_flag := 1\<rparr>;
     let (_, real_time, w) = RTC_ReadDate b (stack_time s) (world s);
     w \<leftarrow> SetNextFiveMinuteAlarm b real_time w;
     Some (s\<lparr>world := Peripheral_Disable b w\<rparr>)
   }"

definition stop_tasks :: "nat list" where
  "stop_tasks = [5, 6, BASIC_MESSAGE_TASK_PRIO, Receive_COMMAND_TASK_PRIO, BLUETOOTH_TASK_PRIO, FTP_TASK_PRIO]"

definition woken_tasks :: "nat list" where
  "woken_tasks = [5, 6, BASIC_MESSAGE_TASK_PRIO, Receive_COMMAND_TASK_PRIO, BLUETOOTH_TASK_PRIO]"

text \<open>Of \<open>DM9000_Init\<close> only the registers matter here; the variables of the Ethernet driver are its own.\<close>

definition stopmode_turn :: "'w board \<Rightarrow> ('w, 'z) tasks_scheme \<Rightarrow> ('w, 'z) tasks_scheme option" where
  "stopmode_turn b s =
     (case Message_Q s of [] \<Rightarrow> Some s
      | message # queue \<Rightarrow>
          let s = s\<lparr>Message_Q := queue\<rparr>
          in if message = ENTER_STOP_MODE then
               let s = fold OSTaskSuspend stop_tasks s; (_, s) = gprs_disconnect b s in enter_stop_mode b s
             else if message = WAKE_UP_MODE then
               let s = (if g_respose_flag s = 1 then s\<lparr>g_respose_flag := 0\<rparr> else s);
                   s = s\<lparr>world := PWCTRL_GPIO_Init b (world s)\<rparr>
               in do {
                 (_, w) \<leftarrow> DM9000_start b (ethernet b) (init_config (unique_id b)) (world s);
                 let (_, s) = GPRS_4G_Init b (s\<lparr>world := w\<rparr>);
                 Some (fold OSTaskResume woken_tasks s)
               }
             else Some s)"

definition EXTI0_IRQHandler :: "'w board \<Rightarrow> ('w, 'z) tasks_scheme \<Rightarrow> ('w, 'z) tasks_scheme option" where
  "EXTI0_IRQHandler b s = do {
     let s = (if g_stop_mode_flag s = 1 then OSQPost WAKE_UP_MODE (s\<lparr>g_stop_mode_flag := 0\<rparr>) else s);
     (_, _, w) \<leftarrow> I2CReadSerial b RTC_Address 0x10 1 [0] (world s);
     Some (s\<lparr>world := w\<rparr>)
   }"

section \<open>The system\<close>

inductive system_step :: "'w board \<Rightarrow> 'w tasks \<Rightarrow> 'w tasks \<Rightarrow> bool" for b :: "'w board" where
  basic: "\<lbrakk>BASIC_MESSAGE_TASK_PRIO \<notin> suspended s; basic_message_turn b saved s = Some s'\<rbrakk> \<Longrightarrow> system_step b s s'"
| gprs: "\<lbrakk>GPRS_TASK_PRIO \<notin> suspended s; 0 < gprs_task_en s; gprs_turn b s = Some s'\<rbrakk> \<Longrightarrow> system_step b s s'"
| receive: "\<lbrakk>Receive_COMMAND_TASK_PRIO \<notin> suspended s; receive_command_turn b s = Some s'\<rbrakk> \<Longrightarrow> system_step b s s'"
| phone: "\<lbrakk>BLUETOOTH_TASK_PRIO \<notin> suspended s; bluetooth_task_turn b s = Some s'\<rbrakk> \<Longrightarrow> system_step b s s'"
| stop: "\<lbrakk>STOP_MODE_TASK_PRIO \<notin> suspended s; stopmode_turn b s = Some s'\<rbrakk> \<Longrightarrow> system_step b s s'"
| alarm: "EXTI0_IRQHandler b s = Some s' \<Longrightarrow> system_step b s s'"
| rain: "system_step b s (EXTI1_IRQHandler s)"
| modem: "system_step b s (USART2_IRQHandler burst s)"
| serial: "ST16C554D_interrupt bus p s = Some (p', s') \<Longrightarrow> system_step b s s'"

inductive system_run :: "'w board \<Rightarrow> 'w tasks \<Rightarrow> 'w tasks \<Rightarrow> bool" for b :: "'w board" where
  start: "system_run b s s"
| step: "\<lbrakk>system_run b s s'; system_step b s' s''\<rbrakk> \<Longrightarrow> system_run b s s''"

section \<open>What a turn leaves alone\<close>

lemma rest_fields:
  assumes "rest s' = rest s"
  shows "suspended s' = suspended s" "Message_Q s' = Message_Q s" "gprs_task_en s' = gprs_task_en s"
    "g_stop_mode_flag s' = g_stop_mode_flag s" "bm_last_minutes s' = bm_last_minutes s"
    "bm_ftp_time_interval s' = bm_ftp_time_interval s" "bm_real_time s' = bm_real_time s" "bm_last_hours s' = bm_last_hours s"
  using assms by (cases s; cases s'; simp)+

lemma serial_rest [rest_result]: "ST16C554D_interrupt bus p s = Some (p', s') \<Longrightarrow> rest s' = rest s"
  by (auto simp: ST16C554D_interrupt_def bind_eq_Some_conv)

lemma send_rest [rest_result]: "BlueTooth_Sendbuff b buff n s = Some s' \<Longrightarrow> rest s' = rest s"
  by (auto simp: BlueTooth_Sendbuff_def bind_eq_Some_conv)

lemma getbuff_rest [rest_result]: "bluetooth_getbuff b buff s = Some (n, buff', s') \<Longrightarrow> rest s' = rest s"
  by (auto simp: bluetooth_getbuff_def bind_eq_Some_conv)

lemma change_rest [rest_result]:
  "chang_upid_upframe b buff n s = Some s' \<Longrightarrow> rest s' = rest s" "set_time_upframe b buff s = Some s' \<Longrightarrow> rest s' = rest s"
  "read_time_upframe b s = Some s' \<Longrightarrow> rest s' = rest s" "qerry_realdata_upframe b s = Some s' \<Longrightarrow> rest s' = rest s"
  by (auto simp: chang_upid_upframe_def set_time_upframe_def read_time_upframe_def qerry_realdata_upframe_def
      bind_eq_Some_conv split_beta Let_def dest!: send_rest)

lemma Response_upframe_rest [rest_result]: "Response_upframe b buff n f s = Some (r, s') \<Longrightarrow> rest s' = rest s"
  by (auto simp: Response_upframe_def split: if_split_asm dest!: change_rest)

lemma Execute_commanad_rest [rest_result]: "Execute_commanad b buff f s = Some (r, s') \<Longrightarrow> rest s' = rest s"
  by (auto simp: Execute_commanad_def set_real_time_def modify_rtu_parameters_def modify_4g_parameters_def
      bind_eq_Some_conv split_beta Let_def split: if_split_asm dest!: Writedata_rest)

lemma bluetooth_turn_rest [rest_result]: "bluetooth_turn b buff s = Some (buff', s') \<Longrightarrow> rest s' = rest s"
  by (auto simp: bluetooth_turn_def bind_eq_Some_conv split: if_split_asm dest!: getbuff_rest Execute_commanad_rest Response_upframe_rest)

text \<open>The part of the state that the operating system and the sleep logic keep.\<close>

definition control :: "('w, 'z) tasks_scheme \<Rightarrow> nat set \<times> u8 list \<times> u8" where
  "control s = (suspended s, Message_Q s, g_stop_mode_flag s)"

lemma control_rest: "rest s' = rest s \<Longrightarrow> control s' = control s"
  using rest_fields [of s' s] by (simp add: control_def)

lemma rest_sem: "rest s' = rest s \<Longrightarrow> control s' = control s \<and> gprs_task_en s' = gprs_task_en s"
  using rest_fields [of s' s] by (simp add: control_def)

lemma control_sel [simp]:
  "control (OSTaskSuspend p s) = (insert p (suspended s), Message_Q s, g_stop_mode_flag s)"
  "control (OSTaskResume p s) = (suspended s - {p}, Message_Q s, g_stop_mode_flag s)"
  "control (OSQPost m s) = (suspended s, if length (Message_Q s) < 5 then Message_Q s @ [m] else Message_Q s, g_stop_mode_flag s)"
  by (simp_all add: control_def OSTaskSuspend_def OSTaskResume_def OSQPost_def N_MESSAGE_def)

lemma rest_control: "rest s' = rest s \<Longrightarrow>
   control s' = control s \<and> bm_last_minutes s' = bm_last_minutes s \<and> bm_real_time s' = bm_real_time s"
  using rest_fields [of s' s] by (simp add: control_def)

lemma control_world [simp]: "control (s\<lparr>world := w\<rparr>) = control s" "control (s\<lparr>bm_last_minutes := m\<rparr>) = control s"
  "control (s\<lparr>bm_last_hours := h\<rparr>) = control s" "control (s\<lparr>bm_real_time := t\<rparr>) = control s"
  "control (s\<lparr>bm_ftp_time_interval := i\<rparr>) = control s" "control (s\<lparr>gprs_task_en := n\<rparr>) = control s" "control (s\<lparr>bt_buff := buff\<rparr>) = control s"
  by (simp_all add: control_def)

lemma hour_phase_control:
  "hour_phase b m h s = Some s' \<Longrightarrow>
   control s' = control s \<and> bm_last_minutes s' = bm_last_minutes s \<and> bm_real_time s' = bm_real_time s"
proof (cases "m = 0 \<and> h \<noteq> bm_last_hours s")
  case True
  assume "hour_phase b m h s = Some s'"
  then obtain s1 where 1: "hour_message_init b (s\<lparr>bm_last_hours := h\<rparr>) = Some s1"
    and s': "s' = RS232_3_Send_buf b (hour_message_bytes (g_hour_message s1)) s1"
    using True by (auto simp only: hour_phase_def bind_eq_Some_conv Let_def if_True simp_thms option.inject)
  show ?thesis using rest_control [OF hour_message_rest [OF 1]] by (simp add: s' RS232_3_Send_buf_def)
qed (simp add: hour_phase_def)

lemma report_phase_control:
  assumes "report_phase b m h s = Some s'"
  shows "control s' = control s \<and> bm_last_minutes s' = m \<and> bm_real_time s' = bm_real_time s"
proof -
  obtain p s1 where 1: "RTU_parameters_Readdata b s = (p, s1)" by (rule prod.exhaust)
  obtain x y s2 s3 s4 where 2: "SaveAndGetData_FiveMinute b (stack_time s1) s1 = Some (x, y, s2)"
    and 3: "plus_message_init b (s2\<lparr>bm_last_minutes := m\<rparr>) = Some s3" and 4: "hour_phase b m h s3 = Some s4"
    and s': "s' = s4 \<or> s' = RS232_3_Send_buf b (plus_message_bytes (g_plus_message s4)) s4"
    using assms by (simp only: report_phase_def 1 bind_eq_Some_conv Let_def case_prod_beta fst_conv snd_conv split_paired_Ex) (auto split: if_splits)
  have "control s1 = control s \<and> bm_real_time s1 = bm_real_time s" using rest_control [OF Readdata_rest [of b s]] by (simp add: 1)
  moreover have "control s2 = control s1 \<and> bm_real_time s2 = bm_real_time s1" using rest_control [OF SaveAndGetData_rest [OF 2]] by simp
  moreover have "control s3 = control s2 \<and> bm_last_minutes s3 = m \<and> bm_real_time s3 = bm_real_time s2" using rest_control [OF plus_message_rest [OF 3]] by simp
  moreover note hour_phase_control [OF 4]
  ultimately show ?thesis using s' by (auto simp: RS232_3_Send_buf_def)
qed

text \<open>One post, and the FTP task resumed or suspended.\<close>

lemma picture_phase_control:
  "control (picture_phase b saved s) =
     (let post = (if length (Message_Q s) < 5 then Message_Q s @ [ENTER_STOP_MODE] else Message_Q s)
      in if bm_ftp_time_interval s = 5 then
           if wait_picture saved 0 120 = 0 then (suspended s - {FTP_TASK_PRIO}, post, g_stop_mode_flag s)
           else (insert FTP_TASK_PRIO (suspended s - {FTP_TASK_PRIO}), Message_Q s, g_stop_mode_flag s)
         else (suspended s, post, g_stop_mode_flag s))"
proof -
  have "bm_ftp_time_interval s - 5 = 0 \<longleftrightarrow> bm_ftp_time_interval s = 5" by auto
  then show ?thesis
    by (simp add: picture_phase_def Let_def FTP_SAVE_MAX_WAIT_TIME_def) (simp add: OSTaskResume_def OSTaskSuspend_def control_def OSQPost_def N_MESSAGE_def)
qed

lemma basic_turn_control:
  assumes "basic_message_turn b saved s = Some s'"
  shows "(control s' = control s \<and> bm_last_minutes s' = bm_last_minutes s) \<or>
    (\<exists>s1. control s1 = control s \<and> bm_last_minutes s1 mod 5 = 0 \<and> s' = picture_phase b saved s1)"
proof -
  obtain c t w where r: "RTC_ReadDate b (bm_real_time s) (world s) = (c, t, w)" by (rule prod_cases3)
  let ?s = "s\<lparr>world := w, bm_real_time := t\<rparr>" and ?m = "BCDTimeTodata (t_minute t)"
  show ?thesis
  proof (cases "?m mod 5 = 0 \<and> ?m \<noteq> bm_last_minutes ?s")
    case True
    then obtain s1 where s1: "report_phase b ?m (BCDTimeTodata (t_hour t)) ?s = Some s1" "s' = picture_phase b saved s1"
      using assms by (auto simp: basic_message_turn_def r Let_def bind_eq_Some_conv)
    have "control s1 = control ?s" "bm_last_minutes s1 = ?m" using report_phase_control [OF s1(1)] by (simp_all only:)
    then have "control s1 = control s" "bm_last_minutes s1 mod 5 = 0" using True by (simp_all only: control_world)
    then show ?thesis using s1(2) by (intro disjI2 exI [of _ s1] conjI)
  next
    case False
    then have "s' = ?s" using assms by (auto simp: basic_message_turn_def r Let_def)
    then show ?thesis by simp
  qed
qed

section \<open>The system wakes up again\<close>

text \<open>
  Asleep is when the reporting, receiving and bluetooth tasks are suspended. Then the stop task can run,
  and either the processor has been stopped, so that the next alarm posts a message, or a message is waiting.
\<close>

definition asleep :: "('w, 'z) tasks_scheme \<Rightarrow> bool" where
  "asleep s \<longleftrightarrow> {BASIC_MESSAGE_TASK_PRIO, Receive_COMMAND_TASK_PRIO, BLUETOOTH_TASK_PRIO} \<subseteq> suspended s"

definition alert :: "nat set \<times> u8 list \<times> u8 \<Rightarrow> bool" where
  "alert = (\<lambda>(susp, q, flag).
     (Receive_COMMAND_TASK_PRIO \<in> susp \<longrightarrow> STOP_MODE_TASK_PRIO \<notin> susp) \<and>
     ({BASIC_MESSAGE_TASK_PRIO, Receive_COMMAND_TASK_PRIO, BLUETOOTH_TASK_PRIO} \<subseteq> susp \<longrightarrow> flag = 1 \<or> q \<noteq> []) \<and>
     set q \<subseteq> {ENTER_STOP_MODE, WAKE_UP_MODE} \<and> length q \<le> 5)"

lemma alert_ftp [simp]:
  "alert (susp - {FTP_TASK_PRIO}, q, f) \<longleftrightarrow> alert (susp, q, f)" "alert (insert FTP_TASK_PRIO susp, q, f) \<longleftrightarrow> alert (susp, q, f)"
  by (simp_all add: alert_def)

lemma alert_post: "alert (susp, q, f) \<Longrightarrow> m \<in> {ENTER_STOP_MODE, WAKE_UP_MODE} \<Longrightarrow> alert (susp, if length q < 5 then q @ [m] else q, f)"
  by (auto simp: alert_def)

lemma basic_alert:
  assumes "basic_message_turn b saved s = Some s'" and "alert (control s)"
  shows "alert (control s')"
proof -
  from basic_turn_control [OF assms(1)] show ?thesis
  proof (elim disjE conjE exE)
    fix s1 assume s1: "control s1 = control s" "s' = picture_phase b saved s1"
    then have a: "alert (suspended s1, Message_Q s1, g_stop_mode_flag s1)" using assms(2) by (simp add: control_def)
    show ?thesis
      using a alert_post [OF a, of ENTER_STOP_MODE]
      by (simp only: s1(2) picture_phase_control Let_def) (auto split: if_splits)
  qed (use assms(2) in simp)
qed

lemma fold_suspend: "control (fold OSTaskSuspend ps s) = (set ps \<union> suspended s, Message_Q s, g_stop_mode_flag s)"
proof (induction ps arbitrary: s)
  case (Cons p ps)
  then show ?case by (simp add: OSTaskSuspend_def)
qed (simp add: control_def)

lemma fold_resume: "control (fold OSTaskResume ps s) = (suspended s - set ps, Message_Q s, g_stop_mode_flag s)"
proof (induction ps arbitrary: s)
  case (Cons p ps)
  then show ?case by (auto simp: OSTaskResume_def)
qed (simp add: control_def)

lemma gprs_alert:
  assumes "gprs_turn b s = Some s'" and "alert (control s)"
  shows "alert (control s')"
proof -
  let ?s = "OSTaskSuspend Receive_COMMAND_TASK_PRIO (s\<lparr>gprs_task_en := gprs_task_en s - 1\<rparr>)"
  obtain r s1 where s1: "SendPictureToServer b ?s = Some (r, s1)" "s' = OSQPost ENTER_STOP_MODE (OSTaskResume Receive_COMMAND_TASK_PRIO s1)"
    using assms(1) by (auto simp: gprs_turn_def Let_def bind_eq_Some_conv)
  have "control s1 = (insert Receive_COMMAND_TASK_PRIO (suspended s), Message_Q s, g_stop_mode_flag s)"
    using control_rest [OF SendPictureToServer_rest [OF s1(1)]] by simp
  then have c: "suspended s1 - {Receive_COMMAND_TASK_PRIO} = suspended s - {Receive_COMMAND_TASK_PRIO}"
    "Message_Q s1 = Message_Q s" "g_stop_mode_flag s1 = g_stop_mode_flag s"
    by (auto simp: control_def)
  have a: "alert (suspended s - {Receive_COMMAND_TASK_PRIO}, Message_Q s, g_stop_mode_flag s)"
    using assms(2) by (auto simp: alert_def control_def)
  show ?thesis
    using alert_post [OF a, of ENTER_STOP_MODE] by (simp add: s1(2) OSTaskResume_def c split: if_splits)
qed

lemma mode_change_alert:
  "\<lbrakk>alert (control s); Receive_COMMAND_TASK_PRIO \<notin> suspended s\<rbrakk> \<Longrightarrow> alert (control (mode_change f s))"
  by (auto simp: mode_change_def alert_def control_def OSTaskSuspend_def OSTaskResume_def)

lemma receive_control:
  fixes s s' :: "('w, 'z) tasks_scheme"
  assumes "receive_command_turn b s = Some s'"
  shows "gprs_task_en s' = gprs_task_en s \<and>
    (control s' = control s \<or> (\<exists>f (s1 :: ('w, 'z) tasks_scheme). control s1 = control s \<and> control s' = control (mode_change f s1)))"
proof -
  have upd: "control (s\<lparr>RS232_3_Recv_Address := n\<rparr>) = control s" "control (s\<lparr>g_usart2_receive_stat := v\<rparr>) = control s"
    "gprs_task_en (mode_change f s) = gprs_task_en s" for s :: "('w, 'z) tasks_scheme" and n v f
    by (simp_all add: control_def mode_change_def OSTaskSuspend_def OSTaskResume_def)
  consider (rs232) f s1 r1 s2 r2 s3 where "GetDownFrameFunId RS232_3 s = Some (f, s1)"
      "ExecuteFunctionByFunId b f RS232_3 (mode_change f s1) = Some (r1, s2)"
      "ResponseUpMessage b f RS232_3 s2 = Some (r2, s3)" "s' = s3\<lparr>RS232_3_Recv_Address := 0\<rparr>"
    | (modem) f s1 r1 s2 r2 s3 where "GetDownFrameFunId SERIAL_2 s = Some (f, s1)"
      "ExecuteFunctionByFunId b f SERIAL_2 s1 = Some (r1, s2)"
      "ResponseUpMessage b f SERIAL_2 s2 = Some (r2, s3)" "s' = s3\<lparr>g_usart2_receive_stat := False\<rparr>"
    | (none) "s' = s"
    using assms by (auto simp: receive_command_turn_def Let_def bind_eq_Some_conv split: if_split_asm)
  then show ?thesis
  proof cases
    case (rs232 f s1 r1 s2 r2 s3)
    note c = rest_sem [OF down_frame_rest [OF rs232(1)]] rest_sem [OF Execute_rest [OF rs232(2)]]
      rest_sem [OF Response_rest [OF rs232(3)]]
    have "control s' = control (mode_change f s1)" "gprs_task_en s' = gprs_task_en s" using c by (simp_all add: rs232(4) upd)
    then show ?thesis using c(1) by - (rule conjI, assumption, rule disjI2, rule exI [of _ f], rule exI [of _ s1], simp)
  next
    case (modem f s1 r1 s2 r2 s3)
    then show ?thesis
      using rest_sem [OF down_frame_rest [OF modem(1)]] rest_sem [OF Execute_rest [OF modem(2)]]
        rest_sem [OF Response_rest [OF modem(3)]] by (simp add: upd)
  qed simp
qed

lemma stop_control:
  assumes "stopmode_turn b s = Some s'"
  shows "control s' = (case Message_Q s of [] \<Rightarrow> control s
    | m # q \<Rightarrow> if m = ENTER_STOP_MODE then (set stop_tasks \<union> suspended s, q, 1)
              else if m = WAKE_UP_MODE then (suspended s - set woken_tasks, q, g_stop_mode_flag s)
              else (suspended s, q, g_stop_mode_flag s))"
proof (cases "Message_Q s")
  case Nil
  then show ?thesis using assms by (simp add: stopmode_turn_def)
next
  case (Cons m q)
  let ?s = "s\<lparr>Message_Q := q\<rparr>"
  show ?thesis
  proof (cases "m = ENTER_STOP_MODE")
    case True
    define s1 where "s1 = snd (gprs_disconnect b (fold OSTaskSuspend stop_tasks ?s))"
    have c1: "control s1 = (set stop_tasks \<union> suspended s, q, g_stop_mode_flag s)"
      using control_rest [OF connect_rest(4) [of b "fold OSTaskSuspend stop_tasks ?s"]] by (simp add: s1_def fold_suspend)
    have "enter_stop_mode b s1 = Some s'"
      using assms True Cons by (simp add: stopmode_turn_def s1_def split_beta Let_def)
    then have "control s' = (suspended s1, Message_Q s1, 1)"
      by (auto simp: enter_stop_mode_def bind_eq_Some_conv split_beta Let_def control_def)
    then show ?thesis using c1 Cons True by (simp add: control_def)
  next
    case False
    define s1 where "s1 = (if g_respose_flag ?s = 1 then ?s\<lparr>g_respose_flag := 0\<rparr> else ?s)"
    have c1: "control s1 = (suspended s, q, g_stop_mode_flag s)" by (simp add: s1_def control_def)
    show ?thesis
    proof (cases "m = WAKE_UP_MODE")
      case True
      let ?w = "PWCTRL_GPIO_Init b (world s1)"
      obtain r w where e: "DM9000_start b (ethernet b) (init_config (unique_id b)) ?w = Some (r, w)"
        "s' = fold OSTaskResume woken_tasks (snd (GPRS_4G_Init b (s1\<lparr>world := w\<rparr>)))"
        using assms False True Cons unfolding stopmode_turn_def s1_def by (auto simp: split_beta Let_def bind_eq_Some_conv)
      have "control (snd (GPRS_4G_Init b (s1\<lparr>world := w\<rparr>))) = (suspended s, q, g_stop_mode_flag s)"
        using control_rest [OF GPRS_4G_Init_rest [of b "s1\<lparr>world := w\<rparr>"]] c1 by simp
      then show ?thesis using True False Cons e(2) by (simp add: fold_resume) (simp add: control_def)
    next
      case no: False
      then have "s' = ?s" using assms False Cons by (simp add: stopmode_turn_def)
      then show ?thesis using no False Cons by (simp add: control_def)
    qed
  qed
qed

lemma step_alert:
  assumes "system_step b s s'" and "alert (control s)"
  shows "alert (control s')"
  using assms
proof (cases rule: system_step.cases)
  case (basic saved)
  show ?thesis by (rule basic_alert [OF basic(2) assms(2)])
next
  case gprs
  show ?thesis by (rule gprs_alert [OF gprs(3) assms(2)])
next
  case receive
  have "alert (control (mode_change f s1))" if "control s1 = control s" for f and s1 :: "'a tasks"
    by (rule mode_change_alert) (use assms(2) receive(1) that in \<open>simp_all add: control_def\<close>)
  then show ?thesis using receive_control [OF receive(2)] assms(2) by (elim conjE disjE exE) simp_all
next
  case phone
  then obtain buff s1 where "bluetooth_turn b (bt_buff s) s = Some (buff, s1)" "s' = s1\<lparr>bt_buff := buff\<rparr>"
    by (auto simp: bluetooth_task_turn_def bind_eq_Some_conv)
  then show ?thesis using control_rest [OF bluetooth_turn_rest, of b "bt_buff s" s buff s1] assms(2) by simp
next
  case stop
  have "alert (set stop_tasks \<union> suspended s, q, 1)" "alert (suspended s - set woken_tasks, q, g_stop_mode_flag s)"
    if "Message_Q s = m # q" for m q
    using assms(2) stop(1) that by (auto simp: alert_def control_def stop_tasks_def woken_tasks_def)
  then show ?thesis
    using assms(2) stop_control [OF stop(2)] by (cases "Message_Q s") (auto simp: alert_def control_def)
next
  case alarm
  define s1 where "s1 = (if g_stop_mode_flag s = 1 then OSQPost WAKE_UP_MODE (s\<lparr>g_stop_mode_flag := 0\<rparr>) else s)"
  obtain x where "I2CReadSerial b RTC_Address 0x10 1 [0] (world s1) = Some x" "s' = s1\<lparr>world := snd (snd x)\<rparr>"
    using alarm unfolding EXTI0_IRQHandler_def Let_def s1_def [symmetric] by (auto simp only: bind_eq_Some_conv split_beta option.inject)
  then have "control s' = control s1" by simp
  moreover have "alert (control s1)"
    using assms(2) unfolding s1_def
    by (cases "length (Message_Q s) < 5"; cases "Message_Q s") (auto simp: alert_def control_def OSQPost_def N_MESSAGE_def)
  ultimately show ?thesis by simp
next
  case rain
  then show ?thesis using assms(2) by (simp add: EXTI1_IRQHandler_def control_def)
next
  case (modem burst)
  then show ?thesis using assms(2) control_rest [OF IRQ_rest [of burst s]] by simp
next
  case (serial bus p p')
  then show ?thesis using assms(2) control_rest [OF serial_rest [OF serial]] by simp
qed

lemma run_alert: "\<lbrakk>system_run b s s'; alert (control s)\<rbrakk> \<Longrightarrow> alert (control s')"
  by (induction rule: system_run.induct) (auto intro: step_alert)

lemma start_alert: "suspended s = {} \<Longrightarrow> alert (control (start_task s))"
  by (simp add: start_task_def Let_def OSTaskSuspend_def control_def alert_def)

section \<open>Once per boundary\<close>

lemma picture_phase_keeps [simp]:
  "bm_last_minutes (picture_phase b saved s) = bm_last_minutes s" "bm_real_time (picture_phase b saved s) = bm_real_time s"
  by (simp_all add: picture_phase_def Let_def OSTaskResume_def OSTaskSuspend_def OSQPost_def)

text \<open>As long as the clock shows the same minute, a turn of the reporting task after another only reads the clock.\<close>

lemma turn_after_turn:
  assumes turn: "basic_message_turn b saved s = Some s1"
    and clock: "\<And>w. fst (snd (RTC_ReadDate b (bm_real_time s) w)) = t" "\<And>w. fst (snd (RTC_ReadDate b t w)) = t"
  shows "basic_message_turn b saved' s1 = Some (s1\<lparr>world := snd (snd (RTC_ReadDate b t (world s1)))\<rparr>)"
proof -
  obtain c w where r: "RTC_ReadDate b (bm_real_time s) (world s) = (c, t, w)"
    using clock(1) [of "world s"] by (cases "RTC_ReadDate b (bm_real_time s) (world s)") auto
  obtain c' w' where r': "RTC_ReadDate b t (world s1) = (c', t, w')"
    using clock(2) [of "world s1"] by (cases "RTC_ReadDate b t (world s1)") auto
  let ?s = "s\<lparr>world := w, bm_real_time := t\<rparr>" and ?m = "BCDTimeTodata (t_minute t)"
  have k: "bm_real_time s1 = t" "?m mod 5 \<noteq> 0 \<or> ?m = bm_last_minutes s1"
  proof -
    have "bm_real_time s1 = t \<and> (?m mod 5 \<noteq> 0 \<or> ?m = bm_last_minutes s1)"
    proof (cases "?m mod 5 = 0 \<and> ?m \<noteq> bm_last_minutes ?s")
      case True
      then obtain s2 where s2: "report_phase b ?m (BCDTimeTodata (t_hour t)) ?s = Some s2" "s1 = picture_phase b saved s2"
        using turn by (auto simp: basic_message_turn_def r Let_def bind_eq_Some_conv)
      then show ?thesis using report_phase_control [OF s2(1)] by simp
    next
      case False
      then have "s1 = ?s" using turn by (auto simp: basic_message_turn_def r Let_def)
      then show ?thesis using False by auto
    qed
    then show "bm_real_time s1 = t" "?m mod 5 \<noteq> 0 \<or> ?m = bm_last_minutes s1" by simp_all
  qed
  have "s1\<lparr>world := w', bm_real_time := t\<rparr> = s1\<lparr>world := w'\<rparr>" using k(1) by (cases s1) simp
  then show ?thesis using k by (auto simp: basic_message_turn_def r' Let_def)
qed

section \<open>Response mode\<close>

lemma command_frame:
  assumes "14 \<le> length buf" and "buf ! 0 = 0x7E" and "buf ! 1 = 0x7E"
  shows "strstr buf [0x7E, 0x7E] = Some 0"
proof -
  obtain x y rest where "buf = x # y # rest"
    using assms(1) by (cases buf; cases "tl buf") auto
  then show ?thesis using assms(2,3) by (simp add: strstr_def c_str_def)
qed

text \<open>The two commands that switch the mode, as they arrive over RS232.\<close>

lemma mode_turn:
  assumes "RS232_3_Recv_Address s \<noteq> 0" and "14 \<le> length (RS232_3_Recv s)"
    and "RS232_3_Recv s ! 0 = 0x7E" and "RS232_3_Recv s ! 1 = 0x7E"
    and "RS232_3_Recv s ! 10 = f" and "f = ENTER_RESPONSE_MODE \<or> f = ENTER_NORMAL_MODE"
  shows "receive_command_turn b s = Some ((mode_change f s)\<lparr>RS232_3_Recv_Address := 0\<rparr>)"
proof -
  have "GetDownFrameFunId RS232_3 s = Some (f, s)"
    using assms(2,5,6) by (auto simp: GetDownFrameFunId_def message_header_of_def known_fun_id_def)
  moreover have "ExecuteFunctionByFunId b f RS232_3 s' = Some (0, s')" "ResponseUpMessage b f RS232_3 s' = Some (0, s')" for s' :: "('a, 'b) tasks_scheme"
    using assms(6) by (auto simp: ExecuteFunctionByFunId_def ResponseUpMessage_def)
  ultimately show ?thesis
    using assms(1) command_frame [OF assms(2-4)] by (simp add: receive_command_turn_def)
qed

end
