(* ===== verification/Cycle.thy ===== *)
theory Cycle
  imports Tasks
begin

text \<open>
  One cycle of the reporting task on a complete station: at a boundary of five minutes the sample is stored,
  the added report is made up and, if it has rained enough, sent.
\<close>

section \<open>What the threshold test compares\<close>

lemma five_minute_value:
  assumes "d < 200000"
  shows "BCDSendataToFloat 0x2219 (store3 (of_nat (bcd_of (5 * d)))) = Some (of_nat d / 2)"
proof -
  have v: "HextoFloat_acc (store3 (of_nat (bcd_of (5 * d)))) 0 = int (5 * d)"
    by (rule HextoFloat_acc_store3) (use assms in simp)
  have "f32 (of_int (int (5 * d))) = of_int (int (5 * d))" by (rule rnd_int) (use assms in simp)
  moreover have "of_int (int (5 * d)) / 10 = (of_int (int d) / 2 :: rat)" by (simp add: field_simps)
  moreover have "f32 (of_int (int d) / 2) = of_int (int d) / 2" by (rule rnd_half) (use assms in simp)
  ultimately have "unscale10 1 (f32 (of_int (int (5 * d)))) = of_nat d / 2" by simp
  then show ?thesis by (simp add: BCDSendataToFloat_def HextoFloat_def slice_def length_store3 v)
qed

lemma threshold_value:
  assumes "t < 100"
  shows "BCDSendataToFloat 0x0008 [of_nat (bcd2 t)] = Some (of_nat t)"
proof -
  have "HextoFloat_acc [of_nat (bcd2 t)] 0 = int t" using HextoFloat_acc_bcd2 [OF assms, of "[]" 0] by simp
  moreover have "f32 (of_int (int t)) = of_int (int t)" by (rule rnd_int) (use assms in simp)
  ultimately show ?thesis by (simp add: BCDSendataToFloat_def HextoFloat_def slice_def)
qed

section \<open>What sampling and reporting leave alone\<close>

definition counters :: "('w, 'z) proto_scheme \<Rightarrow> u32 \<times> int \<times> u16 \<times> Time_Def" where
  "counters s = (g_rainfall_pluse_count s, last_fiveminute_rainfall_data_count s, sn s, stack_time s)"

lemma Save_counters: "SaveDataToFlash b d t data n s = Some (r, s') \<Longrightarrow> counters s' = counters s"
  by (cases "GetAddress d t (s_monthday s)"; cases "fst (the (GetAddress d t (s_monthday s)))")
    (auto simp: SaveDataToFlash_def flash_write_def bind_eq_Some_conv Let_def counters_def)

lemma Readdata_counters: "counters (snd (RTU_parameters_Readdata b s)) = counters s"
  by (simp add: RTU_parameters_Readdata_def flash_read_def split_beta Let_def counters_def)

lemma SaveAndGetData_counters: "SaveAndGetData_FiveMinute b t s = Some (x, y, s') \<Longrightarrow> counters s' = counters s"
proof -
  have [simp]: "counters (s\<lparr>world := w\<rparr>) = counters s" for s :: "('a, 'b) proto_scheme" and w by (simp add: counters_def)
  assume "SaveAndGetData_FiveMinute b t s = Some (x, y, s')"
  then show ?thesis
    by (auto simp: SaveAndGetData_FiveMinute_def bind_eq_Some_conv split_beta Let_def Readdata_counters dest!: Save_counters)
qed

context console
begin

lemma Save_log: "SaveDataToFlash b d t data n s = Some (r, s') \<Longrightarrow> log (world s') = log (world s)"
  by (cases "GetAddress d t (s_monthday s)"; cases "fst (the (GetAddress d t (s_monthday s)))")
    (auto simp: SaveDataToFlash_def flash_write_def bind_eq_Some_conv Let_def dest!: log_bus.Write_keeps)

lemma Save_keeps_both:
  "SaveDataToFlash b d t data n s = Some (r, s') \<Longrightarrow> log (world s') = log (world s) \<and> code (world s') = code (world s)"
  by (blast dest: Save_log Save_keeps_gauge)

lemma Readdata_log [simp]: "log (world (snd (RTU_parameters_Readdata b s))) = log (world s)"
  "code (world (snd (RTU_parameters_Readdata b s))) = code (world s)"
  by (simp_all add: RTU_parameters_Readdata_def flash_read_def split_beta Let_def)

lemma pins_code [simp]: "code (pin_out b p k v w) = code w"
  using pins.pin_keeps [of p k v w] by (simp only: prod.inject)

lemma code_reads [simp]: "code (snd (snd (RTC_ReadDate b t w))) = code w" "code (fst (GetWaterLevelData b w)) = code w"
  using pins.RTC_ReadDate_keeps [of t w] pins.GetWaterLevelData_keeps [of w] by (simp_all only: prod.inject)

lemma SaveAndGetData_log:
  "SaveAndGetData_FiveMinute b t s = Some (x, y, s') \<Longrightarrow> log (world s') = log (world s) \<and> code (world s') = code (world s)"
  by (auto simp: SaveAndGetData_FiveMinute_def bind_eq_Some_conv split_beta Let_def dest!: Save_keeps_both)

lemma plus_message_log:
  "plus_message_init b s = Some s' \<Longrightarrow> log (world s') = log (world s)"
  by (auto simp: plus_message_init_def read_systime_def bind_eq_Some_conv split_beta Let_def)

text \<open>The added report at a boundary that is not a full hour.\<close>

lemma report_phase_ok:
  assumes idle: "busy (world s) = 0" and md: "md_ok (s_monthday s)"
    and level: "code (world s) = gray_encode (of_nat n)" "n < 2 ^ 13"
    and clock: "\<And>w. fst (snd (RTC_ReadDate b (stack_time s) w)) = t"
    and date: "d = TimeDefTodate t" "valid_date d" "unat (d_minute d) mod 5 = 0"
    and p: "p = stored_parameters (cells (world s))" and base: "waterlevel_basevalue_1 p = store4 (of_nat (bcd_of base))"
    and thr: "threshold_rainfall_value_of_plusemessage p = of_nat (bcd2 limit)" "limit < 100"
    and range: "10 * n + base < 2 ^ 21"
    and rain: "g_rainfall_pluse_count s = of_nat k" "k < 200000" "last_fiveminute_rainfall_data_count s = int j" "j \<le> k"
    and hour: "minutes \<noteq> 0"
  shows "\<exists>s' l. report_phase b minutes hours s = Some s' \<and> (l = 10 * n + base \<or> l + 1 = 10 * n + base) \<and>
    log (world s') = (if 2 * limit \<le> k - j then [plus_message_bytes (g_plus_message s')] else []) @ log (world s) \<and>
    crc16 (plus_message_bytes (g_plus_message s')) = 0 \<and>
    five_min_precipit_data (m_content (g_plus_message s')) = store3 (of_nat (bcd_of (5 * (k - j)))) \<and>
    cells (world s') = mem_write (mem_write (cells (world s)) (slot_addr d 0) (store3 (of_nat (bcd_of (5 * k)))))
      (slot_addr d 1) (store4 (of_nat (bcd_of l))) \<and> busy (world s') = 0"
proof -
  obtain w1 where 1: "RTU_parameters_Readdata b s = (p, s\<lparr>world := w1\<rparr>)" "cells w1 = cells (world s)" "busy w1 = 0"
    "code w1 = code (world s)"
    using parameters_reading [OF idle] p by metis
  have l1: "log w1 = log (world s)" using Readdata_log(1) [of s] by (simp add: 1(1))
  let ?s1 = "s\<lparr>world := w1\<rparr>"
  have "busy (world ?s1) = 0" "md_ok (s_monthday ?s1)" "code (world ?s1) = gray_encode (of_nat n)"
    "p = stored_parameters (cells (world ?s1))" "g_rainfall_pluse_count ?s1 = of_nat k"
    using 1 md level p rain by simp_all
  from SaveAndGetData_ok [OF this(1-3) level(2) clock date this(4) base range this(5) rain(2)]
  obtain s2 l where 2: "SaveAndGetData_FiveMinute b (stack_time s) ?s1 = Some (store3 (of_nat (bcd_of (5 * k))), store4 (of_nat (bcd_of l)), s2)"
    "l = 10 * n + base \<or> l + 1 = 10 * n + base" "busy (world s2) = 0"
    "cells (world s2) = mem_write (mem_write (cells (world s)) (slot_addr d 0) (store3 (of_nat (bcd_of (5 * k)))))
      (slot_addr d 1) (store4 (of_nat (bcd_of l)))"
    using 1(2) by auto
  have keep: "log (world s2) = log (world s)" "code (world s2) = gray_encode (of_nat n)"
    using SaveAndGetData_log [OF 2(1)] l1 1(4) level by simp_all
  have cnt: "g_rainfall_pluse_count s2 = of_nat k" "last_fiveminute_rainfall_data_count s2 = int j"
    using SaveAndGetData_counters [OF 2(1)] rain by (simp_all add: counters_def)
  have p2: "p = stored_parameters (cells (world s2))"
    using p 2(4) stored_parameters_sample [OF date(2), of _ 0] stored_parameters_sample [OF date(2), of _ 1]
    by (simp add: slot_len_def length_store3 length_store4)
  let ?s2 = "s2\<lparr>bm_last_minutes := minutes\<rparr>"
  from plus_message_ok [of ?s2 n p base k j] 2(3) keep(2) level(2) p2 base range cnt rain
  obtain s3 where 3: "plus_message_init b ?s2 = Some s3" "crc16 (plus_message_bytes (g_plus_message s3)) = 0"
    "five_min_precipit_data (m_content (g_plus_message s3)) = store3 (of_nat (bcd_of (5 * (k - j))))"
    "cells (world s3) = cells (world s2)" "busy (world s3) = 0"
    by auto
  have l3: "log (world s3) = log (world s)" using plus_message_log [OF 3(1)] keep(1) by simp
  have h: "hour_phase b minutes hours s3 = Some s3" using hour by (simp add: hour_phase_def)
  have five: "BCDSendataToFloat 0x2219 (five_min_precipit_data (m_content (g_plus_message s3))) = Some (of_nat (k - j) / 2)"
    unfolding 3(3) by (rule five_minute_value) (use rain in simp)
  have thr': "BCDSendataToFloat 0x0008 [threshold_rainfall_value_of_plusemessage p] = Some (of_nat limit)"
    unfolding thr(1) by (rule threshold_value [OF thr(2)])
  have cmp: "(of_nat limit :: rat) \<le> of_nat (k - j) / 2 \<longleftrightarrow> 2 * limit \<le> k - j"
  proof -
    have "(of_nat limit :: rat) \<le> of_nat (k - j) / 2 \<longleftrightarrow> of_nat (2 * limit) \<le> (of_nat (k - j) :: rat)"
      by (simp add: field_simps del: of_nat_diff)
    then show ?thesis by (simp only: of_nat_le_iff)
  qed
  let ?s' = "if 2 * limit \<le> k - j then RS232_3_Send_buf b (plus_message_bytes (g_plus_message s3)) s3 else s3"
  have "report_phase b minutes hours s = Some ?s'"
    using 2(1) 3(1) by (simp add: report_phase_def 1(1) h five thr' cmp Let_def del: of_nat_diff)
  moreover have "log (world ?s') = (if 2 * limit \<le> k - j then [plus_message_bytes (g_plus_message ?s')] else []) @ log (world s)"
    "cells (world ?s') = cells (world s3)" "busy (world ?s') = 0" "g_plus_message ?s' = g_plus_message s3"
    using l3 3(5) by (simp_all add: RS232_3_Send_buf_def)
  ultimately show ?thesis using 2(2,4) 3(2-4)
    by (intro exI [of _ ?s'] exI [of _ l]) simp
qed

lemma picture_world:
  "log (world (picture_phase b saved s)) = log (world s)" "cells (world (picture_phase b saved s)) = cells (world s)"
  "busy (world (picture_phase b saved s)) = busy (world s)" "g_plus_message (picture_phase b saved s) = g_plus_message s"
  using pins.pin_keeps [of GPIOD 3 True "world s"]
  by (simp_all add: picture_phase_def Let_def OSTaskResume_def OSTaskSuspend_def OSQPost_def POE_ON_def log_pins)

text \<open>A turn of the reporting task at a new boundary: sample, report if it rained enough, and the picture.\<close>

lemma basic_turn_ok:
  assumes idle: "busy (world s) = 0" and md: "md_ok (s_monthday s)"
    and level: "code (world s) = gray_encode (of_nat n)" "n < 2 ^ 13"
    and clock: "\<And>w. fst (snd (RTC_ReadDate b (bm_real_time s) w)) = t" "\<And>w. fst (snd (RTC_ReadDate b (stack_time s) w)) = t"
    and date: "d = TimeDefTodate t" "valid_date d" "unat (d_minute d) mod 5 = 0" "d_minute d \<noteq> 0" "d_minute d \<noteq> bm_last_minutes s"
    and p: "p = stored_parameters (cells (world s))" and base: "waterlevel_basevalue_1 p = store4 (of_nat (bcd_of base))"
    and thr: "threshold_rainfall_value_of_plusemessage p = of_nat (bcd2 limit)" "limit < 100"
    and range: "10 * n + base < 2 ^ 21"
    and rain: "g_rainfall_pluse_count s = of_nat k" "k < 200000" "last_fiveminute_rainfall_data_count s = int j" "j \<le> k"
  shows "\<exists>s' l. basic_message_turn b saved s = Some s' \<and> (l = 10 * n + base \<or> l + 1 = 10 * n + base) \<and>
    log (world s') = (if 2 * limit \<le> k - j then [plus_message_bytes (g_plus_message s')] else []) @ log (world s) \<and>
    crc16 (plus_message_bytes (g_plus_message s')) = 0 \<and>
    five_min_precipit_data (m_content (g_plus_message s')) = store3 (of_nat (bcd_of (5 * (k - j)))) \<and>
    cells (world s') = mem_write (mem_write (cells (world s)) (slot_addr d 0) (store3 (of_nat (bcd_of (5 * k)))))
      (slot_addr d 1) (store4 (of_nat (bcd_of l))) \<and> busy (world s') = 0"
proof -
  obtain c w where r: "RTC_ReadDate b (bm_real_time s) (world s) = (c, t, w)"
    using clock(1) [of "world s"] by (cases "RTC_ReadDate b (bm_real_time s) (world s)") auto
  have w: "cells w = cells (world s)" "busy w = 0" "code w = code (world s)" "log w = log (world s)"
    using pins.RTC_ReadDate_keeps [of "bm_real_time s" "world s"] log_pins.RTC_ReadDate_keeps [of "bm_real_time s" "world s"] idle
    by (simp_all add: r)
  let ?s = "s\<lparr>world := w, bm_real_time := t\<rparr>" and ?h = "BCDTimeTodata (t_hour t)"
  have m: "BCDTimeTodata (t_minute t) = d_minute d" by (simp add: date(1) TimeDefTodate_def BCDTimeTodata_def BCDToInteger_def algebra_simps)
  have m5: "d_minute d mod 5 = 0" using date(3) by (simp add: word_unat_eq_iff unat_mod)
  have "busy (world ?s) = 0" "md_ok (s_monthday ?s)" "code (world ?s) = gray_encode (of_nat n)"
    "p = stored_parameters (cells (world ?s))" "g_rainfall_pluse_count ?s = of_nat k" "last_fiveminute_rainfall_data_count ?s = int j"
    "\<And>w. fst (snd (RTC_ReadDate b (stack_time ?s) w)) = t"
    using w md level(1) p rain(1,3) clock(2) by simp_all
  from report_phase_ok [OF this(1-3) level(2) this(7) date(1-3) this(4) base thr range this(5) rain(2) this(6) rain(4) date(4), of ?h]
  obtain s' l where s': "report_phase b (d_minute d) ?h ?s = Some s'" "l = 10 * n + base \<or> l + 1 = 10 * n + base"
    "log (world s') = (if 2 * limit \<le> k - j then [plus_message_bytes (g_plus_message s')] else []) @ log (world s)"
    "crc16 (plus_message_bytes (g_plus_message s')) = 0"
    "five_min_precipit_data (m_content (g_plus_message s')) = store3 (of_nat (bcd_of (5 * (k - j))))"
    "cells (world s') = mem_write (mem_write (cells (world s)) (slot_addr d 0) (store3 (of_nat (bcd_of (5 * k)))))
      (slot_addr d 1) (store4 (of_nat (bcd_of l)))" "busy (world s') = 0"
    using w by auto
  have "basic_message_turn b saved s = Some (picture_phase b saved s')"
    using s'(1) m5 date(5) by (simp add: basic_message_turn_def r m)
  then show ?thesis
    using s'(2-) by (intro exI [of _ "picture_phase b saved s'"] exI [of _ l]) (simp only: picture_world)
qed

end

end
