(* ===== verification/Bench.thy ===== *)
theory Bench
  imports Answers Bluetooth
begin

text \<open>
  A board put together from functions, to show that the laws the component theories ask of the
  hardware can be met together, and to run the firmware on concrete inputs: the flash chip of
  \<open>Flash\<close> on SPI1, the Gray-coded float gauge behind its two latches, an I2C bus whose data line
  is pulled up and where no chip answers, a modem that has a list of replies ready, a file
  that is read from its start, and the UART bridge of \<open>Wk2124\<close> on SPI2.
\<close>

record bench =
  flash :: w25q
  level :: u32
  oe1 :: bool
  oe2 :: bool
  sda :: bool
  replies :: "u8 list list"
  sent :: "u8 list list"
  rs232 :: "u8 list list"
  picture_file :: "u8 list option"
  bridge :: wk_chip

definition gauge_index :: "port \<Rightarrow> nat \<Rightarrow> nat option" where
  "gauge_index p k = List.find (\<lambda>i. gpio_port ! i = p \<and> gpio_pin ! i = k) [0..<8]"

definition bench_out :: "port \<Rightarrow> nat \<Rightarrow> bool \<Rightarrow> bench \<Rightarrow> bench" where
  "bench_out p k v w =
     (if p = GPIOC \<and> k = 4 then w\<lparr>oe1 := v\<rparr>
      else if p = GPIOC \<and> k = 5 then w\<lparr>oe2 := v\<rparr>
      else if p = GPIOB \<and> k = 7 then w\<lparr>sda := v\<rparr>
      else w)"

definition bench_in :: "port \<Rightarrow> nat \<Rightarrow> bench \<Rightarrow> bool" where
  "bench_in p k w =
     (if p = GPIOB \<and> k = 7 then sda w
      else case gauge_index p k of
          None \<Rightarrow> False
        | Some i \<Rightarrow> (if \<not> oe1 w then bit (level w) i else if \<not> oe2 w then i < 5 \<and> bit (level w) (8 + i) else False))"

definition bench_board :: "bench board" where
  "bench_board = \<lparr>
     spi1 = (\<lambda>w tx. let (c, rx) = w25q_spi (flash w) tx in (w\<lparr>flash := c\<rparr>, rx)),
     spi2 = (\<lambda>w tx. let (c, rx) = wk_spi (bridge w) tx in (w\<lparr>bridge := c\<rparr>, rx)),
     pin_out = bench_out, pin_in = bench_in, stray_in = (\<lambda>_. False),
     uart2_tx = (\<lambda>bs w. w\<lparr>sent := bs # sent w\<rparr>),
     uart2_rx = (\<lambda>w. case replies w of [] \<Rightarrow> (None, w) | r # rs \<Rightarrow> (Some r, w\<lparr>replies := rs\<rparr>)),
     rs232_tx = (\<lambda>bs w. w\<lparr>rs232 := bs # rs232 w\<rparr>),
     f_open = (\<lambda>w. map_option length (picture_file w)),
     f_read = (\<lambda>n w. case picture_file w of None \<Rightarrow> (None, w)
                | Some bs \<Rightarrow> (Some (take n bs), w\<lparr>picture_file := Some (drop n bs)\<rparr>)),
     ethernet = no_nic, unique_id = 0\<rparr>"

definition new_bench :: bench where
  "new_bench = \<lparr>flash = \<lparr>w_cells = (\<lambda>_. 0xFF), w_busy = 0, w_wel = False\<rparr>, level = 0, oe1 = True, oe2 = True,
     sda = True, replies = [], sent = [], rs232 = [], picture_file = None,
     bridge = \<lparr>wk_sent = (\<lambda>_. []), wk_rx = (\<lambda>_. [])\<rparr>\<rparr>"

lemma bench_sel [simp]:
  "pin_out bench_board = bench_out" "pin_in bench_board = bench_in" "stray_in bench_board w = False"
  by (simp_all add: bench_board_def)

lemma bench_spi: "spi1 bench_board w tx = (w\<lparr>flash := fst (w25q_spi (flash w) tx)\<rparr>, snd (w25q_spi (flash w) tx))"
  by (simp add: bench_board_def split_beta Let_def)

interpretation bench: flash_board bench_board "w_cells \<circ> flash" "w_busy \<circ> flash" "w_wel \<circ> flash"
  by unfold_locales (auto simp: bench_spi w25q_start_def Let_def split: if_splits)

lemma gauge_pins:
  "i < 8 \<Longrightarrow> gauge_index (gpio_port ! i) (gpio_pin ! i) = Some i \<and> \<not> (gpio_port ! i = GPIOB \<and> gpio_pin ! i = 7)"
proof -
  have "list_all (\<lambda>i. gauge_index (gpio_port ! i) (gpio_pin ! i) = Some i \<and>
      \<not> (gpio_port ! i = GPIOB \<and> gpio_pin ! i = 7)) [0..<8]" by code_simp
  then show "i < 8 \<Longrightarrow> ?thesis" by (simp add: list_all_iff)
qed

interpretation bench_gauge: gray_sensor bench_board level
  by unfold_locales (use gauge_pins in \<open>auto simp: bench_out_def bench_in_def\<close>)

lemma bench_pins_keep: "flash (bench_out p k v w) = flash w" "level (bench_out p k v w) = level w"
  by (simp_all add: bench_out_def)

interpretation bench_flash: pin_frame bench_board flash
  by unfold_locales (simp add: bench_pins_keep)

interpretation bench_level: spi_frame "spi1 bench_board" level
  by unfold_locales (simp add: bench_spi)

interpretation bench_station: station bench_board "w_cells \<circ> flash" "w_busy \<circ> flash" "w_wel \<circ> flash" level
  by unfold_locales (simp_all add: bench_pins_keep bench_spi)

interpretation bench_console: console bench_board "w_cells \<circ> flash" "w_busy \<circ> flash" "w_wel \<circ> flash" level rs232
  by unfold_locales (simp_all add: bench_board_def bench_out_def split_beta Let_def)

lemma bench_spi2: "spi2 bench_board w tx = (w\<lparr>bridge := fst (wk_spi (bridge w) tx)\<rparr>, snd (wk_spi (bridge w) tx))"
  by (simp add: bench_board_def split_beta Let_def)

lemma bench_bridge:
  "spi2 bench_board w tx = (w', rx) \<Longrightarrow> wk_spi (bridge w) tx = (bridge w', rx) \<and> flash w' = flash w"
  by (auto simp: bench_spi2)

interpretation bench_phone: phone bench_board "w_cells \<circ> flash" "w_busy \<circ> flash" "w_wel \<circ> flash" level
  "wk_sent \<circ> bridge" "\<lambda>_ _. 0" "wk_rx \<circ> bridge"
proof (unfold_locales, goal_cases)
  case (1 p c x c' rx) then show ?case using wk.fsr_law [of p "bridge c" x "bridge c'" rx] by (simp add: bench_bridge quiet_def)
next
  case (2 p c x c' rx) then show ?case using wk.tfcnt_law [of p "bridge c" x "bridge c'" rx] by (simp add: bench_bridge quiet_def)
next
  case (3 p c x c' rx) then show ?case using wk.rfcnt_law [of p "bridge c" x "bridge c'" rx] by (simp add: bench_bridge quiet_def)
next
  case (4 p c data c' rx) then show ?case using wk.write_law [where p = p and c = "bridge c" and data = data and c' = "bridge c'" and rx = rx] by (simp add: bench_bridge)
next
  case (5 p n c x c' rx) then show ?case using wk.read_law [of p n "bridge c" x "bridge c'" rx] by (simp add: bench_bridge)
qed (simp_all add: bench_spi bench_spi2)

text \<open>For this bridge the law would rewrite a constant function to itself.\<close>

declare bench_phone.flash_keeps_bridge(2) [simp del]

text \<open>Nothing acknowledges on the bench's I2C bus, so the time asked for is the time passed in.\<close>

lemma bench_line: "SDA_read bench_board (SCL_H bench_board (SDA_H bench_board w))"
  by (simp add: SDA_read_def SCL_H_def SDA_H_def bench_out_def bench_in_def)

lemma bench_no_ack: "\<not> fst (I2CWaitAck bench_board w)"
  using bench_line [of "SCL_L bench_board w"] by (simp add: I2CWaitAck_def Let_def)

lemma bench_RTC_ReadDate: "fst (snd (RTC_ReadDate bench_board t w)) = t"
  by (simp add: RTC_ReadDate_def bench_no_ack bench_line I2CStart_def split_beta Let_def)

section \<open>A station switched on\<close>

text \<open>Flash full of zeros, the gauge at a level, the variables as the start-up code clears them.\<close>

definition zero_time :: Time_Def where
  "zero_time = \<lparr>t_second = 0, t_minute = 0, t_hour = 0, t_week = 0, t_day = 1, t_month = 1, t_year = 0\<rparr>"

definition zero_header :: message_header_t where
  "zero_header = \<lparr>h_start_id = 0, h_center_addr = 0, h_remote_addr = [0, 0, 0, 0, 0], h_password = 0, h_fun_id = 0,
     h_frame_id_len = 0, h_content_start_id = 0\<rparr>"

definition zero_observ :: observ_time_t where
  "zero_observ = \<lparr>o_id = 0, o_year = 0, o_month = 0, o_day = 0, o_hour = 0, o_minute = 0\<rparr>"

definition zero_plus :: plus_message_t where
  "zero_plus = \<lparr>m_header = zero_header, m_content = \<lparr>c_sn = 0, c_pkt_time = pkt_time_at zero_time, c_remote_addr_id = 0,
     c_remote_addr = [0, 0, 0, 0, 0], c_class_id = 0, c_observ_time = zero_observ, five_min_precipit_id = 0,
     five_min_precipit_data = [0, 0, 0], water_level_id = 0, water_level_data = [0, 0, 0, 0], cumula_precipit_id = 0,
     cumula_precipit_data = [0, 0, 0], voltage_id = 0, voltage_data = [0, 0]\<rparr>, m_content_end_id = 0, m_crc = 0\<rparr>"

definition zero_hour :: hour_message_t where
  "zero_hour = \<lparr>m_header = zero_header, m_content = \<lparr>c_sn = 0, c_pkt_time = pkt_time_at zero_time, c_remote_addr_id = 0,
     c_remote_addr = [0, 0, 0, 0, 0], c_class_id = 0, c_observ_time = zero_observ, hour_five_precipit_id = 0,
     hour_five_prcipit_data = replicate 12 0, hm_cumula_precipit_id = 0, hm_cumula_precipit_data = [0, 0, 0],
     hour_five_waterlevel_id = 0, hour_five_waterlevel_data = replicate 12 0, hm_water_level_id = 0,
     hm_water_level_data = [0, 0, 0, 0], hm_voltage_id = 0, hm_voltage_data = [0, 0]\<rparr>, m_content_end_id = 0, m_crc = 0\<rparr>"

definition zero_realdata :: queryrealdata_upmessage_t where
  "zero_realdata = \<lparr>m_header = zero_header, m_content = \<lparr>c_sn = 0, c_pkt_time = pkt_time_at zero_time, c_remote_addr_id = 0,
     c_remote_addr = [0, 0, 0, 0, 0], c_class_id = 0, c_observ_time = zero_observ, precipit_id = 0, precipit_data = [0, 0, 0],
     rd_cumula_precipit_id = 0, rd_cumula_precipit_data = [0, 0, 0], rd_water_level_id = 0, rd_water_level_data = [0, 0, 0, 0],
     rd_voltage_id = 0, rd_voltage_data = [0, 0]\<rparr>, m_content_end_id = 0, m_crc = 0\<rparr>"

definition zero_frame :: up_frame_t where
  "zero_frame = \<lparr>u_start_id = 0, u_center_addr = 0, u_remote_addr = [0, 0, 0, 0, 0], u_password = 0, u_fun_id = 0, u_frame_id_len = 0,
     u_content_start_id = 0, total_pkts_and_cur_sn = [0, 0, 0], picture = replicate 925 0, u_content_end_id = 0, u_crc = 0\<rparr>"

definition bench_at :: "u32 \<Rightarrow> bench" where
  "bench_at l = new_bench\<lparr>flash := \<lparr>w_cells = (\<lambda>_. 0), w_busy = 0, w_wel = False\<rparr>, level := l\<rparr>"

definition powered :: "bench \<Rightarrow> bench proto" where
  "powered w = \<lparr>world = w, g_rainfall_pluse_count = 0, s_monthday = init_monthday, g_rtu_parameters = zero_parameters,
     DMA_usart2_Buf = replicate 200 0, g_usart2_receive_cnt = 0, g_usart2_receive_stat = False, s_gprs_init_flag = False,
     s_gprs_net_flag = False, s_gprs_connect_flag = False, s_error_cnt = 0, s_error_flag = 0, send_atcipsend_erro_count = 0,
     g_gprs_receive_data_buff = replicate 200 0, g_gprs_receive_data_length = 0, g_single_retransmit_count = 0,
     frame = zero_frame, pic_size = 0, cur_sn = 1, s_sysTime = zero_time, sn = 1, g_plus_message = zero_plus,
     g_hour_message = zero_hour, g_queryrealdata_upmessage = zero_realdata, last_rainfall_pluse_count = 0,
     last_fiveminute_rainfall_data_count = 0, last_month = 0, RS232_3_Recv = replicate 256 0, RS232_3_Recv_Address = 0,
     stack_time = zero_time, stack_minute = 0, stack_parameters = zero_parameters\<rparr>"

lemma bench_at_sel [simp]:
  "w_cells (flash (bench_at l)) = (\<lambda>_. 0)" "w_busy (flash (bench_at l)) = 0" "level (bench_at l) = l" "rs232 (bench_at l) = []"
  by (simp_all add: bench_at_def new_bench_def)

lemma powered_sel [simp]:
  "world (powered w) = w" "g_rainfall_pluse_count (powered w) = 0" "s_monthday (powered w) = init_monthday" "sn (powered w) = 1"
  "last_rainfall_pluse_count (powered w) = 0" "last_fiveminute_rainfall_data_count (powered w) = 0"
  "stack_time (powered w) = zero_time" "stack_parameters (powered w) = zero_parameters"
  by (simp_all add: powered_def)

lemma init_monthday_ok [simp]: "md_ok init_monthday"
  by (simp add: md_ok_def init_monthday_def)

lemma zero_base: "waterlevel_basevalue_1 (stored_parameters (\<lambda>_. 0)) = store4 (of_nat (bcd_of 0))"
  by (simp add: stored_parameters_def mem_read_def) code_simp

end
