(* ===== verification/Modes.thy ===== *)
theory Modes
  imports Cycle Bench
begin

text \<open>
  Two ways the station as a whole behaves: response mode, from which the reporting task never comes back, and
  the alarm that wakes a stopped board. At the end, a station of tasks just switched on.
\<close>

section \<open>Response mode\<close>

text \<open>
  With the reporting task suspended, no message and no picture under way, and the processor running, no
  task posts a message and no task resumes the reporting task.
\<close>

definition idle_for_good :: "('w, 'z) tasks_scheme \<Rightarrow> bool" where
  "idle_for_good s \<longleftrightarrow> BASIC_MESSAGE_TASK_PRIO \<in> suspended s \<and> Message_Q s = [] \<and> g_stop_mode_flag s \<noteq> 1 \<and> gprs_task_en s = 0"

lemma idle_control: "idle_for_good s \<longleftrightarrow> (case control s of (susp, q, f) \<Rightarrow> BASIC_MESSAGE_TASK_PRIO \<in> susp \<and> q = [] \<and> f \<noteq> 1) \<and> gprs_task_en s = 0"
  by (simp add: idle_for_good_def control_def)

lemma idle_rest: "rest s' = rest s \<Longrightarrow> idle_for_good s' \<longleftrightarrow> idle_for_good s"
  using rest_fields [of s' s] by (simp add: idle_for_good_def)

lemma idle_mode: "\<lbrakk>BASIC_MESSAGE_TASK_PRIO \<in> suspended s; Message_Q s = []; g_stop_mode_flag s \<noteq> 1\<rbrakk> \<Longrightarrow>
    case control (mode_change f s) of (susp, q, fl) \<Rightarrow> BASIC_MESSAGE_TASK_PRIO \<in> susp \<and> q = [] \<and> fl \<noteq> 1"
  by (simp add: mode_change_def control_def OSTaskSuspend_def OSTaskResume_def)

lemma receive_idle:
  fixes s :: "('w, 'z) tasks_scheme"
  assumes "receive_command_turn b s = Some s'" and i: "idle_for_good s"
  shows "idle_for_good s'"
proof -
  have "case control (mode_change f s1) of (susp, q, fl) \<Rightarrow> BASIC_MESSAGE_TASK_PRIO \<in> susp \<and> q = [] \<and> fl \<noteq> 1"
    if "control s1 = control s" for f and s1 :: "('w, 'z) tasks_scheme"
    by (rule idle_mode) (use i that in \<open>simp_all add: control_def idle_for_good_def\<close>)
  then show ?thesis
    using receive_control [OF assms(1)] i unfolding idle_control by (elim conjE disjE exE) simp_all
qed

lemma step_idle:
  assumes "system_step b s s'" and "idle_for_good s"
  shows "idle_for_good s'"
  using assms
proof (cases rule: system_step.cases)
  case receive
  show ?thesis by (rule receive_idle [OF receive(2) assms(2)])
next
  case phone
  then obtain buff s1 where 1: "bluetooth_turn b (bt_buff s) s = Some (buff, s1)" "s' = s1\<lparr>bt_buff := buff\<rparr>"
    by (auto simp: bluetooth_task_turn_def bind_eq_Some_conv)
  then show ?thesis using idle_rest [OF bluetooth_turn_rest [OF 1(1)]] assms(2) by (simp add: idle_for_good_def)
next
  case alarm
  then obtain x where "s' = s\<lparr>world := x\<rparr>"
    using assms(2) by (auto simp: EXTI0_IRQHandler_def idle_for_good_def bind_eq_Some_conv)
  then show ?thesis using assms(2) by (simp add: idle_for_good_def)
next
  case (modem burst)
  then show ?thesis using assms(2) idle_rest [OF IRQ_rest [of burst s]] by simp
next
  case (serial bus p p')
  then show ?thesis using assms(2) idle_rest [OF serial_rest [OF serial]] by simp
qed (use assms(2) in \<open>auto simp: idle_for_good_def stopmode_turn_def EXTI1_IRQHandler_def\<close>)

lemma run_idle: "\<lbrakk>system_run b s s'; idle_for_good s\<rbrakk> \<Longrightarrow> idle_for_good s'"
  by (induction rule: system_run.induct) (auto intro: step_idle)

section \<open>Waking\<close>

lemma read_one: "I2CReadSerial b a r 1 [0] w \<noteq> None"
  by (auto simp: I2CReadSerial_def Let_def blit_def split_beta)

text \<open>
  The alarm of a stopped board is handled, and the turn of the stop task after it ends and resumes the tasks, provided
  the Ethernet chip ends its resets: the driver waits for that without limit.
\<close>

lemma alarm_wakes:
  assumes "g_stop_mode_flag s = 1" and "Message_Q s = []" and "\<And>w. reset_wait (ethernet b) w \<noteq> None"
  shows "\<exists>s1 s2. EXTI0_IRQHandler b s = Some s1 \<and> stopmode_turn b s1 = Some s2 \<and> suspended s2 = suspended s - set woken_tasks \<and>
    Message_Q s2 = [] \<and> g_stop_mode_flag s2 = 0"
proof -
  obtain y where y: "I2CReadSerial b RTC_Address 0x10 1 [0] (world s) = Some y"
    using read_one [of b RTC_Address "0x10" "world s"] by blast
  define s1 where "s1 = (OSQPost WAKE_UP_MODE (s\<lparr>g_stop_mode_flag := 0\<rparr>))\<lparr>world := snd (snd y)\<rparr>"
  have 1: "EXTI0_IRQHandler b s = Some s1"
    using assms y by (simp add: EXTI0_IRQHandler_def s1_def split_beta OSQPost_def N_MESSAGE_def)
  have c: "control s1 = (suspended s, [WAKE_UP_MODE], 0)"
    using assms by (simp add: s1_def OSQPost_def N_MESSAGE_def control_def)
  obtain x where "DM9000_start b (ethernet b) (init_config (unique_id b)) (PWCTRL_GPIO_Init b (world s1)) = Some x"
    using DM9000_start_returns [OF assms(3), of b "unique_id b"] by blast
  moreover have "Message_Q s1 = [WAKE_UP_MODE]" using c by (simp add: control_def)
  ultimately have "\<exists>s2. stopmode_turn b s1 = Some s2"
    by (cases "g_respose_flag s1 = 1") (simp_all add: stopmode_turn_def split_beta Let_def)
  then obtain s2 where 2: "stopmode_turn b s1 = Some s2" by blast
  then have "control s2 = (suspended s - set woken_tasks, [], 0)" using stop_control [OF 2] c by (simp add: control_def)
  then show ?thesis using 1 2 by (auto simp: control_def)
qed

section \<open>A station with its tasks\<close>

definition tasks_of :: "bench proto \<Rightarrow> bench tasks" where
  "tasks_of s = proto.extend s \<lparr>suspended = {}, Message_Q = [], gprs_task_en = 0, g_respose_flag = 0, g_stop_mode_flag = 0,
     bm_real_time = zero_time, bm_last_minutes = 0xFF, bm_last_hours = 0xFF, bm_ftp_time_interval = 5, bt_buff = replicate 50 0\<rparr>"

lemma tasks_of_sel [simp]:
  "suspended (tasks_of s) = {}" "Message_Q (tasks_of s) = []" "gprs_task_en (tasks_of s) = 0" "g_stop_mode_flag (tasks_of s) = 0"
  "bm_real_time (tasks_of s) = zero_time" "bm_last_minutes (tasks_of s) = 0xFF" "world (tasks_of s) = world s"
  "g_rainfall_pluse_count (tasks_of s) = g_rainfall_pluse_count s" "s_monthday (tasks_of s) = s_monthday s"
  "stack_time (tasks_of s) = stack_time s" "RS232_3_Recv (tasks_of s) = RS232_3_Recv s" "RS232_3_Recv_Address (tasks_of s) = RS232_3_Recv_Address s"
  "last_fiveminute_rainfall_data_count (tasks_of s) = last_fiveminute_rainfall_data_count s"
  by (simp_all add: tasks_of_def proto.defs)

end
