(* ===== verification/Modem.thy ===== *)
theory Modem
  imports Answers
begin

text \<open>
  Lemmas on what travels over the modem: the frames of a picture and their numbering, the check of
  the server's answer, printing and reading of lengths, and the parser of a received block, which
  is right for data without carriage return and line feed and overwrites the first of them.
\<close>

section \<open>Picture frames\<close>

lemma wp_bytes_ok:
  assumes "up_frame_wf f" and "l \<le> 928"
  shows "\<exists>body. body = up_header_bytes f @ take l (up_content_bytes f) @ [u_content_end_id f] \<and> length body = l + 15 \<and>
    wp_bytes f l = Some (body @ rev (le16 (crc16 body)), crc16 body)"
proof -
  define body where "body = up_header_bytes f @ take l (up_content_bytes f) @ [u_content_end_id f]"
  have len: "length (up_content_bytes f) = 928" "length body = l + 15"
    using assms by (simp_all add: up_frame_wf_def up_content_bytes_def up_header_bytes_def body_def)
  have c: "(ucast (drop_bit 8 (c AND 0xff00)) :: u8) = ucast (drop_bit 8 c)" "(ucast (c AND 0xff) :: u8) = ucast c" for c :: u16
    by (rule bit_word_eqI; auto simp: bit_simps numeral_eq_Suc less_Suc_eq)+
  have s: "slice (up_content_bytes f) 0 l = Some (take l (up_content_bytes f))" using assms(2) len(1) by simp
  have b: "up_header_bytes f @ take l (up_content_bytes f) @ [u_content_end_id f] = body" by (simp add: body_def)
  have "wp_bytes f l = Some (body @ rev (le16 (crc16 body)), crc16 body)"
    using len assms(2) unfolding wp_bytes_def s bind.bind_lunit Let_def b
    by (simp add: CRC16_MODBUS_eq c le16_def MAX_CONTENT_LEN_def)
  then show ?thesis using len(2) body_def by blast
qed

text \<open>The answer is accepted exactly when its last two bytes are the checksum, high byte first.\<close>

lemma check_frame_iff:
  assumes "length bs = 26"
  shows "check_frame (pre @ bs @ [h, l] @ rest) (length pre) = Some ([h, l] = rev (le16 (crc16 bs)))"
proof -
  have "slice (pre @ bs @ [h, l] @ rest) (length pre) 28 = Some (bs @ [h, l])" using assms by simp
  moreover have "of_le16 h l = swap16 c \<longleftrightarrow> [h, l] = rev (le16 c)" for c
  proof -
    have "of_le16 h l = swap16 c \<longleftrightarrow> le16 (of_le16 h l) = le16 (swap16 c)"
      by (metis of_le16_le16 le16_def list.inject)
    then show ?thesis by (simp add: le16_swap16)
  qed
  ultimately show ?thesis using assms by (simp add: check_frame_def CRC16_MODBUS_eq nth_append)
qed

text \<open>The three bytes hold the number of packets and the current number, twelve bits each.\<close>

definition pkts_of :: "u8 list \<Rightarrow> nat \<times> nat" where
  "pkts_of p = (unat (p ! 0) * 16 + unat (p ! 1) div 16, unat (p ! 1) mod 16 * 256 + unat (p ! 2))"

lemma u8_nibbles: "unat w div 16 = unat (drop_bit 4 w)" "unat w mod 16 = unat (take_bit 4 w)" for w :: u8
  by (simp_all only: unat_drop_bit_eq unsigned_take_bit_eq) (simp_all add: drop_bit_eq_div take_bit_eq_mod)

lemma nibble_masks: "(0x0f :: 'a::len word) = mask 4" "(0xf0 :: u8) = push_bit 4 (mask 4)" "(0x00f0 :: u16) = push_bit 4 (mask 4)"
  by (simp_all add: mask_eq_exp_minus_1 push_bit_eq_mult)

lemma first_nibbles:
  fixes t :: u16
  shows "drop_bit 4 (ucast (push_bit 4 t AND 0x00f0) :: u8) = ucast (take_bit 4 t)"
    and "take_bit 4 (ucast (push_bit 4 t AND 0x00f0) :: u8) = 0"
  unfolding nibble_masks by (rule bit_word_eqI; auto simp: bit_simps dest: bit_imp_le_length)+

lemma numbered_nibbles:
  fixes x :: u8 and i :: u32
  shows "drop_bit 4 ((x AND 0xf0) OR ucast (drop_bit 8 i AND 0x0f)) = drop_bit 4 x"
    and "take_bit 4 ((x AND 0xf0) OR ucast (drop_bit 8 i AND 0x0f)) = ucast (take_bit 4 (drop_bit 8 i))"
  unfolding nibble_masks by (rule bit_word_eqI; auto simp: bit_simps dest: bit_imp_le_length)+

lemma pkts_of_first:
  assumes "t < 4096"
  shows "pkts_of (first_pkts_sn (of_nat t)) = (t, 1)"
proof -
  let ?t = "of_nat t :: u16"
  have u: "unat ?t = t" using assms by simp
  have "unat (drop_bit 4 ?t) = t div 16"
    using u by (simp only: unat_drop_bit_eq) (simp add: drop_bit_eq_div)
  moreover have "unat (take_bit 4 ?t) = t mod 16"
    using u by (simp only: unsigned_take_bit_eq) (simp add: take_bit_eq_mod)
  moreover have "t div 16 < 256" "t mod 16 < 256" using assms by simp_all
  ultimately show ?thesis by (simp only: pkts_of_def first_pkts_sn_def u8_nibbles first_nibbles nth_Cons_0 nth_Cons_Suc One_nat_def numeral_2_eq_2)
      (simp add: unat_ucast_small)
qed

lemma pkts_of_numbered:
  assumes "i < 4096" and "length p = 3"
  shows "pkts_of (numbered_pkts_sn i p) = (fst (pkts_of p), i)"
proof -
  let ?i = "of_nat i :: u32"
  have u: "unat ?i = i" using assms by simp
  have "unat (drop_bit 8 ?i) = i div 256" using u by (simp only: unat_drop_bit_eq) (simp add: drop_bit_eq_div)
  then have "unat (take_bit 4 (drop_bit 8 ?i)) = i div 256" using assms(1) by (simp only: unsigned_take_bit_eq) (simp add: take_bit_eq_mod)
  then have "unat (ucast (take_bit 4 (drop_bit 8 ?i)) :: u8) = i div 256" using assms(1) by (simp add: unat_ucast_small)
  then show ?thesis
    by (simp only: pkts_of_def numbered_pkts_sn_def u8_nibbles numbered_nibbles nth_Cons_0 nth_Cons_Suc One_nat_def numeral_2_eq_2)
      (simp add: unat_of_nat)
qed

section \<open>Decimal numbers\<close>

lemma decimal_digits: "x \<in> set (decimal n) \<Longrightarrow> 0x30 \<le> x \<and> x \<le> 0x39"
proof (induction n rule: decimal.induct)
  case (1 n)
  have d: "0x30 \<le> (0x30 + of_nat k :: u8) \<and> (0x30 + of_nat k :: u8) \<le> 0x39" if "k < 10" for k
  proof -
    have "k \<in> {0, 1, 2, 3, 4, 5, 6, 7, 8, 9}" using that by auto
    then show ?thesis by auto
  qed
  have "x \<in> set (if n < 10 then [0x30 + of_nat n] else decimal (n div 10) @ [0x30 + of_nat (n mod 10)])"
    using 1(2) by (simp only: decimal.simps [of n])
  then show ?case using 1(1) d [of n] d [of "n mod 10"] by (auto split: if_splits)
qed

lemma decimal_value: "fold (\<lambda>d n. n * 10 + unat (d - 0x30)) (decimal n) 0 = n"
proof (induction n rule: decimal.induct)
  case (1 n)
  have u: "unat (0x30 + of_nat k - 0x30 :: u8) = k" if "k < 10" for k
    using that by (simp add: add.commute)
  show ?case using 1 u [of n] u [of "n mod 10"] by (subst decimal.simps) simp
qed

lemma decimal_length: "n < 10 ^ k \<Longrightarrow> 0 < k \<Longrightarrow> length (decimal n) \<le> k"
proof (induction n arbitrary: k rule: decimal.induct)
  case (1 n)
  show ?case
  proof (cases "n < 10")
    case False
    obtain j where k: "k = Suc j" using 1(3) by (cases k) auto
    then have j: "k = Suc j" "0 < j" using 1(2) False by (cases j, auto)+
    then have "n div 10 < 10 ^ j" using 1(2) by (simp add: less_mult_imp_div_less mult.commute)
    then have "length (decimal (n div 10)) \<le> j" using 1(1) False j by blast
    then show ?thesis using False j by (subst decimal.simps) simp
  qed (use 1(3) in \<open>subst decimal.simps, simp\<close>)
qed

lemma decimal_nonempty: "decimal n \<noteq> []"
  by (subst decimal.simps) simp

text \<open>A length of at most four digits after a prefix without digits is read back.\<close>

lemma GetIntData_decimal:
  assumes "\<forall>x \<in> set pre. x \<noteq> 0 \<and> \<not> (0x30 \<le> x \<and> x \<le> 0x39)" and "n < 10000"
  shows "GetIntData_FromString (pre @ decimal n @ 0 # rest) = Some n"
proof -
  have nz: "\<forall>x \<in> set (decimal n). x \<noteq> 0" using decimal_digits by fastforce
  have "takeWhile (\<lambda>x. x \<noteq> 0) (pre @ decimal n @ 0 # rest) = pre @ decimal n"
    using assms(1) nz by (simp add: takeWhile_append)
  moreover have "filter (\<lambda>x. 0x30 \<le> x \<and> x \<le> 0x39) (pre @ decimal n) = decimal n"
    using assms(1) decimal_digits [of _ n] by (simp add: filter_empty_conv filter_id_conv)
  moreover have "length (decimal n) < 5" using decimal_length [of n 4] assms(2) by simp
  ultimately show ?thesis by (simp add: GetIntData_FromString_def c_str_def decimal_value Let_def)
qed

section \<open>Tokens\<close>

lemma strtok_token:
  assumes "\<forall>x \<in> set skip. x \<in> set delims" and "tok \<noteq> []" and "\<forall>x \<in> set tok. x \<noteq> 0 \<and> x \<notin> set delims"
    and "d \<in> set delims" and "d \<noteq> 0"
  shows "strtok delims (pre @ skip @ tok @ d # rest) (length pre) =
    Some (Some (length pre + length skip), pre @ skip @ tok @ 0 # rest, length pre + length skip + length tok + 1)"
proof -
  obtain t ts where t: "tok = t # ts" using assms(2) by (cases tok) auto
  have tw: "takeWhile (\<lambda>x. x \<in> set delims) (skip @ tok @ d # rest) = skip"
    using assms(1,3) by (simp add: takeWhile_append t)
  have tw2: "takeWhile (\<lambda>x. x \<noteq> 0 \<and> x \<notin> set delims) (tok @ d # rest) = tok"
    using assms(3,4) by (simp add: takeWhile_append)
  have first: "rd (pre @ skip @ tok @ d # rest) (length pre + length skip) = Some t"
    by (simp add: t nth_append)
  have drop: "drop (length pre + length skip) (pre @ skip @ tok @ d # rest) = tok @ d # rest" by simp
  have last: "rd (pre @ skip @ tok @ d # rest) (length pre + length skip + length tok) = Some d"
    by (simp add: nth_append)
  have upd: "(pre @ skip @ tok @ d # rest)[length pre + length skip + length tok := 0] = pre @ skip @ tok @ 0 # rest"
    by (simp add: list_update_append)
  have "t \<noteq> 0" using assms(3) t by simp
  then show ?thesis
    using assms(5) by (simp only: strtok_def append_eq_conv_conj drop_append [of "length pre" pre] diff_self_eq_0 drop_0 drop_all
        order_refl append_Nil tw first bind.bind_lunit drop tw2 last upd if_False Let_def)
qed

section \<open>A received block\<close>

text \<open>
  What the modem delivers: the peer's address and port, the number of bytes, and the bytes.
\<close>

definition received_block :: "u8 list \<Rightarrow> u8 list \<Rightarrow> u8 list \<Rightarrow> u8 list \<Rightarrow> u8 list" where
  "received_block ip port payload rest =
     bytes ''RECV FROM'' @ [0x3A] @ ip @ [0x3A] @ port @ crlf @ bytes ''+IPD'' @ decimal (length payload) @ crlf @ payload @ rest"

definition field_ok :: "u8 list \<Rightarrow> bool" where
  "field_ok f \<longleftrightarrow> f \<noteq> [] \<and> (\<forall>x \<in> set f. x \<notin> {0, 0x3A, 0x0D, 0x0A})"

text \<open>The token: the bytes before the first NUL, carriage return or line feed; what follows it is overwritten.\<close>

definition stops :: "u8 \<Rightarrow> bool" where
  "stops x \<longleftrightarrow> x \<in> {0, 0x0D, 0x0A}"

definition cut_off :: "u8 list \<Rightarrow> u8 list" where
  "cut_off xs = xs[length (takeWhile (\<lambda>x. \<not> stops x) xs) := 0]"

lemma cut_id: "\<forall>x \<in> set xs. \<not> stops x \<Longrightarrow> cut_off xs = xs"
  by (simp add: cut_off_def takeWhile_eq_all_conv [THEN iffD2] list_update_beyond)

lemma cut_nth: "i < length xs \<Longrightarrow> stops (xs ! i) \<Longrightarrow> \<forall>j < i. \<not> stops (xs ! j) \<Longrightarrow> cut_off xs = xs[i := 0]"
proof -
  assume i: "i < length xs" "stops (xs ! i)" "\<forall>j < i. \<not> stops (xs ! j)"
  then have "length (takeWhile (\<lambda>x. \<not> stops x) xs) = i"
    using takeWhile_eq_take_P_nth [of i xs "\<lambda>x. \<not> stops x"] by simp
  then show ?thesis by (simp add: cut_off_def)
qed

lemma cut_first: "\<forall>x \<in> set w. \<not> stops x \<Longrightarrow> stops d \<Longrightarrow> cut_off (w @ d # ds) = w @ 0 # ds"
  by (simp add: cut_off_def takeWhile_append)

lemma strtok_payload:
  assumes "\<not> stops p" and "x \<in> set qs" "stops x"
  shows "\<exists>j. strtok crlf (pre @ 0x0A # p # qs) (length pre) =
      Some (Some (length pre + 1), pre @ 0x0A # cut_off (p # qs), j)"
proof -
  obtain w d ds where e: "p # qs = w @ d # ds" and d: "stops d" and w: "\<forall>x \<in> set w. \<not> stops x"
    using split_list_first_prop [of "p # qs" stops] assms(2,3) by auto
  have ne: "w \<noteq> []" using e d assms(1) by (cases w) auto
  have w0: "\<forall>x \<in> set w. x \<noteq> 0 \<and> x \<notin> set crlf" using w by (auto simp: stops_def crlf_def)
  show ?thesis
  proof (cases "d = 0")
    case False
    then have dd: "d \<in> set crlf" using d by (auto simp: stops_def crlf_def)
    have skip: "\<forall>x \<in> set [0x0A]. x \<in> set crlf" by (simp add: crlf_def)
    show ?thesis
      unfolding e using strtok_token [OF skip ne w0 dd False, of pre ds] by (simp add: cut_first [OF w d])
  next
    case True
    obtain t ts where t: "w = t # ts" using ne by (cases w) auto
    have "t \<noteq> 0" "t \<notin> set crlf" using w0 t by simp_all
    then have tw: "takeWhile (\<lambda>x. x \<in> set crlf) (0x0A # w @ 0 # ds) = [0x0A]" by (simp add: t crlf_def)
    have tw2: "takeWhile (\<lambda>x. x \<noteq> 0 \<and> x \<notin> set crlf) (w @ 0 # ds) = w" using w0 by (simp add: takeWhile_append)
    have at: "(pre @ 0x0A # w @ 0 # ds) ! (length pre + 1) = t" "(pre @ 0x0A # w @ 0 # ds) ! (length pre + 1 + length w) = 0"
      by (simp_all add: t nth_append)
    have "strtok crlf (pre @ 0x0A # w @ 0 # ds) (length pre) =
        Some (Some (length pre + 1), pre @ 0x0A # w @ 0 # ds, length pre + 1 + length w)"
      using \<open>t \<noteq> 0\<close> at tw tw2 by (simp add: strtok_def Let_def)
    then show ?thesis unfolding e using cut_first [OF w d, of ds] True by simp
  qed
qed

lemma take_cut: "take (length xs) (cut_off (xs @ ys)) = cut_off xs"
proof (cases "\<exists>x \<in> set xs. stops x")
  case True
  then obtain w d ds where "xs = w @ d # ds" "stops d" "\<forall>x \<in> set w. \<not> stops x"
    using split_list_first_prop [of xs stops] by auto
  then show ?thesis using cut_first [of w d ds] cut_first [of w d "ds @ ys"] by simp
next
  case False
  then have "length xs \<le> length (takeWhile (\<lambda>x. \<not> stops x) (xs @ ys))" by (simp add: takeWhile_append)
  then have "take (length xs) (cut_off (xs @ ys)) = xs" by (simp add: cut_off_def take_update_swap list_update_beyond)
  then show ?thesis using False by (simp add: cut_id)
qed

lemma blit_front: "length src \<le> length dst \<Longrightarrow> blit dst 0 src = Some (src @ drop (length src) dst)"
  by (simp add: blit_def)

lemma c_str_token: "\<forall>x \<in> set f. x \<noteq> 0 \<Longrightarrow> c_str (f @ 0 # rest) = f"
  by (simp add: c_str_def takeWhile_append)

lemma drop_prefix: "n = length xs \<Longrightarrow> drop n (xs @ ys) = ys"
  by simp

lemma slice_prefix: "i = length pre \<Longrightarrow> n \<le> length ys \<Longrightarrow> slice (pre @ ys) i n = Some (take n ys)"
  by simp

lemma Analysis_block:
  assumes ip: "field_ok ip" "length ip < length ip_information" and port: "field_ok port" "length port < length port_buff"
    and payload: "payload = p # ps" "\<not> stops p" "0 \<in> set rest" "length payload < 10000" "length payload \<le> length recv"
  shows "\<exists>buf. Analysis_Data_FromGPRS (received_block ip port payload rest) ip_information port_buff recv =
    Some (length payload, buf, ip @ 0 # drop (Suc (length ip)) ip_information, port @ 0 # drop (Suc (length port)) port_buff,
      cut_off payload @ drop (length payload) recv)"
proof -
  define A I D where "A = bytes ''RECV FROM''" and "I = bytes ''+IPD''" and "D = decimal (length payload)"
  have A: "A \<noteq> []" "\<forall>x \<in> set A. x \<noteq> 0 \<and> x \<notin> set [0x3A]"
    by (simp_all add: A_def bytes_def of_char_def)
  have I: "\<forall>x \<in> set I. x \<noteq> 0 \<and> \<not> (0x30 \<le> x \<and> x \<le> 0x39)" "\<forall>x \<in> set I. x \<noteq> 0 \<and> x \<notin> set crlf"
    by (simp_all add: I_def bytes_def of_char_def crlf_def)
  have D: "\<forall>x \<in> set D. x \<noteq> 0 \<and> x \<notin> set crlf"
    using decimal_digits [of _ "length payload"] by (fastforce simp: D_def crlf_def)
  have ipf: "ip \<noteq> []" "\<forall>x \<in> set ip. x \<noteq> 0 \<and> x \<notin> set [0x3A]" "\<forall>x \<in> set ip. x \<noteq> 0"
    and portf: "port \<noteq> []" "\<forall>x \<in> set port. x \<noteq> 0 \<and> x \<notin> set crlf" "\<forall>x \<in> set port. x \<noteq> 0"
    using ip port by (auto simp: field_ok_def crlf_def)
  have none: "\<forall>x \<in> set []. x \<in> set ds" for ds :: "u8 list" by simp
  have nl: "\<forall>x \<in> set [0x0A]. x \<in> set crlf" "(0x0D :: u8) \<in> set crlf" "(0x0D :: u8) \<noteq> 0" by (simp_all add: crlf_def)
  have colon: "(0x3A :: u8) \<in> set [0x3A]" "(0x3A :: u8) \<noteq> 0" by simp_all
  define t4 where "t4 = payload @ rest"
  define t3 where "t3 = 0x0A # I @ D @ 0x0D # 0x0A # t4"
  define t2 where "t2 = port @ 0x0D # t3"
  have src: "received_block ip port payload rest = A @ 0x3A # ip @ 0x3A # t2"
    by (simp add: received_block_def A_def I_def D_def t2_def t3_def t4_def crlf_def)
  have found: "strstr (A @ r) A \<noteq> None" for r
  proof -
    have "c_str (A @ r) = A @ takeWhile (\<lambda>x. x \<noteq> 0) r" using A(2) by (simp add: c_str_def takeWhile_append)
    moreover have "prefixed n (n @ r)" for n r by (induction n) simp_all
    moreover obtain x xs where "A = x # xs" using A(1) by (cases A) auto
    ultimately show ?thesis by (simp add: strstr_def)
  qed
  let ?p1 = "A @ [0]" let ?p2 = "?p1 @ ip @ [0]" let ?p3 = "?p2 @ port @ [0]" let ?p4 = "?p3 @ 0x0A # I @ D @ [0]"
  have 1: "strtok [0x3A] (A @ 0x3A # ip @ 0x3A # t2) 0 = Some (Some 0, ?p1 @ ip @ 0x3A # t2, length ?p1)"
    using strtok_token [OF none A colon, of "[]" "ip @ 0x3A # t2"] by simp
  have 2: "strtok [0x3A] (?p1 @ ip @ 0x3A # t2) (length ?p1) = Some (Some (length ?p1), ?p2 @ t2, length ?p2)"
    using strtok_token [OF none ipf(1,2) colon, of ?p1 t2] by simp
  have 3: "strtok crlf (?p2 @ t2) (length ?p2) = Some (Some (length ?p2), ?p3 @ t3, length ?p3)"
    using strtok_token [OF none portf(1,2) nl(2,3), of ?p2 t3] by (simp add: t2_def)
  have ID: "I @ D \<noteq> []" "\<forall>x \<in> set (I @ D). x \<noteq> 0 \<and> x \<notin> set crlf"
    using I D by (auto simp: D_def decimal_nonempty)
  have 4: "strtok crlf (?p3 @ t3) (length ?p3) = Some (Some (length ?p3 + 1), ?p4 @ 0x0A # t4, length ?p4)"
    using strtok_token [OF nl(1) ID nl(2,3), of ?p3 "0x0A # t4"] by (simp add: t3_def)
  have "0 \<in> set (ps @ rest)" "stops 0" using payload(3) by (simp_all add: stops_def)
  from strtok_payload [OF payload(2) this, of ?p4]
  obtain j where 5: "strtok crlf (?p4 @ 0x0A # t4) (length ?p4) = Some (Some (length ?p4 + 1), ?p4 @ 0x0A # cut_off t4, j)"
    by (auto simp: t4_def payload(1))
  have c1: "c_str (drop (length ?p1) (?p2 @ t2)) = ip" and c2: "c_str (drop (length ?p2) (?p3 @ t3)) = port"
    using c_str_token [OF ipf(3)] c_str_token [OF portf(3)] by simp_all
  have c3: "GetIntData_FromString (drop (length ?p3 + 1) (?p4 @ 0x0A # t4)) = Some (length payload)"
  proof -
    have e: "?p4 @ 0x0A # t4 = (?p3 @ [0x0A]) @ I @ D @ 0 # 0x0A # t4" by simp
    have "drop (length ?p3 + 1) (?p4 @ 0x0A # t4) = I @ D @ 0 # 0x0A # t4"
      unfolding e by (rule drop_prefix) simp
    then show ?thesis using GetIntData_decimal [OF I(1) payload(4), of "0x0A # t4"] by (simp only: D_def)
  qed
  have c4: "slice (?p4 @ 0x0A # cut_off t4) (length ?p4 + 1) (length payload) = Some (cut_off payload)"
  proof -
    have e: "?p4 @ 0x0A # cut_off t4 = (?p4 @ [0x0A]) @ cut_off t4" by simp
    have l: "length payload \<le> length (cut_off t4)" by (simp add: cut_off_def t4_def)
    have "slice (?p4 @ 0x0A # cut_off t4) (length ?p4 + 1) (length payload) = Some (take (length payload) (cut_off t4))"
      unfolding e by (rule slice_prefix [OF _ l]) simp
    then show ?thesis using take_cut [of payload rest] by (simp only: t4_def)
  qed
  have b: "blit ip_information 0 (ip @ [0]) = Some (ip @ 0 # drop (Suc (length ip)) ip_information)"
    "blit port_buff 0 (port @ [0]) = Some (port @ 0 # drop (Suc (length port)) port_buff)"
    "blit recv 0 (cut_off payload) = Some (cut_off payload @ drop (length payload) recv)"
    using ip(2) port(2) payload(5) by (simp_all add: blit_front cut_off_def)
  show ?thesis
    unfolding src Analysis_Data_FromGPRS_def A_def [symmetric] found if_False 1 2 3 4 5 bind.bind_lunit prod.case c1 c2 c3 c4 b
    using found [of "0x3A # ip @ 0x3A # t2"] by auto
qed

end
