(* ===== verification/Malloc.thy ===== *)
theory Malloc
  imports Prelude
begin

text \<open>
  The block allocator MALLOC/malloc.c: two pools of 32-byte blocks, each with a table that holds,
  for every block of an allocation, the number of blocks of that allocation, and 0 for a free
  block. A pointer is a 32-bit address, \<open>membase\<close> holds the address of each pool, \<open>mempool\<close> its bytes.
  The specification is a set of allocations \<open>(first block, blocks)\<close> that do not overlap and that
  the table represents; allocation adds one, freeing removes one.
\<close>

section \<open>The code\<close>

definition memtblsize :: "nat list" where "memtblsize = [1120, 30720]"
definition memblksize :: "nat list" where "memblksize = [32, 32]"
definition memsize :: "nat list" where "memsize = [35840, 983040]"

record mallco_dev =
  membase :: "u32 list"
  mempool :: "u8 list list"
  memmap :: "u16 list list"
  memrdy :: "u8 list"

definition mymemcpy :: "'a list \<Rightarrow> nat \<Rightarrow> 'a list \<Rightarrow> nat \<Rightarrow> nat \<Rightarrow> 'a list option" where
  "mymemcpy des d src i n = do { xs \<leftarrow> slice src i n; blit des d xs }"

definition mymemset :: "'a list \<Rightarrow> 'a \<Rightarrow> nat \<Rightarrow> 'a list option" where
  "mymemset s c count = blit s 0 (replicate count c)"

definition my_mem_init :: "mallco_dev \<Rightarrow> nat \<Rightarrow> mallco_dev option" where
  "my_mem_init dev memx = do {
     tbl \<leftarrow> rd memtblsize memx;
     tab \<leftarrow> rd (memmap dev) memx;
     tab \<leftarrow> mymemset tab 0 tbl;
     sz \<leftarrow> rd memsize memx;
     pool \<leftarrow> rd (mempool dev) memx;
     pool \<leftarrow> mymemset pool 0 sz;
     rdy \<leftarrow> wr (memrdy dev) memx 1;
     Some (dev\<lparr>memmap := (memmap dev)[memx := tab], mempool := (mempool dev)[memx := pool], memrdy := rdy\<rparr>)
   }"

definition my_mem_perused :: "mallco_dev \<Rightarrow> nat \<Rightarrow> nat option" where
  "my_mem_perused dev memx = do {
     tbl \<leftarrow> rd memtblsize memx;
     tab \<leftarrow> rd (memmap dev) memx;
     cells \<leftarrow> slice tab 0 tbl;
     let used = length (filter (\<lambda>c. c \<noteq> 0) cells);
     Some (used * 100 div tbl)
   }"

text \<open>The search from the top of the table; \<open>offset\<close> counts the entries not yet visited.\<close>

fun malloc_scan :: "u16 list \<Rightarrow> nat \<Rightarrow> nat \<Rightarrow> nat \<Rightarrow> nat option" where
  "malloc_scan tab nmemb cmemb 0 = None"
| "malloc_scan tab nmemb cmemb (Suc offset) =
     (let cmemb = (if tab ! offset = 0 then cmemb + 1 else 0)
      in if cmemb = nmemb then Some offset else malloc_scan tab nmemb cmemb offset)"

text \<open>\<open>for (i = 0; i < nmemb; i++) memmap[memx][offset+i] = v;\<close>\<close>

definition mark :: "u16 list \<Rightarrow> nat \<Rightarrow> nat \<Rightarrow> u16 \<Rightarrow> u16 list option" where
  "mark tab offset nmemb v = blit tab offset (replicate nmemb v)"

definition ensure_ready :: "mallco_dev \<Rightarrow> nat \<Rightarrow> (bool \<times> mallco_dev) option" where
  "ensure_ready dev memx = do {
     r \<leftarrow> rd (memrdy dev) memx;
     if r = 0 then do { dev \<leftarrow> my_mem_init dev memx; Some (False, dev) } else Some (True, dev)
   }"

definition my_mem_malloc :: "mallco_dev \<Rightarrow> nat \<Rightarrow> nat \<Rightarrow> (u32 \<times> mallco_dev) option" where
  "my_mem_malloc dev memx sz = do {
     (_, dev) \<leftarrow> ensure_ready dev memx;
     if sz = 0 then Some (0xFFFFFFFF, dev)
     else do {
       blk \<leftarrow> rd memblksize memx;
       let nmemb = sz div blk;
       let nmemb = (if sz mod blk \<noteq> 0 then nmemb + 1 else nmemb);
       tbl \<leftarrow> rd memtblsize memx;
       tab \<leftarrow> rd (memmap dev) memx;
       (case malloc_scan tab nmemb 0 tbl of
          None \<Rightarrow> Some (0xFFFFFFFF, dev)
        | Some offset \<Rightarrow> do {
            tab \<leftarrow> mark tab offset nmemb (of_nat nmemb);
            Some (of_nat (offset * blk), dev\<lparr>memmap := (memmap dev)[memx := tab]\<rparr>)
          })
     }
   }"

definition my_mem_free :: "mallco_dev \<Rightarrow> nat \<Rightarrow> u32 \<Rightarrow> (u8 \<times> mallco_dev) option" where
  "my_mem_free dev memx offset = do {
     (ready, dev) \<leftarrow> ensure_ready dev memx;
     if \<not> ready then Some (1, dev)
     else do {
       sz \<leftarrow> rd memsize memx;
       if unat offset < sz then do {
         blk \<leftarrow> rd memblksize memx;
         let index = unat offset div blk;
         tab \<leftarrow> rd (memmap dev) memx;
         nmemb \<leftarrow> rd tab index;
         tab \<leftarrow> mark tab index (unat nmemb) 0;
         Some (0, dev\<lparr>memmap := (memmap dev)[memx := tab]\<rparr>)
       } else Some (2, dev)
     }
   }"

definition myfree :: "mallco_dev \<Rightarrow> nat \<Rightarrow> u32 \<Rightarrow> mallco_dev option" where
  "myfree dev memx ptr =
     (if ptr = 0 then Some dev
      else do {
        base \<leftarrow> rd (membase dev) memx;
        let offset = ptr - base;
        (_, dev) \<leftarrow> my_mem_free dev memx offset;
        Some dev
      })"

definition mymalloc :: "mallco_dev \<Rightarrow> nat \<Rightarrow> nat \<Rightarrow> (u32 \<times> mallco_dev) option" where
  "mymalloc dev memx sz = do {
     (offset, dev) \<leftarrow> my_mem_malloc dev memx sz;
     if offset = 0xFFFFFFFF then Some (0, dev)
     else do { base \<leftarrow> rd (membase dev) memx; Some (base + offset, dev) }
   }"

text \<open>The copy reads \<open>sz\<close> bytes of the old block, whatever that block's own sz is.\<close>

definition myrealloc :: "mallco_dev \<Rightarrow> nat \<Rightarrow> u32 \<Rightarrow> nat \<Rightarrow> (u32 \<times> mallco_dev) option" where
  "myrealloc dev memx ptr sz = do {
     (offset, dev) \<leftarrow> my_mem_malloc dev memx sz;
     if offset = 0xFFFFFFFF then Some (0, dev)
     else do {
       base \<leftarrow> rd (membase dev) memx;
       pool \<leftarrow> rd (mempool dev) memx;
       pool \<leftarrow> mymemcpy pool (unat offset) pool (unat (ptr - base)) sz;
       let dev = dev\<lparr>mempool := (mempool dev)[memx := pool]\<rparr>;
       dev \<leftarrow> myfree dev memx ptr;
       Some (base + offset, dev)
     }
   }"

section \<open>The table and what it represents\<close>

definition free_run :: "u16 list \<Rightarrow> nat \<Rightarrow> nat \<Rightarrow> bool" where
  "free_run tab o' n \<longleftrightarrow> o' + n \<le> length tab \<and> (\<forall>i < n. tab ! (o' + i) = 0)"

text \<open>\<open>covers A i\<close>: block \<open>i\<close> belongs to an allocation of \<open>A\<close>.\<close>

definition inside :: "nat \<times> nat \<Rightarrow> nat \<Rightarrow> bool" where
  "inside a i \<longleftrightarrow> fst a \<le> i \<and> i < fst a + snd a"

definition represents :: "u16 list \<Rightarrow> (nat \<times> nat) set \<Rightarrow> bool" where
  "represents tab A \<longleftrightarrow>
     (\<forall>a \<in> A. 0 < snd a \<and> snd a < 65536 \<and> fst a + snd a \<le> length tab \<and> (\<forall>i. inside a i \<longrightarrow> tab ! i = of_nat (snd a))) \<and>
     (\<forall>a \<in> A. \<forall>b \<in> A. \<forall>i. inside a i \<and> inside b i \<longrightarrow> a = b) \<and>
     (\<forall>i < length tab. (\<forall>a \<in> A. \<not> inside a i) \<longrightarrow> tab ! i = 0)"

lemma represents_disjoint:
  "\<lbrakk>represents tab A; a \<in> A; b \<in> A; inside a i; inside b i\<rbrakk> \<Longrightarrow> a = b"
  unfolding represents_def by blast

lemma scan_Some:
  "\<lbrakk>malloc_scan tab n c k = Some off; k + c \<le> length tab; \<forall>i < c. tab ! (k + i) = 0\<rbrakk> \<Longrightarrow>
   free_run tab off n \<and> off < k"
proof (induction tab n c k rule: malloc_scan.induct)
  case (2 tab n c j)
  define c' where "c' = (if tab ! j = 0 then c + 1 else 0)"
  have run: "j + c' \<le> length tab" "\<forall>i < c'. tab ! (j + i) = 0"
    using 2(3,4) by (auto simp: c'_def less_Suc_eq_0_disj)
  show ?case
  proof (cases "c' = n")
    case True
    then have "off = j" using 2(2) by (simp add: c'_def [symmetric] Let_def)
    then show ?thesis using run True by (simp add: free_run_def)
  next
    case False
    then have "malloc_scan tab n c' j = Some off" using 2(2) by (simp add: c'_def [symmetric] Let_def)
    then show ?thesis using 2(1) [OF c'_def] False run by auto
  qed
qed simp

lemma scan_None:
  "\<lbrakk>malloc_scan tab n c k = None; k + c \<le> length tab; c < n;
    k + c = length tab \<or> tab ! (k + c) \<noteq> 0; o' < k\<rbrakk> \<Longrightarrow> \<not> free_run tab o' n"
proof (induction tab n c k rule: malloc_scan.induct)
  case (2 tab n c j)
  define c' where "c' = (if tab ! j = 0 then c + 1 else 0)"
  have n: "c' \<noteq> n" and s: "malloc_scan tab n c' j = None"
    using 2(2) by (auto simp: c'_def Let_def split: if_splits)
  have run: "j + c' \<le> length tab" "c' < n" "j + c' = length tab \<or> tab ! (j + c') \<noteq> 0"
    using 2(3-5) n by (auto simp: c'_def)
  show ?case
  proof (cases "o' = j")
    case True
    then show ?thesis using run by (auto simp: free_run_def)
  next
    case False
    then show ?thesis using 2(1) [OF c'_def n s run] 2(6) by simp
  qed
qed simp

text \<open>The block found is the highest one that is free.\<close>

lemma scan_highest:
  "\<lbrakk>malloc_scan tab n c k = Some off; k + c \<le> length tab; c < n;
    k + c = length tab \<or> tab ! (k + c) \<noteq> 0; off < o'; o' < k\<rbrakk> \<Longrightarrow> \<not> free_run tab o' n"
proof (induction tab n c k rule: malloc_scan.induct)
  case (2 tab n c j)
  define c' where "c' = (if tab ! j = 0 then c + 1 else 0)"
  have run: "j + c' \<le> length tab" "c' \<le> n" "j + c' = length tab \<or> tab ! (j + c') \<noteq> 0"
    using 2(3-5) by (auto simp: c'_def)
  show ?case
  proof (cases "c' = n")
    case True
    then show ?thesis using 2(2,6,7) by (simp add: c'_def [symmetric] Let_def)
  next
    case False
    then have s: "malloc_scan tab n c' j = Some off" and n: "c' < n"
      using 2(2) run(2) by (simp_all add: c'_def [symmetric] Let_def)
    show ?thesis
    proof (cases "o' = j")
      case True
      then show ?thesis using run n by (auto simp: free_run_def)
    next
      case neq: False
      then show ?thesis using 2(1) [OF c'_def False s run(1) n run(3)] 2(6,7) by simp
    qed
  qed
qed simp

lemma mark_nth:
  "mark tab off n v = Some m \<Longrightarrow> length m = length tab \<and>
   (\<forall>i < length tab. m ! i = (if inside (off, n) i then v else tab ! i))"
  using blit_nth [of tab off "replicate n v" m] length_blit [of tab off "replicate n v" m]
  by (auto simp: mark_def inside_def)

lemma represents_empty: "(\<forall>i < length tab. tab ! i = 0) \<Longrightarrow> represents tab {}"
  by (simp add: represents_def)

lemma represents_alloc:
  assumes r: "represents tab A" and f: "free_run tab off n" and n: "0 < n" "n < 65536"
  shows "\<exists>m. mark tab off n (of_nat n) = Some m \<and> represents m (insert (off, n) A) \<and> (off, n) \<notin> A"
proof -
  obtain m where m: "mark tab off n (of_nat n) = Some m"
    using f by (auto simp: mark_def blit_def free_run_def)
  have nth: "length m = length tab" "\<And>i. i < length tab \<Longrightarrow> m ! i = (if inside (off, n) i then of_nat n else tab ! i)"
    using mark_nth [OF m] by auto
  have zero: "inside (off, n) i \<Longrightarrow> tab ! i = 0" for i
    using f by (auto simp: inside_def free_run_def dest: spec [of _ "i - off"])
  have disj: "\<not> inside a i" if "a \<in> A" "inside (off, n) i" for a i
  proof
    assume "inside a i"
    then have "0 < snd a" "snd a < 65536" "tab ! i = of_nat (snd a)"
      using r that(1) by (auto simp: represents_def)
    then have "tab ! i \<noteq> 0" by (simp add: word_unat_eq_iff)
    then show False using zero [OF that(2)] by simp
  qed
  have new: "(off, n) \<notin> A" using disj [of "(off, n)" off] n by (auto simp: inside_def)
  have range: "inside (off, n) i \<Longrightarrow> i < length tab" for i
    using f by (auto simp: free_run_def inside_def)
  have range_A: "a \<in> A \<Longrightarrow> inside a i \<Longrightarrow> i < length tab" for a i
    using r by (fastforce simp: represents_def inside_def)
  have "represents m (insert (off, n) A)"
    unfolding represents_def
  proof (intro conjI ballI allI impI)
    fix a i assume a: "a \<in> insert (off, n) A" and i: "inside a i"
    show "m ! i = of_nat (snd a)"
    proof (cases "a = (off, n)")
      case True
      then show ?thesis using nth(2) [OF range] i by simp
    next
      case False
      then have "a \<in> A" using a by simp
      then show ?thesis using nth(2) [OF range_A [OF _ i]] disj [of a i] i r by (auto simp: represents_def)
    qed
  next
    fix a b i assume "a \<in> insert (off, n) A" "b \<in> insert (off, n) A" "inside a i \<and> inside b i"
    then show "a = b" using disj represents_disjoint [OF r, of a b i] by blast
  next
    fix i assume "i < length m" "\<forall>a \<in> insert (off, n) A. \<not> inside a i"
    then show "m ! i = 0" using nth r by (auto simp: represents_def)
  qed (use r n nth f in \<open>auto simp: represents_def free_run_def\<close>)
  then show ?thesis using m new by blast
qed

lemma represents_free:
  assumes r: "represents tab A" and a: "a \<in> A"
  shows "\<exists>m. rd tab (fst a) = Some (of_nat (snd a)) \<and> mark tab (fst a) (snd a) 0 = Some m \<and> represents m (A - {a})"
proof -
  have a': "0 < snd a" "fst a + snd a \<le> length tab" "\<And>i. inside a i \<Longrightarrow> tab ! i = of_nat (snd a)"
    using r a by (auto simp: represents_def)
  obtain m where m: "mark tab (fst a) (snd a) 0 = Some m"
    using a' by (auto simp: mark_def blit_def)
  have nth: "length m = length tab" "\<And>i. i < length tab \<Longrightarrow> m ! i = (if inside a i then 0 else tab ! i)"
    using mark_nth [OF m] by auto
  have range_A: "b \<in> A \<Longrightarrow> inside b i \<Longrightarrow> i < length tab" for b i
    using r by (fastforce simp: represents_def inside_def)
  have disj: "b \<in> A \<Longrightarrow> b \<noteq> a \<Longrightarrow> inside b i \<Longrightarrow> \<not> inside a i" for b i
    using represents_disjoint [OF r _ a] by blast
  have "represents m (A - {a})"
    unfolding represents_def
  proof (intro conjI ballI allI impI)
    fix b i assume b: "b \<in> A - {a}" and i: "inside b i"
    then have "m ! i = tab ! i" using nth(2) [OF range_A [OF _ i]] disj [of b i] by auto
    then show "m ! i = of_nat (snd b)" using r b i by (auto simp: represents_def)
  next
    fix b c i assume "b \<in> A - {a}" "c \<in> A - {a}" "inside b i \<and> inside c i"
    then show "b = c" using represents_disjoint [OF r, of b c i] by blast
  next
    fix i assume i: "i < length m" "\<forall>b \<in> A - {a}. \<not> inside b i"
    show "m ! i = 0"
    proof (cases "inside a i")
      case True
      then show ?thesis using nth i by simp
    next
      case False
      then have "\<forall>b \<in> A. \<not> inside b i" using i by auto
      then show ?thesis using nth i False r by (auto simp: represents_def)
    qed
  qed (use r nth in \<open>auto simp: represents_def\<close>)
  moreover have "rd tab (fst a) = Some (of_nat (snd a))"
    using a'(1,2) a'(3) [of "fst a"] by (simp add: rd_def inside_def)
  ultimately show ?thesis using m by blast
qed

section \<open>The operations on the pools\<close>

definition shaped :: "mallco_dev \<Rightarrow> bool" where
  "shaped dev \<longleftrightarrow> length (membase dev) = 2 \<and> length (memrdy dev) = 2 \<and>
     map length (memmap dev) = memtblsize \<and> map length (mempool dev) = memsize"

definition pool_ok :: "mallco_dev \<Rightarrow> nat \<Rightarrow> (nat \<times> nat) set \<Rightarrow> bool" where
  "pool_ok dev memx A \<longleftrightarrow>
     shaped dev \<and> memx < 2 \<and> memrdy dev ! memx \<noteq> 0 \<and> represents (memmap dev ! memx) A"

definition blocks :: "nat \<Rightarrow> nat" where
  "blocks sz = (sz + 31) div 32"

lemma blocks_eq: "blocks sz = (if sz mod 32 \<noteq> 0 then sz div 32 + 1 else sz div 32)"
proof -
  define q r where "q = sz div 32" and "r = sz mod 32"
  have "sz = r + q * 32" by (simp add: q_def r_def)
  then have "blocks sz = (r + 31 + q * 32) div 32" by (simp add: blocks_def)
  also have "\<dots> = q + (r + 31) div 32" by (rule div_mult_self1) simp
  also have "(r + 31) div 32 = (if r = 0 then 0 else 1)"
    using mod_less_divisor [of 32 sz] by (auto simp: r_def intro: div_nat_eqI)
  finally show ?thesis by (simp add: q_def r_def)
qed

lemma shaped_lengths:
  assumes "shaped dev" and "memx < 2"
  shows "length (memmap dev) = 2" "length (mempool dev) = 2"
    "length (memmap dev ! memx) = memtblsize ! memx" "length (mempool dev ! memx) = memsize ! memx"
    "rd memtblsize memx = Some (memtblsize ! memx)" "rd memsize memx = Some (memsize ! memx)"
    "rd memblksize memx = Some 32" "memsize ! memx = 32 * memtblsize ! memx" "memtblsize ! memx \<le> 30720"
proof -
  have m: "length (memmap dev) = 2" "length (mempool dev) = 2"
  proof -
    have "length (map length (memmap dev)) = length memtblsize" "length (map length (mempool dev)) = length memsize"
      using assms(1) by (simp_all only: shaped_def)
    then show "length (memmap dev) = 2" "length (mempool dev) = 2" by (simp_all add: memtblsize_def memsize_def)
  qed
  have "memx = 0 \<or> memx = 1" using assms(2) by auto
  then show "rd memtblsize memx = Some (memtblsize ! memx)" "rd memsize memx = Some (memsize ! memx)"
    "rd memblksize memx = Some 32" "memsize ! memx = 32 * memtblsize ! memx" "memtblsize ! memx \<le> 30720"
    by (auto simp: memtblsize_def memsize_def memblksize_def)
  show "length (memmap dev) = 2" "length (mempool dev) = 2" by (rule m)+
  have "map length (memmap dev) ! memx = memtblsize ! memx" "map length (mempool dev) ! memx = memsize ! memx"
    using assms(1) by (simp_all add: shaped_def)
  then show "length (memmap dev ! memx) = memtblsize ! memx" "length (mempool dev ! memx) = memsize ! memx"
    using m assms(2) by simp_all
qed

lemma shaped_update:
  "\<lbrakk>shaped dev; memx < 2; length tab = memtblsize ! memx\<rbrakk> \<Longrightarrow>
   shaped (dev\<lparr>memmap := (memmap dev)[memx := tab]\<rparr>)"
  by (auto simp: shaped_def map_update)

lemma my_mem_init_ok:
  assumes "shaped dev" and "memx < 2"
  shows "\<exists>dev'. my_mem_init dev memx = Some dev' \<and> pool_ok dev' memx {}"
proof -
  note l = shaped_lengths [OF assms]
  let ?t = "replicate (memtblsize ! memx) (0 :: u16)" and ?p = "replicate (memsize ! memx) (0 :: u8)"
  have "my_mem_init dev memx = Some (dev\<lparr>memmap := (memmap dev)[memx := ?t],
      mempool := (mempool dev)[memx := ?p], memrdy := (memrdy dev)[memx := 1]\<rparr>)"
    using l assms by (simp add: my_mem_init_def mymemset_def blit_def shaped_def wr_def)
  then show ?thesis
    using l(1-6) assms by (auto simp: pool_ok_def shaped_def map_update intro!: represents_empty)
qed

lemma ensure_ready_ok: "pool_ok dev memx A \<Longrightarrow> ensure_ready dev memx = Some (True, dev)"
  by (simp add: pool_ok_def shaped_def ensure_ready_def)

lemma my_mem_malloc_highest:
  assumes p: "pool_ok dev memx A" and sz: "0 < sz"
  shows "(\<exists>off dev'. my_mem_malloc dev memx sz = Some (of_nat (off * 32), dev') \<and>
            pool_ok dev' memx (insert (off, blocks sz) A) \<and> (off, blocks sz) \<notin> A \<and>
            mark (memmap dev ! memx) off (blocks sz) (of_nat (blocks sz)) = Some (memmap dev' ! memx) \<and>
            (\<forall>o' > off. \<not> free_run (memmap dev ! memx) o' (blocks sz))) \<or>
         (my_mem_malloc dev memx sz = Some (0xFFFFFFFF, dev) \<and>
            (\<forall>o'. \<not> free_run (memmap dev ! memx) o' (blocks sz)))"
proof -
  have s: "shaped dev" "memx < 2" "represents (memmap dev ! memx) A" using p by (simp_all add: pool_ok_def)
  note l = shaped_lengths [OF s(1,2)]
  let ?tab = "memmap dev ! memx"
  have n: "(if sz mod 32 \<noteq> 0 then sz div 32 + 1 else sz div 32) = blocks sz" "0 < blocks sz"
    using blocks_eq [of sz] sz by (simp_all add: blocks_def div_greater_zero_iff)
  have rdm: "rd (memmap dev) memx = Some ?tab" using l s(2) by simp
  show ?thesis
  proof (cases "malloc_scan ?tab (blocks sz) 0 (memtblsize ! memx)")
    case None
    then have "\<not> free_run ?tab o' (blocks sz)" for o'
      using scan_None [OF None _ n(2), of o'] l(3) n(2) by (cases "o' < memtblsize ! memx") (auto simp: free_run_def)
    moreover have "my_mem_malloc dev memx sz = Some (0xFFFFFFFF, dev)"
      using None sz l(5,7) rdm n(1) by (simp add: my_mem_malloc_def ensure_ready_ok [OF p] Let_def split del: if_split)
    ultimately show ?thesis by blast
  next
    case (Some off)
    then have f: "free_run ?tab off (blocks sz)" using scan_Some [OF Some] l(3) by simp
    then have "blocks sz < 65536" using l(3,9) by (simp add: free_run_def)
    then obtain m where m: "mark ?tab off (blocks sz) (of_nat (blocks sz)) = Some m"
      "represents m (insert (off, blocks sz) A)" "(off, blocks sz) \<notin> A"
      using represents_alloc [OF s(3) f n(2)] by blast
    let ?dev = "dev\<lparr>memmap := (memmap dev)[memx := m]\<rparr>"
    have "length m = memtblsize ! memx" using mark_nth [OF m(1)] l(3) by simp
    then have "pool_ok ?dev memx (insert (off, blocks sz) A)"
      using p m(2) l s by (simp add: pool_ok_def shaped_update)
    moreover have "my_mem_malloc dev memx sz = Some (of_nat (off * 32), ?dev)"
      using Some sz l(5,7) rdm n(1) m(1) by (simp add: my_mem_malloc_def ensure_ready_ok [OF p] Let_def split del: if_split)
    moreover have "memmap ?dev ! memx = m" using l(1) s(2) by simp
    moreover have "\<not> free_run ?tab o' (blocks sz)" if "off < o'" for o'
      using scan_highest [OF Some _ n(2) _ that] l(3) n(2) by (cases "o' < memtblsize ! memx") (auto simp: free_run_def)
    ultimately show ?thesis using m(1,3) by (metis (no_types))
  qed
qed

lemma my_mem_malloc_ok:
  assumes "pool_ok dev memx A" and "0 < sz"
  shows "(\<exists>off dev'. my_mem_malloc dev memx sz = Some (of_nat (off * 32), dev') \<and>
            pool_ok dev' memx (insert (off, blocks sz) A) \<and> (off, blocks sz) \<notin> A) \<or>
         (my_mem_malloc dev memx sz = Some (0xFFFFFFFF, dev) \<and>
            (\<forall>o'. \<not> free_run (memmap dev ! memx) o' (blocks sz)))"
  using my_mem_malloc_highest [OF assms] by blast

text \<open>A free run of twice the length has room for two blocks: the first is cut from its upper end or lies above it.\<close>

lemma my_mem_malloc_twice:
  assumes p: "pool_ok dev memx A" and sz: "0 < sz" and f: "free_run (memmap dev ! memx) k (2 * blocks sz)"
  shows "\<exists>off dev'. my_mem_malloc dev memx sz = Some (of_nat (off * 32), dev') \<and>
    pool_ok dev' memx (insert (off, blocks sz) A) \<and> (off, blocks sz) \<notin> A \<and> free_run (memmap dev' ! memx) k (blocks sz)"
proof -
  let ?tab = "memmap dev ! memx"
  have f0: "?tab ! j = 0" if "k \<le> j" "j < k + 2 * blocks sz" for j
    using f that by (auto simp: free_run_def dest: spec [of _ "j - k"])
  have len: "k + 2 * blocks sz \<le> length ?tab" using f by (simp add: free_run_def)
  then have f2: "free_run ?tab (k + blocks sz) (blocks sz)" using f0 by (simp add: free_run_def)
  from my_mem_malloc_highest [OF p sz] f2 obtain off dev' where m:
    "my_mem_malloc dev memx sz = Some (of_nat (off * 32), dev')" "pool_ok dev' memx (insert (off, blocks sz) A)"
    "(off, blocks sz) \<notin> A" "mark ?tab off (blocks sz) (of_nat (blocks sz)) = Some (memmap dev' ! memx)"
    "\<forall>o' > off. \<not> free_run ?tab o' (blocks sz)"
    by blast
  have "k + blocks sz \<le> off" using m(5) f2 by (meson not_le_imp_less)
  then have "free_run (memmap dev' ! memx) k (blocks sz)"
    using mark_nth [OF m(4)] f0 len by (auto simp: free_run_def inside_def)
  then show ?thesis using m by blast
qed

lemma my_mem_free_ok:
  assumes p: "pool_ok dev memx A" and a: "a \<in> A"
  shows "\<exists>dev'. my_mem_free dev memx (of_nat (fst a * 32)) = Some (0, dev') \<and> pool_ok dev' memx (A - {a})"
proof -
  have s: "shaped dev" "memx < 2" "represents (memmap dev ! memx) A" using p by (simp_all add: pool_ok_def)
  note l = shaped_lengths [OF s(1,2)]
  let ?tab = "memmap dev ! memx"
  obtain m where m: "rd ?tab (fst a) = Some (of_nat (snd a))" "mark ?tab (fst a) (snd a) 0 = Some m"
    "represents m (A - {a})"
    using represents_free [OF s(3) a] by blast
  have b: "0 < snd a" "snd a < 65536" "fst a + snd a \<le> memtblsize ! memx"
    using s(3) a l(3) by (auto simp: represents_def)
  then have u: "unat (of_nat (fst a * 32) :: u32) = fst a * 32"
    using l(9) by (intro unat_of_nat_small) simp
  let ?dev = "dev\<lparr>memmap := (memmap dev)[memx := m]\<rparr>"
  have "length m = memtblsize ! memx" using mark_nth [OF m(2)] l(3) by simp
  then have "pool_ok ?dev memx (A - {a})"
    using p m(3) l s by (simp add: pool_ok_def shaped_update)
  moreover have "my_mem_free dev memx (of_nat (fst a * 32)) = Some (0, ?dev)"
  proof -
    have "rd (memmap dev) memx = Some ?tab" using l s(2) by simp
    moreover have "fst a * 32 < memsize ! memx" using b l(8) by simp
    ultimately show ?thesis
      using m l(6,7) b by (simp only: my_mem_free_def ensure_ready_ok [OF p] bind.bind_lunit prod.case u)
        (simp add: Let_def)
  qed
  ultimately show ?thesis by blast
qed

section \<open>Runs of a pool\<close>

text \<open>
  Every sequence of initialisation, allocations and releases of blocks that are allocated.
\<close>

inductive heap_run :: "nat \<Rightarrow> mallco_dev \<Rightarrow> (nat \<times> nat) set \<Rightarrow> bool" for memx :: nat where
  init: "\<lbrakk>shaped dev; my_mem_init dev memx = Some dev'\<rbrakk> \<Longrightarrow> heap_run memx dev' {}"
| alloc: "\<lbrakk>heap_run memx dev A; 0 < sz; my_mem_malloc dev memx sz = Some (r, dev'); r \<noteq> 0xFFFFFFFF\<rbrakk> \<Longrightarrow>
    heap_run memx dev' (insert (unat r div 32, blocks sz) A)"
| full: "\<lbrakk>heap_run memx dev A; 0 < sz; my_mem_malloc dev memx sz = Some (0xFFFFFFFF, dev')\<rbrakk> \<Longrightarrow> heap_run memx dev' A"
| release: "\<lbrakk>heap_run memx dev A; a \<in> A; my_mem_free dev memx (of_nat (fst a * 32)) = Some (r, dev')\<rbrakk> \<Longrightarrow>
    heap_run memx dev' (A - {a})"

lemma alloc_offset:
  assumes "pool_ok dev memx A" and "a \<in> A"
  shows "unat (of_nat (fst a * 32) :: u32) = fst a * 32" and "(of_nat (fst a * 32) :: u32) \<noteq> 0xFFFFFFFF"
proof -
  have s: "shaped dev" "memx < 2" "represents (memmap dev ! memx) A" using assms(1) by (simp_all add: pool_ok_def)
  note l = shaped_lengths [OF s(1,2)]
  have b: "fst a + snd a \<le> memtblsize ! memx" using s(3) assms(2) l(3) by (auto simp: represents_def)
  then show u: "unat (of_nat (fst a * 32) :: u32) = fst a * 32"
    using l(9) by (intro unat_of_nat_small) simp
  show "(of_nat (fst a * 32) :: u32) \<noteq> 0xFFFFFFFF"
  proof
    assume "(of_nat (fst a * 32) :: u32) = 0xFFFFFFFF"
    then have "fst a * 32 = unat (0xFFFFFFFF :: u32)" using u by metis
    then show False using b l(9) by simp
  qed
qed

lemma heap_run_ok: "\<lbrakk>heap_run memx dev A; memx < 2\<rbrakk> \<Longrightarrow> pool_ok dev memx A"
proof (induction rule: heap_run.induct)
  case (init dev dev')
  then show ?case using my_mem_init_ok [of dev memx] by auto
next
  case (alloc dev A sz r dev')
  then have p: "pool_ok dev memx A" by simp
  from my_mem_malloc_ok [OF p alloc.hyps(2)] alloc.hyps(3,4)
  obtain off where off: "r = of_nat (off * 32)" "pool_ok dev' memx (insert (off, blocks sz) A)" by auto
  then have "unat r = off * 32" using alloc_offset(1) [OF off(2), of "(off, blocks sz)"] by simp
  then show ?case using off by simp
next
  case (full dev A sz dev')
  then have p: "pool_ok dev memx A" by simp
  have "dev' = dev"
  proof (rule ccontr)
    assume "dev' \<noteq> dev"
    then obtain off where "pool_ok dev' memx (insert (off, blocks sz) A)" "(of_nat (off * 32) :: u32) = 0xFFFFFFFF"
      using my_mem_malloc_ok [OF p full.hyps(2)] full.hyps(3) by (auto simp del: of_nat_mult)
    then show False using alloc_offset(2) [of dev' memx _ "(off, blocks sz)"] by fastforce
  qed
  then show ?case using p by simp
next
  case (release dev A a r dev')
  then show ?case using my_mem_free_ok [of dev memx A a] by auto
qed

text \<open>A run: initialisation, then two allocations of one block each.\<close>

definition empty_heap :: mallco_dev where
  "empty_heap = \<lparr>membase = [0, 0], mempool = map (\<lambda>n. replicate n 0) memsize, memmap = map (\<lambda>n. replicate n 0) memtblsize, memrdy = [0, 0]\<rparr>"

lemma shaped_empty: "shaped empty_heap"
  by (simp add: shaped_def empty_heap_def comp_def)

lemma run_alloc:
  assumes run: "heap_run memx dev A" and "memx < 2" and sz: "0 < sz" and f: "free_run (memmap dev ! memx) k (blocks sz)"
  shows "\<exists>off dev'. heap_run memx dev' (insert (off, blocks sz) A) \<and> (off, blocks sz) \<notin> A \<and>
    my_mem_malloc dev memx sz = Some (of_nat (off * 32), dev')"
proof -
  have p: "pool_ok dev memx A" using assms(1,2) by (rule heap_run_ok)
  then obtain off dev' where m: "my_mem_malloc dev memx sz = Some (of_nat (off * 32), dev')"
    "pool_ok dev' memx (insert (off, blocks sz) A)" "(off, blocks sz) \<notin> A"
    using my_mem_malloc_ok [OF p sz] f by blast
  note o = alloc_offset [OF m(2), of "(off, blocks sz)", simplified]
  have "heap_run memx dev' (insert (unat (of_nat (off * 32) :: u32) div 32, blocks sz) A)"
    using alloc_offset(2) [OF m(2), of "(off, blocks sz)"] by (intro heap_run.alloc [OF run sz m(1)]) simp
  moreover have "unat (of_nat (off * 32) :: u32) div 32 = off"
    using alloc_offset(1) [OF m(2), of "(off, blocks sz)"] by simp
  ultimately show ?thesis using m by auto
qed

lemma two_blocks: "\<exists>dev off off'. heap_run 0 dev {(off', 1), (off, 1)} \<and> off' \<noteq> off"
proof -
  obtain dev0 where "my_mem_init empty_heap 0 = Some dev0" "pool_ok dev0 0 {}"
    using my_mem_init_ok [OF shaped_empty, of 0] by auto
  then have r0: "heap_run 0 dev0 {}" "represents (memmap dev0 ! 0) {}" "shaped dev0"
    using heap_run.init [OF shaped_empty] by (auto simp: pool_ok_def)
  have "length (memmap dev0 ! 0) = 1120" using shaped_lengths [OF r0(3), of 0] by (simp add: memtblsize_def)
  then have "free_run (memmap dev0 ! 0) 0 (blocks 1)" using r0(2) by (simp add: free_run_def represents_def blocks_def)
  from run_alloc [OF r0(1) _ _ this]
  obtain off dev1 where r1: "heap_run 0 dev1 {(off, 1)}" by (auto simp: blocks_def)
  have "pool_ok dev1 0 {(off, 1)}" by (rule heap_run_ok [OF r1]) simp
  then have p1: "represents (memmap dev1 ! 0) {(off, 1)}" "shaped dev1" by (simp_all add: pool_ok_def)
  have "length (memmap dev1 ! 0) = 1120" using shaped_lengths [OF p1(2), of 0] by (simp add: memtblsize_def)
  then have "free_run (memmap dev1 ! 0) (if off = 0 then 1 else 0) (blocks 1)"
    using p1(1) by (simp add: free_run_def represents_def blocks_def inside_def)
  from run_alloc [OF r1 _ _ this] show ?thesis by (auto simp: blocks_def)
qed

end
