(* ===== verification/Pool.thy ===== *)
theory Pool
  imports Malloc
begin

text \<open>
  What the log, the FTP server and the file buffers may expect of \<open>mymalloc\<close> and \<open>myfree\<close> (MALLOC/malloc.c): the
  interface \<open>block_pool\<close>, and its implementation by a pool of \<open>mallco_dev\<close> at its place in memory.
\<close>

section \<open>The interface\<close>

text \<open>
  \<open>holds h A\<close>: the pool \<open>h\<close> is in order and its allocations are \<open>A\<close>, pairs of offset and length in cells; \<open>room h k n\<close>:
  from cell \<open>k\<close> on, \<open>n\<close> cells are free; \<open>ptr\<close> gives the address of an offset, \<open>cells_for\<close> the number of cells a size takes.
\<close>

locale block_pool =
  fixes alloc :: "'h \<Rightarrow> nat \<Rightarrow> (u32 \<times> 'h) option" and release :: "'h \<Rightarrow> u32 \<Rightarrow> 'h option"
    and holds :: "'h \<Rightarrow> (nat \<times> nat) set \<Rightarrow> bool" and room :: "'h \<Rightarrow> nat \<Rightarrow> nat \<Rightarrow> bool"
    and ptr :: "nat \<Rightarrow> u32" and cells_for :: "nat \<Rightarrow> nat"
  assumes alloc_law: "\<lbrakk>holds h A; 0 < sz; room h k (cells_for sz)\<rbrakk> \<Longrightarrow>
      \<exists>off h'. alloc h sz = Some (ptr off, h') \<and> ptr off \<noteq> 0 \<and> (off, cells_for sz) \<notin> A \<and> holds h' (insert (off, cells_for sz) A)"
    and alloc_twice_law: "\<lbrakk>holds h A; 0 < sz; room h k (2 * cells_for sz)\<rbrakk> \<Longrightarrow>
      \<exists>off h'. alloc h sz = Some (ptr off, h') \<and> ptr off \<noteq> 0 \<and> (off, cells_for sz) \<notin> A \<and> holds h' (insert (off, cells_for sz) A) \<and>
        room h' k (cells_for sz)"
    and release_law: "\<lbrakk>holds h A; (off, n) \<in> A\<rbrakk> \<Longrightarrow> \<exists>h'. release h (ptr off) = Some h' \<and> holds h' (A - {(off, n)})"
begin

text \<open>A buffer borrowed and given back leaves the allocations as they were.\<close>

lemma borrow:
  assumes "holds h A" and "0 < sz" and "room h k (cells_for sz)"
  shows "\<exists>p h1 h2. alloc h sz = Some (p, h1) \<and> p \<noteq> 0 \<and> release h1 p = Some h2 \<and> holds h2 A"
proof -
  from alloc_law [OF assms] obtain off h1 where 1: "alloc h sz = Some (ptr off, h1)" "ptr off \<noteq> 0" "(off, cells_for sz) \<notin> A"
    "holds h1 (insert (off, cells_for sz) A)" by blast
  from release_law [OF 1(4) insertI1] obtain h2 where "release h1 (ptr off) = Some h2"
    "holds h2 (insert (off, cells_for sz) A - {(off, cells_for sz)})" by blast
  moreover have "insert (off, cells_for sz) A - {(off, cells_for sz)} = A" using 1(3) by simp
  ultimately show ?thesis using 1(1,2) by auto
qed

text \<open>Two buffers, given back in the order in which they were borrowed.\<close>

lemma borrow_two:
  assumes "holds h A" and "0 < sz" and "room h k (2 * cells_for sz)"
  shows "\<exists>p q h1 h2 h3 h4. alloc h sz = Some (p, h1) \<and> alloc h1 sz = Some (q, h2) \<and> p \<noteq> 0 \<and> q \<noteq> 0 \<and>
    release h2 p = Some h3 \<and> release h3 q = Some h4 \<and> holds h4 A"
proof -
  let ?n = "cells_for sz"
  from alloc_twice_law [OF assms] obtain o1 h1 where 1: "alloc h sz = Some (ptr o1, h1)" "ptr o1 \<noteq> 0" "(o1, ?n) \<notin> A"
    "holds h1 (insert (o1, ?n) A)" "room h1 k ?n" by blast
  from alloc_law [OF 1(4) assms(2) 1(5)] obtain o2 h2 where 2: "alloc h1 sz = Some (ptr o2, h2)" "ptr o2 \<noteq> 0"
    "(o2, ?n) \<notin> insert (o1, ?n) A" "holds h2 (insert (o2, ?n) (insert (o1, ?n) A))" by blast
  from release_law [OF 2(4), of o1 ?n] obtain h3 where 3: "release h2 (ptr o1) = Some h3"
    "holds h3 (insert (o2, ?n) (insert (o1, ?n) A) - {(o1, ?n)})" by blast
  have A1: "insert (o2, ?n) (insert (o1, ?n) A) - {(o1, ?n)} = insert (o2, ?n) A" using 1(3) 2(3) by auto
  from release_law [OF 3(2) [unfolded A1] insertI1] obtain h4 where 4: "release h3 (ptr o2) = Some h4"
    "holds h4 (insert (o2, ?n) A - {(o2, ?n)})" by blast
  have "insert (o2, ?n) A - {(o2, ?n)} = A" using 2(3) by auto
  then show ?thesis using 1(1,2) 2(1,2) 3(1) 4 by auto
qed

end

section \<open>A pool at its place\<close>

definition SRAMIN :: nat where "SRAMIN = 0"
definition SRAMEX :: nat where "SRAMEX = 1"

lemma membase_init: "my_mem_init dev memx = Some dev' \<Longrightarrow> membase dev' = membase dev"
  by (auto simp: my_mem_init_def split: bind_splits)

lemma membase_malloc: "my_mem_malloc dev memx sz = Some (r, dev') \<Longrightarrow> membase dev' = membase dev"
  by (auto simp: my_mem_malloc_def ensure_ready_def Let_def membase_init split: bind_splits if_splits option.splits prod.splits)

lemma membase_free: "my_mem_free dev memx off = Some (r, dev') \<Longrightarrow> membase dev' = membase dev"
  by (auto simp: my_mem_free_def ensure_ready_def Let_def membase_init split: bind_splits if_splits option.splits prod.splits)

definition pool_at :: "nat \<Rightarrow> u32 \<Rightarrow> mallco_dev \<Rightarrow> (nat \<times> nat) set \<Rightarrow> bool" where
  "pool_at memx base dev A \<longleftrightarrow> pool_ok dev memx A \<and> membase dev ! memx = base"

definition block_ptr :: "u32 \<Rightarrow> nat \<Rightarrow> u32" where
  "block_ptr base off = base + of_nat (off * 32)"

text \<open>A pool that does not start at 0 and ends before the end of memory.\<close>

locale pool_place =
  fixes memx :: nat and base :: u32
  assumes place: "memx < 2" "0 < unat base" "unat base + memsize ! memx < 2 ^ 32"
begin

lemma block_ptr_nonzero:
  assumes p: "pool_ok dev memx A" and a: "(off, n) \<in> A"
  shows "block_ptr base off \<noteq> 0"
proof -
  have s: "shaped dev" "represents (memmap dev ! memx) A" using p by (simp_all add: pool_ok_def)
  note l = shaped_lengths [OF s(1) place(1)]
  have "off + n \<le> memtblsize ! memx" using s(2) a l(3) by (auto simp: represents_def)
  then have "off * 32 \<le> memsize ! memx" using l(8) by linarith
  then have "unat (block_ptr base off) = unat base + off * 32"
    using place(3) alloc_offset(1) [OF p a] by (simp add: block_ptr_def unat_word_ariths del: of_nat_mult)
  then show ?thesis using place(2) by auto
qed

lemma mymalloc_at:
  assumes m: "my_mem_malloc dev memx sz = Some (of_nat (off * 32), dev')" and p: "pool_at memx base dev A"
    and p': "pool_ok dev' memx (insert (off, n) A)"
  shows "mymalloc dev memx sz = Some (block_ptr base off, dev') \<and> block_ptr base off \<noteq> 0 \<and> pool_at memx base dev' (insert (off, n) A)"
proof -
  have b: "membase dev' = membase dev" using m by (rule membase_malloc)
  have l: "length (membase dev) = 2" "membase dev ! memx = base" using p by (simp_all add: pool_at_def pool_ok_def shaped_def)
  note o = alloc_offset(2) [OF p' insertI1, simplified fst_conv]
  have "mymalloc dev memx sz = Some (block_ptr base off, dev')"
    using m o b l place(1) by (simp add: mymalloc_def block_ptr_def del: of_nat_mult)
  then show ?thesis using block_ptr_nonzero [OF p' insertI1] p' b l(2) by (simp add: pool_at_def)
qed

end

sublocale pool_place \<subseteq> block_pool "\<lambda>dev. mymalloc dev memx" "\<lambda>dev. myfree dev memx" "pool_at memx base"
  "\<lambda>dev. free_run (memmap dev ! memx)" "block_ptr base" blocks
proof (unfold_locales, goal_cases)
  case (1 dev A sz k)
  from my_mem_malloc_ok [of dev memx A sz] 1 obtain off dev' where
    "my_mem_malloc dev memx sz = Some (of_nat (off * 32), dev')" "pool_ok dev' memx (insert (off, blocks sz) A)" "(off, blocks sz) \<notin> A"
    by (auto simp: pool_at_def simp del: of_nat_mult)
  then show ?case using mymalloc_at [OF _ 1(1)] by blast
next
  case (2 dev A sz k)
  from my_mem_malloc_twice [of dev memx A sz k] 2 obtain off dev' where
    "my_mem_malloc dev memx sz = Some (of_nat (off * 32), dev')" "pool_ok dev' memx (insert (off, blocks sz) A)" "(off, blocks sz) \<notin> A"
    "free_run (memmap dev' ! memx) k (blocks sz)"
    by (auto simp: pool_at_def simp del: of_nat_mult)
  then show ?case using mymalloc_at [OF _ 2(1)] by blast
next
  case (3 dev A off n)
  have p: "pool_ok dev memx A" "membase dev ! memx = base" "length (membase dev) = 2"
    using 3(1) by (simp_all add: pool_at_def pool_ok_def shaped_def)
  from my_mem_free_ok [OF p(1) 3(2)] obtain dev' where f: "my_mem_free dev memx (of_nat (off * 32)) = Some (0, dev')"
    "pool_ok dev' memx (A - {(off, n)})" by auto
  have "myfree dev memx (block_ptr base off) = Some dev'"
    using f(1) p(2,3) place(1) block_ptr_nonzero [OF p(1) 3(2)] by (simp add: myfree_def block_ptr_def del: of_nat_mult)
  then show ?case using f(2) p(2) membase_free [OF f(1)] by (simp add: pool_at_def)
qed

context pool_place
begin

lemmas borrow_at = borrow
lemmas alloc_at = alloc_law
lemmas release_at = release_law

end

text \<open>The external pool lies at the start of the external memory, 0x68000000.\<close>

interpretation external: pool_place SRAMEX "0x68000000"
  by unfold_locales (simp_all add: SRAMEX_def memsize_def)

end
