(* ===== verification/Console.thy ===== *)
theory Console
  imports Pool SD3078
begin

text \<open>
  The console port, SYSTEM/usart/usart.c: the receive interrupt of USART1, which assembles lines
  that end in carriage return and line feed, the blocking transmit routine, and the log functions,
  which borrow two buffers from the external memory pool for every message. The set-up of the port
  (RS232_1_Init) only programs registers. What printf prints is a list of strings.
\<close>

section \<open>Receiving\<close>

definition USART_REC_LEN :: nat where "USART_REC_LEN = 200"

record usart1 =
  USART_RX_BUF :: "u8 list"
  USART_RX_STA :: u16
  g_usart1_recveive_cnt :: u32
  g_usart1_receive_stat :: u8

text \<open>A byte has arrived, or the line is idle and the DMA counter shows what it has not transferred.\<close>

datatype usart1_event = RXNE u8 | IDLE u16

definition USART1_IRQHandler :: "usart1_event \<Rightarrow> usart1 \<Rightarrow> usart1 option" where
  "USART1_IRQHandler ev s =
     (case ev of
        RXNE Res \<Rightarrow>
          if USART_RX_STA s AND 0x8000 = 0 then
            if USART_RX_STA s AND 0x4000 \<noteq> 0 then
              if Res \<noteq> 0x0a then Some (s\<lparr>USART_RX_STA := 0\<rparr>)
              else Some (s\<lparr>USART_RX_STA := USART_RX_STA s OR 0x8000\<rparr>)
            else if Res = 0x0d then Some (s\<lparr>USART_RX_STA := USART_RX_STA s OR 0x4000\<rparr>)
            else do {
              buf \<leftarrow> wr (USART_RX_BUF s) (unat (USART_RX_STA s AND 0x3FFF)) Res;
              let sta = USART_RX_STA s + 1;
              let sta = (if unat sta > USART_REC_LEN - 1 then 0 else sta);
              Some (s\<lparr>USART_RX_BUF := buf, USART_RX_STA := sta\<rparr>)
            }
          else Some s
      | IDLE ndtr \<Rightarrow>
          let cnt = of_nat USART_REC_LEN - ucast ndtr
          in Some (s\<lparr>g_usart1_recveive_cnt := cnt, g_usart1_receive_stat := (if cnt > 0 then 1 else 0)\<rparr>))"

fun receive_all :: "usart1_event list \<Rightarrow> usart1 \<Rightarrow> usart1 option" where
  "receive_all [] s = Some s"
| "receive_all (ev # evs) s = do { s \<leftarrow> USART1_IRQHandler ev s; receive_all evs s }"

section \<open>Sending\<close>

text \<open>\<open>for (t = 0; t < len; t++)\<close> with an 8-bit \<open>t\<close> and a 32-bit \<open>len\<close>: the bytes sent.\<close>

partial_function (option) Usart1_Send_loop :: "u8 list \<Rightarrow> u32 \<Rightarrow> u8 \<Rightarrow> u8 list \<Rightarrow> u8 list option" where
  "Usart1_Send_loop buf len t sent_bytes =
     (if ucast t < len then
        Option.bind (rd buf (unat t)) (\<lambda>x. Usart1_Send_loop buf len (t + 1) (sent_bytes @ [x]))
      else Some sent_bytes)"

definition Usart1_Send :: "u8 list \<Rightarrow> u32 \<Rightarrow> u8 list option" where
  "Usart1_Send buf len = Usart1_Send_loop buf len 0 []"

section \<open>Log\<close>

definition get_level_str :: "int \<Rightarrow> string" where
  "get_level_str level =
     (if level = 0 then ''quiet'' else if level = 1 then ''debug'' else if level = 2 then ''verbose''
      else if level = 3 then ''info'' else if level = 4 then ''warning'' else if level = 5 then ''error''
      else if level = 6 then ''fatal'' else if level = 7 then ''panic'' else '''')"

record 'w log_state =
  log_world :: 'w
  log_heap :: mallco_dev
  log_out :: "string list"
  sw_log_level :: int
  log_stack_time :: Time_Def

definition LOG_MAX_OUTPUT_LEN :: nat where "LOG_MAX_OUTPUT_LEN = 1024"

text \<open>\<open>%02x\<close>, and the prefix of a message; \<open>snprintf\<close> keeps room for the final NUL.\<close>

definition hex_digit :: "nat \<Rightarrow> char" where
  "hex_digit n = ''0123456789abcdef'' ! n"

definition hex2 :: "u8 \<Rightarrow> string" where
  "hex2 x = [hex_digit (unat x div 16), hex_digit (unat x mod 16)]"

definition log_prefix :: "Time_Def \<Rightarrow> string \<Rightarrow> int \<Rightarrow> string \<Rightarrow> string" where
  "log_prefix t module level fmt =
     ''['' @ hex2 (t_year t) @ ''-'' @ hex2 (t_month t) @ ''-'' @ hex2 (t_day t) @ '':'' @ hex2 (t_hour t) @ '':'' @
     hex2 (t_minute t) @ '':'' @ hex2 (t_second t) @ '']-['' @ module @ '']-'' @ get_level_str level @ '': '' @ fmt"

text \<open>
  \<open>vl\<close> is what formatting with the arguments of the call makes of a format string. A null pointer
  from the pool is written through unless the message is dropped.
\<close>

definition sw_log_default_callback ::
    "'w board \<Rightarrow> string \<Rightarrow> int \<Rightarrow> string \<Rightarrow> (string \<Rightarrow> string) \<Rightarrow> 'w log_state \<Rightarrow> 'w log_state option" where
  "sw_log_default_callback b module level fmt vl s = do {
     (fmt_buf, dev) \<leftarrow> mymalloc (log_heap s) SRAMEX LOG_MAX_OUTPUT_LEN;
     (msg_buf, dev) \<leftarrow> mymalloc dev SRAMEX LOG_MAX_OUTPUT_LEN;
     let release = (\<lambda>dev. do { dev \<leftarrow> myfree dev SRAMEX fmt_buf; myfree dev SRAMEX msg_buf });
     if level > sw_log_level s then do { dev \<leftarrow> release dev; Some (s\<lparr>log_heap := dev\<rparr>) }
     else do {
       let (ok, t, w) = RTC_ReadDate b (log_stack_time s) (log_world s);
       let s = s\<lparr>log_world := w\<rparr>;
       if \<not> ok then do {
         dev \<leftarrow> release dev;
         Some (s\<lparr>log_heap := dev, log_out := log_out s @ [''SD3078 Can'' @ [CHR 0x27] @ ''t work success'' @ [CHR 0x0D, CHR 0x0A]]\<rparr>)
       }
       else if fmt_buf = 0 \<or> msg_buf = 0 then None
       else do {
         let fmt_text = take (LOG_MAX_OUTPUT_LEN - 1) (log_prefix t module level fmt);
         let msg = take (LOG_MAX_OUTPUT_LEN - 1) (vl fmt_text);
         dev \<leftarrow> release dev;
         Some (s\<lparr>log_heap := dev, log_out := log_out s @ [msg]\<rparr>)
       }
     }
   }"

definition sw_vlog :: "'w board \<Rightarrow> string \<Rightarrow> int \<Rightarrow> string \<Rightarrow> (string \<Rightarrow> string) \<Rightarrow> 'w log_state \<Rightarrow> 'w log_state option" where
  "sw_vlog b module level fmt vl s = sw_log_default_callback b module level fmt vl s"

definition sw_log :: "'w board \<Rightarrow> string \<Rightarrow> int \<Rightarrow> string \<Rightarrow> (string \<Rightarrow> string) \<Rightarrow> 'w log_state \<Rightarrow> 'w log_state option" where
  "sw_log b module level fmt vl s = sw_vlog b module level fmt vl s"

definition sw_log_get_level :: "'w log_state \<Rightarrow> int" where
  "sw_log_get_level s = sw_log_level s"

definition sw_log_set_level :: "int \<Rightarrow> 'w log_state \<Rightarrow> 'w log_state" where
  "sw_log_set_level level s = s\<lparr>sw_log_level := level\<rparr>"

section \<open>Lines\<close>

text \<open>The number of bytes collected stays below the length of the buffer, so no byte is written past it.\<close>

definition rx_ok :: "usart1 \<Rightarrow> bool" where
  "rx_ok s \<longleftrightarrow> length (USART_RX_BUF s) = USART_REC_LEN \<and> unat (USART_RX_STA s AND 0x3FFF) < USART_REC_LEN \<and>
     (USART_RX_STA s AND 0x8000 = 0 \<and> USART_RX_STA s AND 0x4000 = 0 \<longrightarrow> USART_RX_STA s AND 0x3FFF = USART_RX_STA s)"

lemma masks:
  fixes x :: u16
  shows "(x OR 0x4000) AND 0x3FFF = x AND 0x3FFF" "(x OR 0x8000) AND 0x3FFF = x AND 0x3FFF"
    "(x OR 0x4000) AND 0x4000 \<noteq> 0" "(x OR 0x8000) AND 0x8000 \<noteq> 0"
proof -
  have "bit ((x OR 0x4000) AND 0x4000) 14" "bit ((x OR 0x8000) AND 0x8000) 15" by (simp_all add: bit_simps)
  then show "(x OR 0x4000) AND 0x4000 \<noteq> 0" "(x OR 0x8000) AND 0x8000 \<noteq> 0" by auto
  have "(0x4000 AND 0x3FFF :: u16) = 0" "(0x8000 AND 0x3FFF :: u16) = 0" by simp_all
  then show "(x OR 0x4000) AND 0x3FFF = x AND 0x3FFF" "(x OR 0x8000) AND 0x3FFF = x AND 0x3FFF"
    by (simp_all add: bit.conj_disj_distrib2)
qed

lemma and_bit_eq_0: "\<not> bit x n \<Longrightarrow> x AND push_bit n 1 = (0 :: u16)"
  by (rule bit_word_eqI) (auto simp: bit_simps)

lemma small_sta:
  assumes "n < 200"
  shows "(of_nat n :: u16) AND 0x3FFF = of_nat n" "(of_nat n :: u16) AND 0x4000 = 0" "(of_nat n :: u16) AND 0x8000 = 0"
proof -
  have m: "(0x3FFF :: u16) = mask 14" by (simp add: mask_eq_exp_minus_1)
  have n: "unat (of_nat n :: u16) = n" using assms by simp
  have "unat (take_bit 14 (of_nat n :: u16)) = n"
    unfolding unsigned_take_bit_eq n using assms by (simp add: take_bit_eq_mod)
  then have t: "take_bit 14 (of_nat n :: u16) = of_nat n" by (metis n word_unat_eq_iff)
  then show "(of_nat n :: u16) AND 0x3FFF = of_nat n" by (simp only: m flip: take_bit_eq_mask)
  have "\<not> bit (take_bit 14 (of_nat n :: u16)) 14" "\<not> bit (take_bit 14 (of_nat n :: u16)) 15" by (simp_all add: bit_simps)
  then have b: "\<not> bit (of_nat n :: u16) 14" "\<not> bit (of_nat n :: u16) 15" unfolding t .
  have "push_bit 14 1 = (0x4000 :: u16)" "push_bit 15 1 = (0x8000 :: u16)" by (simp_all add: push_bit_eq_mult)
  then show "(of_nat n :: u16) AND 0x4000 = 0" "(of_nat n :: u16) AND 0x8000 = 0"
    using and_bit_eq_0 [OF b(1)] and_bit_eq_0 [OF b(2)] by simp_all
qed

lemma rx_step:
  assumes "rx_ok s"
  shows "\<exists>s'. USART1_IRQHandler ev s = Some s' \<and> rx_ok s'"
proof (cases ev)
  case (IDLE n)
  then show ?thesis using assms by (simp add: USART1_IRQHandler_def Let_def rx_ok_def)
next
  case (RXNE r)
  have l: "length (USART_RX_BUF s) = 200" "unat (USART_RX_STA s AND 0x3FFF) < 200"
    using assms by (simp_all add: rx_ok_def USART_REC_LEN_def)
  show ?thesis
  proof (cases "USART_RX_STA s AND 0x8000 = 0 \<and> USART_RX_STA s AND 0x4000 = 0 \<and> r \<noteq> 0x0d")
    case False
    then show ?thesis using assms RXNE by (auto simp: USART1_IRQHandler_def rx_ok_def masks USART_REC_LEN_def)
  next
    case True
    then have e: "USART_RX_STA s AND 0x3FFF = USART_RX_STA s" using assms by (simp add: rx_ok_def)
    then have u: "unat (USART_RX_STA s) < 200" using l(2) by simp
    then have p: "unat (USART_RX_STA s + 1) = unat (USART_RX_STA s) + 1" by (simp add: unat_word_ariths)
    define sta where "sta = (if unat (USART_RX_STA s + 1) > 199 then 0 else USART_RX_STA s + 1)"
    have st: "sta = of_nat (unat sta)" "unat sta < 200" using p u by (auto simp: sta_def)
    note small_sta [OF st(2), folded st(1)]
    then show ?thesis
      using RXNE True u l e by (simp add: USART1_IRQHandler_def rx_ok_def USART_REC_LEN_def wr_def Let_def st(2) flip: sta_def)
  qed
qed

lemma receive_all_ok: "rx_ok s \<Longrightarrow> \<exists>s'. receive_all evs s = Some s' \<and> rx_ok s'"
proof (induction evs arbitrary: s)
  case (Cons ev evs)
  then show ?case using rx_step [OF Cons.prems, of ev] by fastforce
qed simp

lemma receive_all_append:
  "receive_all (xs @ ys) s = Option.bind (receive_all xs s) (receive_all ys)"
  by (induction xs arbitrary: s) (auto split: bind_splits)

lemma rx_byte:
  assumes "length (USART_RX_BUF s) = 200" and "USART_RX_STA s = of_nat n" and "Suc n < 200" and "c \<noteq> 0x0D"
  shows "USART1_IRQHandler (RXNE c) s = Some (s\<lparr>USART_RX_BUF := (USART_RX_BUF s)[n := c], USART_RX_STA := of_nat (Suc n)\<rparr>)"
proof -
  have n: "n < 200" using assms(3) by simp
  have "unat (of_nat n :: u16) = n" using n by simp
  moreover have "(of_nat n + 1 :: u16) = of_nat (Suc n)" by simp
  moreover have "unat (of_nat (Suc n) :: u16) = Suc n" by (rule unat_of_nat_small) (use assms(3) in simp)
  ultimately show ?thesis
    using small_sta [OF n] assms
    by (simp add: USART1_IRQHandler_def wr_def USART_REC_LEN_def Let_def del: of_nat_Suc)
qed

lemma receive_line:
  assumes "length (USART_RX_BUF s) = 200" and "USART_RX_STA s = 0" and "0x0D \<notin> set line" and "length line < 200"
  shows "receive_all (map RXNE line) s =
    Some (s\<lparr>USART_RX_BUF := line @ drop (length line) (USART_RX_BUF s), USART_RX_STA := of_nat (length line)\<rparr>)"
  using assms(3,4)
proof (induction line rule: rev_induct)
  case Nil
  then show ?case using assms(2) by (cases s) simp
next
  case (snoc c line)
  let ?s = "s\<lparr>USART_RX_BUF := line @ drop (length line) (USART_RX_BUF s), USART_RX_STA := of_nat (length line)\<rparr>"
  have "(line @ drop (length line) (USART_RX_BUF s))[length line := c] = (line @ [c]) @ drop (Suc (length line)) (USART_RX_BUF s)"
    using snoc.prems assms(1) by (simp add: list_update_append Cons_nth_drop_Suc [symmetric])
  moreover have "USART1_IRQHandler (RXNE c) ?s = Some (?s\<lparr>USART_RX_BUF := (USART_RX_BUF ?s)[length line := c],
      USART_RX_STA := of_nat (Suc (length line))\<rparr>)"
    using snoc.prems assms(1) by (intro rx_byte) auto
  ultimately show ?case using snoc by (simp add: receive_all_append del: of_nat_Suc)
qed

lemma receive_line_end:
  assumes "length (USART_RX_BUF s) = 200" and "USART_RX_STA s = 0" and "0x0D \<notin> set line" and "length line < 200"
  shows "receive_all (map RXNE (line @ [0x0D, 0x0A])) s =
    Some (s\<lparr>USART_RX_BUF := line @ drop (length line) (USART_RX_BUF s),
      USART_RX_STA := (of_nat (length line) OR 0x4000) OR 0x8000\<rparr>)"
proof -
  have "(of_nat (length line) OR 0x4000) AND 0x8000 = (0 :: u16)"
    using small_sta(3) [OF assms(4)] by (simp add: bit.conj_disj_distrib2)
  then show ?thesis
    using small_sta [OF assms(4)] masks(3)
    by (simp only: map_append receive_all_append receive_line [OF assms]) (simp add: USART1_IRQHandler_def)
qed

section \<open>The transmit loop\<close>

text \<open>Up to 255 bytes are sent; the 8-bit counter never reaches a larger length, and the loop runs round the first 256 bytes for ever.\<close>

lemma send_loop_ok:
  assumes "len < 256" and "len \<le> length buf" and "k \<le> len"
  shows "Usart1_Send_loop buf (of_nat len) (of_nat k) out = Some (out @ drop k (take len buf))"
  using assms(3)
proof (induction "len - k" arbitrary: k out)
  case 0
  then show ?case using assms by (subst Usart1_Send_loop.simps) (simp add: word_less_nat_alt unat_ucast_up)
next
  case (Suc d)
  then have k: "k < len" by simp
  then have u: "unat (of_nat k :: u8) = k" "unat (ucast (of_nat k :: u8) :: u32) = k"
    using assms(1) by (simp_all add: unat_ucast_up)
  have "drop k (take len buf) = buf ! k # drop (Suc k) (take len buf)"
    using k assms(2) by (simp add: Cons_nth_drop_Suc [symmetric])
  moreover have "Usart1_Send_loop buf (of_nat len) (of_nat (Suc k)) (out @ [buf ! k]) =
      Some ((out @ [buf ! k]) @ drop (Suc k) (take len buf))"
    using Suc k by (intro Suc.hyps(1)) simp_all
  moreover have "rd buf (unat (of_nat k :: u8)) = Some (buf ! k)" using k assms(2) u(1) by (simp add: rd_def)
  moreover have "(ucast (of_nat k :: u8) :: u32) < of_nat len" using k assms(1) u(2) by (simp add: word_less_nat_alt)
  moreover have "(of_nat k + 1 :: u8) = of_nat (Suc k)" by simp
  ultimately show ?case by (subst Usart1_Send_loop.simps) (simp del: of_nat_Suc)
qed

lemma Usart1_Send_ok: "\<lbrakk>len < 256; len \<le> length buf\<rbrakk> \<Longrightarrow> Usart1_Send buf (of_nat len) = Some (take len buf)"
  using send_loop_ok [of len buf 0 "[]"] by (simp add: Usart1_Send_def)

lemma send_loop_forever:
  "Usart1_Send_loop buf len t out = Some r \<Longrightarrow> unat len < 256"
proof (rule Usart1_Send_loop.raw_induct [where P = "\<lambda>buf len t out r. unat len < 256"])
  fix loop :: "u8 list \<Rightarrow> u32 \<Rightarrow> u8 \<Rightarrow> u8 list \<Rightarrow> u8 list option" and buf and len :: u32 and t :: u8 and out r
  assume ih: "\<And>buf len t out r. loop buf len t out = Some r \<Longrightarrow> unat len < 256"
    and eq: "(if ucast t < len then Option.bind (rd buf (unat t)) (\<lambda>x. loop buf len (t + 1) (out @ [x])) else Some out) = Some r"
  show "unat len < 256"
  proof (cases "(ucast t :: u32) < len")
    case True
    then show ?thesis using eq by (auto split: bind_splits dest: ih)
  next
    case False
    then have "unat len \<le> unat (ucast t :: u32)" by (simp add: word_less_nat_alt)
    also have "\<dots> < 256" using unsigned_less [of t, where 'a = nat] by (simp add: unat_ucast_up)
    finally show ?thesis .
  qed
qed

lemma Usart1_Send_None: "256 \<le> unat len \<Longrightarrow> Usart1_Send buf len = None"
  using send_loop_forever [of buf len 0 "[]"] by (cases "Usart1_Send buf len") (auto simp: Usart1_Send_def)

section \<open>The buffers of the log\<close>

text \<open>
  With the pool in order and room for two buffers, a message leaves exactly the allocations it found,
  whether it is printed, dropped for its level, or the clock does not answer.
\<close>

definition pool_base_ok :: "mallco_dev \<Rightarrow> bool" where
  "pool_base_ok dev \<longleftrightarrow> membase dev ! SRAMEX = 0x68000000"

lemma two_buffers:
  assumes p: "pool_ok dev SRAMEX A" "pool_base_ok dev" and f: "free_run (memmap dev ! SRAMEX) k 64"
  shows "\<exists>p1 p2 dev1 dev2 dev3 dev4. mymalloc dev SRAMEX LOG_MAX_OUTPUT_LEN = Some (p1, dev1) \<and>
    mymalloc dev1 SRAMEX LOG_MAX_OUTPUT_LEN = Some (p2, dev2) \<and> p1 \<noteq> 0 \<and> p2 \<noteq> 0 \<and>
    myfree dev2 SRAMEX p1 = Some dev3 \<and> myfree dev3 SRAMEX p2 = Some dev4 \<and> pool_ok dev4 SRAMEX A \<and> pool_base_ok dev4"
proof -
  have n: "0 < LOG_MAX_OUTPUT_LEN" "free_run (memmap dev ! SRAMEX) k (2 * blocks LOG_MAX_OUTPUT_LEN)"
    using f by (simp_all add: blocks_def LOG_MAX_OUTPUT_LEN_def)
  have "pool_at SRAMEX 0x68000000 dev A" using p by (simp add: pool_at_def pool_base_ok_def)
  from external.borrow_two [OF this n] show ?thesis by (simp add: pool_at_def pool_base_ok_def)
qed

definition log_line :: "bool \<Rightarrow> Time_Def \<Rightarrow> string \<Rightarrow> int \<Rightarrow> string \<Rightarrow> (string \<Rightarrow> string) \<Rightarrow> string" where
  "log_line ok t module level fmt vl =
     (if ok then take 1023 (vl (take 1023 (log_prefix t module level fmt))) else ''SD3078 Can'' @ [CHR 0x27] @ ''t work success'' @ [CHR 0x0D, CHR 0x0A])"

lemma sw_log_ok:
  assumes p: "pool_ok (log_heap s) SRAMEX A" "pool_base_ok (log_heap s)" and f: "free_run (memmap (log_heap s) ! SRAMEX) k 64"
    and r: "RTC_ReadDate b (log_stack_time s) (log_world s) = (ok, t, w)"
  shows "\<exists>s'. sw_log b module level fmt vl s = Some s' \<and> pool_ok (log_heap s') SRAMEX A \<and> pool_base_ok (log_heap s') \<and>
    log_out s' = (if level > sw_log_level s then log_out s else log_out s @ [log_line ok t module level fmt vl])"
proof -
  from two_buffers [OF p f] obtain p1 p2 dev1 dev2 dev3 dev4 where m:
    "mymalloc (log_heap s) SRAMEX LOG_MAX_OUTPUT_LEN = Some (p1, dev1)" "mymalloc dev1 SRAMEX LOG_MAX_OUTPUT_LEN = Some (p2, dev2)"
    "p1 \<noteq> 0" "p2 \<noteq> 0" "myfree dev2 SRAMEX p1 = Some dev3" "myfree dev3 SRAMEX p2 = Some dev4"
    and q: "pool_ok dev4 SRAMEX A" "pool_base_ok dev4" by blast
  have max: "LOG_MAX_OUTPUT_LEN - Suc 0 = 1023" by (simp add: LOG_MAX_OUTPUT_LEN_def)
  show ?thesis
    using q by (simp add: sw_log_def sw_vlog_def sw_log_default_callback_def m r Let_def log_line_def max)
qed

end
