(* ===== verification/Pictures.thy ===== *)
theory Pictures
  imports Modem Console
begin

text \<open>
  FATFS/picture.c: where pictures are kept on the SD card. A picture lies in a folder for its year,
  month, day and hour, made on the way, and on the first of a month the folder of the month before
  the last one is deleted. The file system is a parameter: \<open>mkdir\<close> tells whether the folder exists
  afterwards (FR_OK or FR_EXIST), \<open>deldir\<close> whether a folder could be deleted.
\<close>

section \<open>Names\<close>

definition BCDToString :: "u8 \<Rightarrow> u8 list" where
  "BCDToString bcd_data = map (\<lambda>i. (drop_bit (4 * (2 - 1 - i)) bcd_data AND 0x0f) + 0x30) [0, 1]"

text \<open>\<open>%02d\<close> and \<open>%02x\<close>.\<close>

definition dec2 :: "nat \<Rightarrow> u8 list" where
  "dec2 n = (if n < 10 then 0x30 # decimal n else decimal n)"

definition hexa2 :: "u8 \<Rightarrow> u8 list" where
  "hexa2 x = bytes (hex2 x)"

definition directory_path :: "Time_Def \<Rightarrow> u8 list" where
  "directory_path t = BCDToString (t_year t) @ bytes ''/'' @ BCDToString (t_month t) @ bytes ''/'' @
     BCDToString (t_day t) @ bytes ''/'' @ BCDToString (t_hour t)"

definition picture_name :: "Time_Def \<Rightarrow> u8 list" where
  "picture_name t = BCDToString (t_year t) @ BCDToString (t_month t) @ BCDToString (t_day t) @ bytes ''-'' @
     BCDToString (t_hour t) @ BCDToString (t_minute t) @ BCDToString (t_second t) @ bytes ''.jpg''"

definition picture_path :: "Time_Def \<Rightarrow> u8 list" where
  "picture_path t = bytes ''0:'' @ directory_path t @ bytes ''/'' @ picture_name t"

section \<open>Folders\<close>

definition delete_first_folder :: "(u8 list \<Rightarrow> 'w \<Rightarrow> bool \<times> 'w) \<Rightarrow> Time_Def \<Rightarrow> 'w \<Rightarrow> bool \<times> 'w" where
  "delete_first_folder deldir t w =
     (if t_month t = 0x01 then
        let date = (t_year t AND 0x0f) + (drop_bit 4 (t_year t) AND 0x0f) * 10; date = date - 1
        in deldir (bytes ''0:'' @ dec2 (unat date) @ bytes ''/11'') w
      else if t_month t = 0x02 then
        let date = drop_bit 4 (t_year t) * 10 + (t_year t AND 0x0f); date = date - 1
        in deldir (bytes ''0:'' @ dec2 (unat date) @ bytes ''/12'') w
      else
        let date = drop_bit 4 (t_month t) * 10 + (t_month t AND 0x0f); date = date - 2
        in deldir (bytes ''0:'' @ hexa2 (t_year t) @ bytes ''/'' @ dec2 (unat date)) w)"

fun make_folders :: "(u8 list \<Rightarrow> 'w \<Rightarrow> bool \<times> 'w) \<Rightarrow> u8 list \<Rightarrow> nat list \<Rightarrow> 'w \<Rightarrow> bool \<times> 'w" where
  "make_folders mkdir dir [] w = (True, w)"
| "make_folders mkdir dir (i # is) w =
     (let (ok, w) = mkdir (take (3 * i + 2) dir) w in if ok then make_folders mkdir dir is w else (False, w))"

text \<open>\<open>execute_flag\<close> is the static variable; the path is written only when every folder is there.\<close>

definition create_directory ::
    "'w board \<Rightarrow> (u8 list \<Rightarrow> 'w \<Rightarrow> bool \<times> 'w) \<Rightarrow> (u8 list \<Rightarrow> 'w \<Rightarrow> bool \<times> 'w) \<Rightarrow> Time_Def \<Rightarrow> u8 \<Rightarrow> 'w \<Rightarrow>
     u8 list option \<times> u8 \<times> 'w" where
  "create_directory b mkdir deldir junk execute_flag w =
     (let (_, t, w) = RTC_ReadDate b junk w;
          (flag, w) = (if t_day t = 0x01 \<and> execute_flag = 0 then (1, snd (delete_first_folder deldir t w))
             else if t_day t = 0x02 then (0, w) else (execute_flag, w));
          (ok, w) = make_folders mkdir (directory_path t) [0, 1, 2, 3] w
      in (if ok then Some (picture_path t) else None, flag, w))"

section \<open>The older scheme\<close>

text \<open>For a day that is none of the week the buffer \<open>a\<close> is printed uninitialised.\<close>

definition getcontent :: "u8 \<Rightarrow> u8 \<Rightarrow> u8 list option" where
  "getcontent day hour = do {
     a \<leftarrow> (if day = 1 then Some ''Mon'' else if day = 2 then Some ''Tues'' else if day = 3 then Some ''Wed''
          else if day = 4 then Some ''Thurs'' else if day = 5 then Some ''Fri'' else if day = 6 then Some ''Sat''
          else if day = 7 then Some ''Sun'' else None);
     Some (bytes ''0:PICTURE/'' @ bytes a @ bytes ''/'' @ decimal (unat hour))
   }"

definition getcontent_bynum :: "u32 \<Rightarrow> u8 list option" where
  "getcontent_bynum pic_num =
     (let day = ucast (pic_num div 288 + 1); hour = ucast ((pic_num mod 288 - 1) div 12) in getcontent day hour)"

section \<open>A picture has a place of its own\<close>

lemma length_BCDToString [simp]: "length (BCDToString x) = 2"
  by (simp add: BCDToString_def)

lemma BCDToString_inj: "BCDToString x = BCDToString y \<longleftrightarrow> x = y"
proof
  assume a: "BCDToString x = BCDToString y"
  have m: "(0x0f :: u8) = mask 4" by (simp add: mask_eq_exp_minus_1)
  from a have n: "drop_bit 4 x AND mask 4 = drop_bit 4 y AND mask 4" "x AND mask 4 = y AND mask 4"
    by (simp_all add: BCDToString_def m)
  show "x = y"
  proof (rule bit_word_eqI)
    fix k assume "k < LENGTH(8)"
    moreover from this have "k - 4 < 4" by simp
    ultimately show "bit x k = bit y k"
      using arg_cong [OF n(1), of "\<lambda>w. bit w (k - 4)"] arg_cong [OF n(2), of "\<lambda>w. bit w k"]
      by (cases "k < 4") (simp_all add: bit_simps)
  qed
qed simp

lemma picture_path_inj:
  assumes "picture_path t = picture_path t'"
  shows "t_year t = t_year t' \<and> t_month t = t_month t' \<and> t_day t = t_day t' \<and> t_hour t = t_hour t' \<and>
    t_minute t = t_minute t' \<and> t_second t = t_second t'"
proof -
  have "length (directory_path t) = length (directory_path t')" by (simp add: directory_path_def)
  then have "picture_name t = picture_name t'" using assms by (simp add: picture_path_def)
  then show ?thesis by (simp add: picture_name_def BCDToString_inj)
qed

text \<open>The folder of a month, and the months in which pictures are two months older.\<close>

definition month_folder :: "nat \<Rightarrow> nat \<Rightarrow> u8 list" where
  "month_folder y m = BCDToString (of_nat (bcd2 y)) @ bytes ''/'' @ BCDToString (of_nat (bcd2 m))"

definition two_months_before :: "nat \<Rightarrow> nat \<Rightarrow> nat \<times> nat" where
  "two_months_before y m = (if m \<le> 2 then (y - 1, m + 10) else (y, m - 2))"

lemma two_digits_table:
  "\<forall>n \<in> set [0..<100]. dec2 n = BCDToString (of_nat (bcd2 n)) \<and> hexa2 (of_nat (bcd2 n)) = BCDToString (of_nat (bcd2 n))"
  by code_simp

lemma two_digits:
  assumes "n < 100"
  shows "dec2 n = BCDToString (of_nat (bcd2 n))" "hexa2 (of_nat (bcd2 n)) = BCDToString (of_nat (bcd2 n))"
  using two_digits_table assms by simp_all

lemma make_folders_ok:
  assumes "\<And>p w. mkdir p w = (True, made p w)"
  shows "make_folders mkdir dir is w = (True, fold (\<lambda>i. made (take (3 * i + 2) dir)) is w)"
  by (induction "is" arbitrary: w) (simp_all add: assms)

text \<open>The arithmetic on the BCD month and year, for the dates a clock can show.\<close>

lemma months_table:
  "\<forall>m \<in> set [1..<13]. (of_nat (bcd2 m) = (1 :: u8) \<longleftrightarrow> m = 1) \<and> (of_nat (bcd2 m) = (2 :: u8) \<longleftrightarrow> m = 2) \<and>
     (2 < m \<longrightarrow> unat (drop_bit 4 (of_nat (bcd2 m) :: u8) * 10 + (of_nat (bcd2 m) AND 0x0f) - 2) = m - 2)"
  by code_simp

lemma years_table:
  "\<forall>y \<in> set [1..<100]. unat ((of_nat (bcd2 y) AND 0x0f) + (drop_bit 4 (of_nat (bcd2 y) :: u8) AND 0x0f) * 10 - 1) = y - 1 \<and>
     unat (drop_bit 4 (of_nat (bcd2 y) :: u8) * 10 + (of_nat (bcd2 y) AND 0x0f) - 1) = y - 1"
  by code_simp

lemma delete_first_folder_ok:
  assumes "1 \<le> m" and "m \<le> 12" and "y < 100" and "0 < y \<or> 2 < m"
    and t: "t_year t = of_nat (bcd2 y)" "t_month t = of_nat (bcd2 m)"
  shows "delete_first_folder deldir t w = deldir (bytes ''0:'' @ case_prod month_folder (two_months_before y m)) w"
proof -
  have m: "(of_nat (bcd2 m) = (1 :: u8) \<longleftrightarrow> m = 1) \<and> (of_nat (bcd2 m) = (2 :: u8) \<longleftrightarrow> m = 2) \<and>
     (2 < m \<longrightarrow> unat (drop_bit 4 (of_nat (bcd2 m) :: u8) * 10 + (of_nat (bcd2 m) AND 0x0f) - 2) = m - 2)"
    using months_table assms(1,2) by (simp only: set_upt atLeastLessThan_iff) simp
  have "bytes ''/11'' = bytes ''/'' @ BCDToString (of_nat (bcd2 11))" "bytes ''/12'' = bytes ''/'' @ BCDToString (of_nat (bcd2 12))"
    by code_simp+
  note d = this two_digits
  consider "m = 1" | "m = 2" | "2 < m" using assms(1) by linarith
  then show ?thesis
  proof cases
    case 1
    then have "unat ((of_nat (bcd2 y) AND 0x0f) + (drop_bit 4 (of_nat (bcd2 y) :: u8) AND 0x0f) * 10 - 1) = y - 1"
      using years_table assms(3,4) by (simp only: set_upt atLeastLessThan_iff) simp
    moreover have "dec2 (y - 1) = BCDToString (of_nat (bcd2 (y - 1)))" using two_digits(1) assms(3) by simp
    ultimately show ?thesis using 1 m d(1) unfolding delete_first_folder_def t two_months_before_def month_folder_def
      by (simp only: Let_def) simp
  next
    case 2
    then have "unat (drop_bit 4 (of_nat (bcd2 y) :: u8) * 10 + (of_nat (bcd2 y) AND 0x0f) - 1) = y - 1"
      using years_table assms(3,4) by (simp only: set_upt atLeastLessThan_iff) simp
    moreover have "dec2 (y - 1) = BCDToString (of_nat (bcd2 (y - 1)))" using two_digits(1) assms(3) by simp
    ultimately show ?thesis using 2 m d(2) unfolding delete_first_folder_def t two_months_before_def month_folder_def
      by (simp only: Let_def) simp
  next
    case 3
    then have "of_nat (bcd2 m) \<noteq> (1 :: u8)" "of_nat (bcd2 m) \<noteq> (2 :: u8)"
      "unat (drop_bit 4 (of_nat (bcd2 m) :: u8) * 10 + (of_nat (bcd2 m) AND 0x0f) - 2) = m - 2" using m by simp_all
    moreover have "dec2 (m - 2) = BCDToString (of_nat (bcd2 (m - 2)))" using two_digits(1) assms(2) by simp
    ultimately show ?thesis using 3 two_digits(2) [OF assms(3)]
      unfolding delete_first_folder_def t two_months_before_def month_folder_def by simp
  qed
qed

end
