(* ===== verification/Ftp.thy ===== *)
theory Ftp
  imports Pictures
begin

text \<open>
  FTP/ftpd.c: the server to which the camera sends its pictures. A session is a block of the internal
  pool, every request borrows a buffer there. Sockets, the SD card and the Ethernet chip are
  parameters (\<open>'w stack\<close>); printf is left out. Texts are lists of bytes without their final NUL. What the
  code reads uninitialised (the answers to RETR and DELE, a missing parameter) is \<open>None\<close>.
\<close>

section \<open>State\<close>

record ftp_session =
  is_anonymous :: u8
  sockfd :: int
  remote :: u32
  pasv_active :: u8
  pasv_sockfd :: int
  pasv_port :: u16
  offset :: int
  currentdir :: "u8 list"

text \<open>\<open>sessions\<close> is the list that starts at \<open>session_list\<close>: the block of each session and what it holds.\<close>

record 'w ftp =
  f_world :: 'w
  f_heap :: mallco_dev
  sessions :: "(u32 \<times> ftp_session) list"
  filename :: "u8 list"
  g_picture_count :: u8
  g_save_picture_flag :: u8
  Figure_num :: u32
  execute_flag :: u8

text \<open>
  The calls into LWIP, FatFs and the Ethernet driver. A bool tells whether a call succeeded (for
  \<open>n_ready\<close>, whether data arrived within three seconds; for \<open>n_waiting\<close>, whether \<open>FD_ISSET\<close> holds after
  \<open>select(0, ...)\<close>); \<open>n_select\<close> waits until one of the sockets is ready and tells which are. \<open>n_recv\<close> returns \<open>None\<close> for -1 and no bytes when the peer has closed.
\<close>

record 'w stack =
  n_send :: "int \<Rightarrow> u8 list \<Rightarrow> 'w \<Rightarrow> 'w"
  n_socket :: "'w \<Rightarrow> int \<times> 'w"
  n_option :: "int \<Rightarrow> 'w \<Rightarrow> bool \<times> 'w"
  n_bind :: "int \<Rightarrow> u16 \<Rightarrow> 'w \<Rightarrow> bool \<times> 'w"
  n_listen :: "int \<Rightarrow> 'w \<Rightarrow> bool \<times> 'w"
  n_waiting :: "int \<Rightarrow> 'w \<Rightarrow> bool \<times> 'w"
  n_ready :: "int \<Rightarrow> 'w \<Rightarrow> bool \<times> 'w"
  n_select :: "int list \<Rightarrow> 'w \<Rightarrow> (int \<Rightarrow> bool) \<times> 'w"
  n_accept :: "int \<Rightarrow> 'w \<Rightarrow> int \<times> u32 \<times> 'w"
  n_recv :: "int \<Rightarrow> 'w \<Rightarrow> u8 list option \<times> 'w"
  n_connect :: "int \<Rightarrow> u8 list + u32 \<Rightarrow> u16 \<Rightarrow> 'w \<Rightarrow> bool \<times> 'w"
  n_close :: "int \<Rightarrow> 'w \<Rightarrow> 'w"
  d_mkdir :: "u8 list \<Rightarrow> 'w \<Rightarrow> bool \<times> 'w"
  d_deldir :: "u8 list \<Rightarrow> 'w \<Rightarrow> bool \<times> 'w"
  d_create :: "u8 list \<Rightarrow> 'w \<Rightarrow> 'w"
  d_write :: "u8 list \<Rightarrow> 'w \<Rightarrow> 'w"
  d_close :: "'w \<Rightarrow> 'w"
  phy_off :: "'w \<Rightarrow> 'w"

definition FTP_BUFFER_SIZE :: nat where "FTP_BUFFER_SIZE = 1024"
definition FTP_PORT :: u16 where "FTP_PORT = 21"
definition SELECT_PICTURE_COUNT :: u8 where "SELECT_PICTURE_COUNT = 2"
definition sizeof_ftp_session :: nat where "sizeof_ftp_session = 300"

section \<open>Sessions\<close>

text \<open>\<open>junk\<close> is what the block of a new session holds. A null pointer from the pool is written through.\<close>

definition ftp_new_session :: "ftp_session \<Rightarrow> 'w ftp \<Rightarrow> (u32 \<times> 'w ftp) option" where
  "ftp_new_session junk st = do {
     (p, dev) \<leftarrow> mymalloc (f_heap st) SRAMIN sizeof_ftp_session;
     if p = 0 then None else Some (p, st\<lparr>f_heap := dev, sessions := (p, junk) # sessions st\<rparr>)
   }"

text \<open>A session that is not in the list makes the search run off its end.\<close>

definition ftp_close_session :: "u32 \<Rightarrow> 'w ftp \<Rightarrow> 'w ftp option" where
  "ftp_close_session p st =
     (if p \<notin> fst ` set (sessions st) then None
      else do {
        dev \<leftarrow> myfree (f_heap st) SRAMIN p;
        Some (st\<lparr>f_heap := dev, sessions := filter (\<lambda>x. fst x \<noteq> p) (sessions st)\<rparr>)
      })"

section \<open>Texts\<close>

fun str_begin_with :: "u8 list \<Rightarrow> u8 list \<Rightarrow> int" where
  "str_begin_with src [] = 0"
| "str_begin_with [] (m # match) = - 1"
| "str_begin_with (c # src) (m # match) = (if m \<noteq> c then - 1 else str_begin_with src match)"

definition is_absolute_path :: "u8 list \<Rightarrow> bool" where
  "is_absolute_path p = (case p of [] \<Rightarrow> False | c # _ \<Rightarrow> c = 0x2F)"

text \<open>The target has 256 bytes.\<close>

definition build_full_path :: "ftp_session \<Rightarrow> u8 list \<Rightarrow> u8 list option" where
  "build_full_path session p =
     (let new_path = (if is_absolute_path p then p else currentdir session @ bytes ''/'' @ p)
      in if length new_path < 256 then Some new_path else None)"

definition ftp_get_filesize :: "u8 list \<Rightarrow> int" where
  "ftp_get_filesize name = 0"

text \<open>A request ends at the first carriage return, line feed or NUL; its parameter starts after the first space.\<close>

definition command_of :: "u8 list \<Rightarrow> u8 list" where
  "command_of buf = takeWhile (\<lambda>c. c \<noteq> 0 \<and> c \<noteq> 0x0D \<and> c \<noteq> 0x0A) buf"

definition parameter_of :: "u8 list \<Rightarrow> u8 list option" where
  "parameter_of cmd = (case dropWhile (\<lambda>c. c \<noteq> 0x20) cmd of [] \<Rightarrow> None | _ # p \<Rightarrow> Some p)"

definition quoted :: "u8 list \<Rightarrow> u8 list" where
  "quoted p = [0x22] @ p @ [0x22]"

definition answer :: "'w stack \<Rightarrow> ftp_session \<Rightarrow> u8 list \<Rightarrow> 'w ftp \<Rightarrow> 'w ftp" where
  "answer net session text st = st\<lparr>f_world := n_send net (sockfd session) (text @ crlf) (f_world st)\<rparr>"

text \<open>\<open>atoi\<close>; the result of a number that does not fit is undefined.\<close>

definition atoi :: "u8 list \<Rightarrow> int option" where
  "atoi p =
     (let p = dropWhile (\<lambda>c. c = 0x20 \<or> (0x09 \<le> c \<and> c \<le> 0x0D)) p;
          sign = (case p of c # _ \<Rightarrow> c = 0x2D | [] \<Rightarrow> False);
          p = (case p of c # cs \<Rightarrow> if c = 0x2D \<or> c = 0x2B then cs else p | [] \<Rightarrow> []);
          v = fold (\<lambda>d v. v * 10 + uint (d - 0x30)) (takeWhile (\<lambda>c. 0x30 \<le> c \<and> c \<le> 0x39) p) 0;
          v = (if sign then - v else v)
      in if - (2 ^ 31) \<le> v \<and> v < 2 ^ 31 then Some v else None)"

section \<open>Data connections\<close>

definition do_list :: "'w stack \<Rightarrow> int \<Rightarrow> 'w \<Rightarrow> 'w" where
  "do_list net fd w = n_send net fd (bytes ''-rw-r--r-- 1 admin admin 100 Jan 1 2000 enmpty_file'' @ crlf) w"

definition do_simple_list :: "'w stack \<Rightarrow> int \<Rightarrow> 'w \<Rightarrow> 'w" where
  "do_simple_list net fd w = n_send net fd (bytes ''enmpty_file'' @ crlf) w"

text \<open>Where the code jumps to \<open>err1\<close> the data socket is never 0 and in the set of waiting sockets at once, so only the
  listening socket is closed.\<close>

definition pasv_failed :: "'w stack \<Rightarrow> int \<Rightarrow> ftp_session \<Rightarrow> 'w ftp \<Rightarrow> ftp_session \<times> 'w ftp" where
  "pasv_failed net fd session st = (session\<lparr>pasv_active := 0\<rparr>, st\<lparr>f_world := n_close net fd (f_world st)\<rparr>)"

definition no_data_connection :: "u8 list" where
  "no_data_connection = bytes ''425 Can'' @ [0x27] @ bytes ''t open data connection.''"

definition ftp_pasv :: "'w stack \<Rightarrow> ftp_session \<Rightarrow> 'w ftp \<Rightarrow> ftp_session \<times> 'w ftp" where
  "ftp_pasv net session st =
     (let session = session\<lparr>pasv_port := 10000, pasv_active := 1\<rparr>;
          (fd, w) = n_socket net (f_world st); st = st\<lparr>f_world := w\<rparr>;
          refuse = (\<lambda>session st. pasv_failed net fd session (answer net session no_data_connection st))
      in if fd = - 1 then refuse session st
         else let (ok, w) = n_option net fd (f_world st); st = st\<lparr>f_world := w\<rparr>
         in if \<not> ok then refuse session st
         else let (ok, w) = n_bind net fd 10000 (f_world st); st = st\<lparr>f_world := w\<rparr>
         in if \<not> ok then refuse session st
         else let (ok, w) = n_listen net fd (f_world st); st = st\<lparr>f_world := w\<rparr>
         in if \<not> ok then refuse session st
         else let st = answer net session (bytes ''227 Entering passive mode (127,0,0,1,39,16)'') st;
                  (there, w) = n_waiting net fd (f_world st); st = st\<lparr>f_world := w\<rparr>
         in if \<not> there then pasv_failed net fd session st
         else let (com, _, w) = n_accept net fd (f_world st); st = st\<lparr>f_world := w\<rparr>; session = session\<lparr>pasv_sockfd := com\<rparr>
         in if com = - 1 then refuse session st
            else (session, st\<lparr>f_world := n_close net fd (f_world st)\<rparr>))"

text \<open>The numbers of a PORT command; a missing one is a null pointer for \<open>atoi\<close>.\<close>

definition port_separator :: "u8 \<Rightarrow> bool" where
  "port_separator c \<longleftrightarrow> c \<in> set (bytes ''.,;()'')"

fun port_numbers :: "nat \<Rightarrow> u8 list \<Rightarrow> int list option" where
  "port_numbers 0 p = Some []"
| "port_numbers (Suc n) p =
     (case dropWhile port_separator p of [] \<Rightarrow> None
      | q \<Rightarrow> do {
          v \<leftarrow> atoi (takeWhile (\<lambda>c. \<not> port_separator c) q);
          vs \<leftarrow> port_numbers n (drop 1 (dropWhile (\<lambda>c. \<not> port_separator c) q));
          Some (v # vs)
        })"

definition signed_decimal :: "int \<Rightarrow> u8 list" where
  "signed_decimal v = (if v < 0 then 0x2D # decimal (nat (- v)) else decimal (nat v))"

definition dotted :: "int list \<Rightarrow> u8 list" where
  "dotted v = signed_decimal (v ! 0) @ bytes ''.'' @ signed_decimal (v ! 1) @ bytes ''.'' @ signed_decimal (v ! 2) @
     bytes ''.'' @ signed_decimal (v ! 3)"

definition ftp_port :: "'w stack \<Rightarrow> u8 list \<Rightarrow> ftp_session \<Rightarrow> 'w ftp \<Rightarrow> (ftp_session \<times> 'w ftp) option" where
  "ftp_port net parameter session st = do {
     portcom \<leftarrow> port_numbers 6 parameter;
     let (fd, w) = n_socket net (f_world st);
     let st = st\<lparr>f_world := w\<rparr>;
     let session = session\<lparr>pasv_sockfd := fd\<rparr>;
     if fd = - 1 then
       (let st = answer net session no_data_connection st
        in Some (session\<lparr>pasv_active := 0\<rparr>, st\<lparr>f_world := n_close net fd (f_world st)\<rparr>))
     else do {
       let port = of_int (portcom ! 4 * 256 + portcom ! 5);
       let (ok, w) = n_connect net fd (Inl (dotted portcom)) port (f_world st);
       let (ok, w) = (if ok then (ok, w) else n_connect net fd (Inr (remote session)) port w);
       let st = st\<lparr>f_world := w\<rparr>;
       if \<not> ok then
         (let st = answer net session no_data_connection st
          in Some (session, st\<lparr>f_world := n_close net fd (f_world st)\<rparr>))
       else Some (session\<lparr>pasv_active := 1, pasv_port := port\<rparr>, answer net session (bytes ''200 Port Command Successful.'') st)
     }
   }"

section \<open>Receiving a picture\<close>

text \<open>
  What the loop of STOR ends with: the end of the picture or no more data, or an error of the socket. \<open>count\<close> is
  \<open>g_picture_count\<close>, \<open>started\<close> tells whether the start marker FF D8 was seen, \<open>sbuf\<close> is the buffer, which keeps what
  a shorter chunk does not overwrite. The test for the end marker of a chunk of one byte reads
  before the buffer.
\<close>

partial_function (option) store_loop ::
    "'w stack \<Rightarrow> int \<Rightarrow> int \<Rightarrow> u8 \<Rightarrow> u8 list \<Rightarrow> bool \<Rightarrow> 'w \<Rightarrow> (bool \<times> 'w) option" where
  "store_loop net com fd count sbuf started w =
     (let (there, w) = n_ready net fd w
      in if \<not> there then Some (True, w)
         else let (data, w) = n_recv net fd w
         in case data of None \<Rightarrow> Some (False, n_close net fd w)
            | Some data \<Rightarrow>
                if data = [] then Some (True, n_send net com (bytes ''226 Finished.'' @ crlf) w)
                else Option.bind (blit sbuf 0 data) (\<lambda>sbuf.
                  if sbuf ! 0 = 0xFF \<and> sbuf ! 1 = 0xD8 then
                    store_loop net com fd count sbuf True (if count = SELECT_PICTURE_COUNT then d_write net data w else w)
                  else if started then
                    let w = (if count = SELECT_PICTURE_COUNT then d_write net data w else w)
                    in if length data < 2 then None
                       else if sbuf ! (length data - 2) = 0xFF \<and> sbuf ! (length data - 1) = 0xD9 then Some (True, w)
                       else store_loop net com fd count sbuf started w
                  else store_loop net com fd count sbuf started w))"

definition stor_reply :: "u8 list \<Rightarrow> u8 list" where
  "stor_reply name = bytes ''150 Opening binary mode data connection for '' @ quoted name @ bytes ''.''"

text \<open>\<open>junk\<close> is the content of the borrowed buffer, \<open>now\<close> the uninitialised time of \<open>create_directory\<close>. After the
  second picture the result -1 makes the server close the session.\<close>

definition ftp_stor ::
    "'w board \<Rightarrow> 'w stack \<Rightarrow> u8 list \<Rightarrow> Time_Def \<Rightarrow> ftp_session \<Rightarrow> 'w ftp \<Rightarrow> (int \<times> ftp_session \<times> 'w ftp) option" where
  "ftp_stor b net junk now session st =
     (if is_anonymous session = 1 then Some (0, session, answer net session (bytes ''550 Permission denied.'') st)
      else do {
        let st = (if g_picture_count st = SELECT_PICTURE_COUNT then
            let (name, flag, w) = create_directory b (d_mkdir net) (d_deldir net) now (execute_flag st) (f_world st);
                name = (case name of None \<Rightarrow> filename st | Some name \<Rightarrow> name)
            in st\<lparr>filename := name, execute_flag := flag, f_world := d_create net name w\<rparr>
          else st);
        let st = answer net session (stor_reply (filename st)) st;
        sbuf \<leftarrow> blit junk 0 (stor_reply (filename st) @ crlf @ [0]);
        (ok, w) \<leftarrow> store_loop net (sockfd session) (pasv_sockfd session) (g_picture_count st) sbuf False (f_world st);
        if \<not> ok then Some (- 1, session, st\<lparr>f_world := w\<rparr>)
        else if g_picture_count st = SELECT_PICTURE_COUNT then
          Some (- 1, session, st\<lparr>Figure_num := Figure_num st + 1, g_picture_count := 1, g_save_picture_flag := 1,
            f_world := n_close net (pasv_sockfd session) (phy_off net (d_close net w))\<rparr>)
        else Some (0, session, st\<lparr>g_picture_count := g_picture_count st + 1, f_world := n_close net (pasv_sockfd session) w\<rparr>)
      })"

section \<open>Requests\<close>

definition list_files :: "'w stack \<Rightarrow> (int \<Rightarrow> 'w \<Rightarrow> 'w) \<Rightarrow> ftp_session \<Rightarrow> 'w ftp \<Rightarrow> ftp_session \<times> 'w ftp" where
  "list_files net files session st =
     (let st = answer net session (bytes ''150 Opening Binary mode connection for file list.'') st;
          st = st\<lparr>f_world := n_close net (pasv_sockfd session) (files (pasv_sockfd session) (f_world st))\<rparr>
      in (session\<lparr>pasv_active := 0\<rparr>, answer net session (bytes ''226 Transfert Complete.'') st))"

definition ftp_user :: "'w stack \<Rightarrow> u8 list \<Rightarrow> ftp_session \<Rightarrow> 'w ftp \<Rightarrow> int \<times> ftp_session \<times> 'w ftp" where
  "ftp_user net parameter session st =
     (if parameter = bytes ''anonymous'' then
        (0, session\<lparr>is_anonymous := 1\<rparr>,
         answer net session (bytes ''331 Anonymous login OK send e-mail address for password.'' @ parameter) st)
      else if parameter = bytes ''rtt'' then
        (0, session\<lparr>is_anonymous := 0\<rparr>, answer net session (bytes ''331 Password required for '' @ parameter) st)
      else (- 1, session, answer net session (bytes ''530 Login incorrect. Bye.'') st))"

definition ftp_pass :: "'w stack \<Rightarrow> u8 list \<Rightarrow> ftp_session \<Rightarrow> 'w ftp \<Rightarrow> int \<times> ftp_session \<times> 'w ftp" where
  "ftp_pass net parameter session st =
     (if parameter = bytes ''demo'' \<or> is_anonymous session = 1 then (0, session, answer net session (bytes ''230 User logged in'') st)
      else (- 1, session, answer net session (bytes ''530 Login or Password incorrect. Bye!'') st))"

text \<open>The commands that only look at a path. DELE answers with what the buffer happens to hold.\<close>

definition ftp_path :: "'w stack \<Rightarrow> u8 list \<Rightarrow> u8 list \<Rightarrow> ftp_session \<Rightarrow> 'w ftp \<Rightarrow> (ftp_session \<times> 'w ftp) option" where
  "ftp_path net cmd parameter session st =
     (if str_begin_with cmd (bytes ''SIZE'') = 0 then do {
        name \<leftarrow> build_full_path session parameter;
        Some (session, answer net session (bytes ''213 '' @ signed_decimal (ftp_get_filesize name)) (st\<lparr>filename := name\<rparr>))
      }
      else if str_begin_with cmd (bytes ''CWD'') = 0 then do {
        name \<leftarrow> build_full_path session parameter;
        Some (session\<lparr>currentdir := name\<rparr>,
          answer net session (bytes ''250 Changed to directory '' @ quoted name) (st\<lparr>filename := name\<rparr>))
      }
      else if is_anonymous session = 1 then Some (session, answer net session (bytes ''550 Permission denied.'') st)
      else do {
        name \<leftarrow> build_full_path session parameter;
        let st = st\<lparr>filename := name\<rparr>;
        if str_begin_with cmd (bytes ''MKD'') = 0 then
          Some (session, answer net session (bytes ''257 directory '' @ quoted name @ bytes '' successfully created.'') st)
        else if str_begin_with cmd (bytes ''DELE'') = 0 then None
        else Some (session, st)
      })"

definition ftp_cdup :: "'w stack \<Rightarrow> ftp_session \<Rightarrow> 'w ftp \<Rightarrow> (ftp_session \<times> 'w ftp) option" where
  "ftp_cdup net session st =
     (let name = currentdir session @ bytes ''/..''
      in if length name < 256 then
           Some (session\<lparr>currentdir := name\<rparr>,
             answer net session (bytes ''250 Changed to directory '' @ quoted name) (st\<lparr>filename := name\<rparr>))
         else None)"

definition ftp_rest :: "'w stack \<Rightarrow> u8 list \<Rightarrow> ftp_session \<Rightarrow> 'w ftp \<Rightarrow> (ftp_session \<times> 'w ftp) option" where
  "ftp_rest net parameter session st = do {
     v \<leftarrow> atoi parameter;
     if v \<ge> 0 then Some (session\<lparr>offset := v\<rparr>, answer net session (bytes ''350 Send RETR or STOR to start transfert.'') st)
     else Some (session, st)
   }"

text \<open>The chain of comparisons of \<open>ftp_process_request\<close>, with the buffer borrowed.\<close>

definition dispatch ::
    "'w board \<Rightarrow> 'w stack \<Rightarrow> u8 list \<Rightarrow> Time_Def \<Rightarrow> u8 list \<Rightarrow> ftp_session \<Rightarrow> 'w ftp \<Rightarrow> (int \<times> ftp_session \<times> 'w ftp) option" where
  "dispatch b net junk now cmd session st =
     (let starts = (\<lambda>name. str_begin_with cmd (bytes name) = 0);
          parameter = parameter_of cmd;
          done = (\<lambda>(session, st). Some (0, session, st));
          say = (\<lambda>text. Some (0, session, answer net session text st))
      in if starts ''USER'' then do { p \<leftarrow> parameter; Some (ftp_user net p session st) }
         else if starts ''PASS'' then do { p \<leftarrow> parameter; Some (ftp_pass net p session st) }
         else if starts ''LIST'' then done (list_files net (do_list net) session st)
         else if starts ''NLST'' then done (list_files net (do_simple_list net) session st)
         else if starts ''PWD'' \<or> starts ''XPWD'' then
           say (bytes ''257 '' @ quoted (currentdir session) @ bytes '' is current directory.'')
         else if starts ''TYPE'' then do {
           p \<leftarrow> parameter;
           say (if p = bytes ''I'' then bytes ''200 Type set to binary.'' else bytes ''200 Type set to ascii.'')
         }
         else if starts ''PASV'' then done (ftp_pasv net session st)
         else if starts ''RETR'' then None
         else if starts ''STOR'' then ftp_stor b net junk now session st
         else if starts ''SIZE'' then do { p \<leftarrow> parameter; r \<leftarrow> ftp_path net cmd p session st; done r }
         else if starts ''MDTM'' then say (bytes ''550 '' @ quoted (bytes ''/'') @ bytes '' : not a regular file'')
         else if starts ''SYST'' then say (bytes ''215 RT-Thread RTOS'')
         else if starts ''CWD'' then do { p \<leftarrow> parameter; r \<leftarrow> ftp_path net cmd p session st; done r }
         else if starts ''CDUP'' then do { r \<leftarrow> ftp_cdup net session st; done r }
         else if starts ''PORT'' then do { p \<leftarrow> parameter; r \<leftarrow> ftp_port net p session st; done r }
         else if starts ''REST'' then do { p \<leftarrow> parameter; r \<leftarrow> ftp_rest net p session st; done r }
         else if starts ''MKD'' \<or> starts ''DELE'' \<or> starts ''RMD'' then do {
           p \<leftarrow> (if is_anonymous session = 1 then Some [] else parameter);
           r \<leftarrow> ftp_path net cmd p session st;
           done r
         }
         else if starts ''QUIT'' then Some (- 1, session, answer net session (bytes ''221 Bye!'') st)
         else say (bytes ''502 Not Implemented.''))"

text \<open>Every return of the function first gives the buffer back.\<close>

definition ftp_process_request ::
    "'w board \<Rightarrow> 'w stack \<Rightarrow> u8 list \<Rightarrow> Time_Def \<Rightarrow> ftp_session \<Rightarrow> u8 list \<Rightarrow> 'w ftp \<Rightarrow> (int \<times> ftp_session \<times> 'w ftp) option" where
  "ftp_process_request b net junk now session buf st = do {
     (sbuf, dev) \<leftarrow> mymalloc (f_heap st) SRAMIN FTP_BUFFER_SIZE;
     let st = st\<lparr>f_heap := dev\<rparr>;
     if sbuf = 0 then Some (- 1, session, st)
     else do {
       (r, session, st) \<leftarrow> dispatch b net junk now (command_of buf) session st;
       dev \<leftarrow> myfree (f_heap st) SRAMIN sbuf;
       Some (r, session, st\<lparr>f_heap := dev\<rparr>)
     }
   }"

section \<open>The server\<close>

definition drop_session :: "'w stack \<Rightarrow> u32 \<Rightarrow> ftp_session \<Rightarrow> 'w ftp \<Rightarrow> 'w ftp option" where
  "drop_session net p session st = ftp_close_session p (st\<lparr>f_world := n_close net (sockfd session) (f_world st)\<rparr>)"

text \<open>A request that fills the whole buffer is ended with a NUL one byte past it.\<close>

definition serve_session ::
    "'w board \<Rightarrow> 'w stack \<Rightarrow> u8 list \<Rightarrow> Time_Def \<Rightarrow> (int \<Rightarrow> bool) \<Rightarrow> u32 \<Rightarrow> 'w ftp \<Rightarrow> 'w ftp option" where
  "serve_session b net junk now ready p st = do {
     session \<leftarrow> map_of (sessions st) p;
     if \<not> ready (sockfd session) then Some st
     else do {
       let (data, w) = n_recv net (sockfd session) (f_world st);
       let st = st\<lparr>f_world := w\<rparr>;
       (case data of None \<Rightarrow> drop_session net p session st
        | Some data \<Rightarrow>
            if data = [] then drop_session net p session st
            else if FTP_BUFFER_SIZE \<le> length data then None
            else do {
              (m, session, st) \<leftarrow> ftp_process_request b net junk now session data st;
              let st = st\<lparr>sessions := map (\<lambda>x. if fst x = p then (p, session) else x) (sessions st)\<rparr>;
              if m = - 1 then drop_session net p session st else Some st
            })
     }
   }"

fun serve_all ::
    "'w board \<Rightarrow> 'w stack \<Rightarrow> u8 list \<Rightarrow> Time_Def \<Rightarrow> (int \<Rightarrow> bool) \<Rightarrow> u32 list \<Rightarrow> 'w ftp \<Rightarrow> 'w ftp option" where
  "serve_all b net junk now ready [] st = Some st"
| "serve_all b net junk now ready (p # ps) st = do { st \<leftarrow> serve_session b net junk now ready p st; serve_all b net junk now ready ps st }"

text \<open>Before the loop: the buffer for requests and the listening socket; none without a socket. A null buffer is not noticed.\<close>

definition ftpd_thread_entry :: "'w stack \<Rightarrow> 'w ftp \<Rightarrow> ((u32 \<times> int) option \<times> 'w ftp) option" where
  "ftpd_thread_entry net st = do {
     (buffer, dev) \<leftarrow> mymalloc (f_heap st) SRAMIN FTP_BUFFER_SIZE;
     let st = st\<lparr>f_heap := dev\<rparr>;
     let (fd, w) = n_socket net (f_world st);
     if fd < 0 then Some (None, st\<lparr>f_world := w\<rparr>)
     else Some (Some (buffer, fd), st\<lparr>f_world := snd (n_listen net fd (snd (n_bind net fd FTP_PORT w)))\<rparr>)
   }"

text \<open>The datagram socket is opened and never used.\<close>

definition ftpd_start :: "'w stack \<Rightarrow> 'w ftp \<Rightarrow> ((u32 \<times> int) option \<times> 'w ftp) option" where
  "ftpd_start net st =
     (let (fd, w) = n_socket net (f_world st); w = snd (n_connect net fd (Inl (bytes ''192.168.1.1'')) 4002 w)
      in ftpd_thread_entry net (st\<lparr>f_world := w\<rparr>))"

definition greeting :: "u8 list" where
  "greeting = bytes ''220-= welcome on RT-Thread FTP server =-'' @ crlf @ bytes ''220 '' @ crlf"

definition ftpd_turn ::
    "'w board \<Rightarrow> 'w stack \<Rightarrow> int \<Rightarrow> u8 list \<Rightarrow> ftp_session \<Rightarrow> Time_Def \<Rightarrow> 'w ftp \<Rightarrow> 'w ftp option" where
  "ftpd_turn b net listener junk blank now st = do {
     let (ready, w) = n_select net (listener # map (\<lambda>x. sockfd (snd x)) (sessions st)) (f_world st);
     let st = st\<lparr>f_world := w\<rparr>;
     let serve = (\<lambda>st. serve_all b net junk now ready (map fst (sessions st)) st);
     if ready listener then
       (let (com, addr, w) = n_accept net listener (f_world st); st = st\<lparr>f_world := w\<rparr>
        in if com = - 1 then Some st
           else do {
             let st = st\<lparr>f_world := n_send net com greeting (f_world st)\<rparr>;
             (p, st) \<leftarrow> ftp_new_session blank st;
             serve (st\<lparr>sessions := map (\<lambda>x. if fst x = p
               then (p, (snd x)\<lparr>currentdir := bytes ''/'', sockfd := com, remote := addr\<rparr>) else x) (sessions st)\<rparr>)
           })
     else serve st
   }"

section \<open>The buffer of a request\<close>

lemma answer_heap [simp]: "f_heap (answer net session x st) = f_heap st"
  by (simp add: answer_def)

lemma data_heap [simp]:
  "f_heap (snd (ftp_pasv net session st)) = f_heap st" "f_heap (snd (list_files net files session st)) = f_heap st"
  "f_heap (snd (snd (ftp_user net p session st))) = f_heap st" "f_heap (snd (snd (ftp_pass net p session st))) = f_heap st"
  by (simp_all add: ftp_pasv_def pasv_failed_def list_files_def ftp_user_def ftp_pass_def Let_def split_beta)

lemma data_heap_option:
  "ftp_port net p session st = Some (session', st') \<Longrightarrow> f_heap st' = f_heap st"
  "ftp_path net cmd p session st = Some (session', st') \<Longrightarrow> f_heap st' = f_heap st"
  "ftp_cdup net session st = Some (session', st') \<Longrightarrow> f_heap st' = f_heap st"
  "ftp_rest net p session st = Some (session', st') \<Longrightarrow> f_heap st' = f_heap st"
  "ftp_stor b net junk now session st = Some (r, session', st') \<Longrightarrow> f_heap st' = f_heap st"
  by (auto simp: ftp_port_def ftp_path_def ftp_cdup_def ftp_rest_def ftp_stor_def Let_def split_beta bind_eq_Some_conv split: if_splits)

lemma dispatch_heap:
  assumes "dispatch b net junk now cmd session st = Some (r, session', st')"
  shows "f_heap st' = f_heap st"
proof -
  have p: "x = (r, session', st') \<Longrightarrow> st' = snd (snd x)" for x :: "int \<times> ftp_session \<times> 'a ftp" by simp
  have q: "ftp_pasv net session st = (session', st') \<Longrightarrow> f_heap st' = f_heap st"
    "list_files net files session st = (session', st') \<Longrightarrow> f_heap st' = f_heap st" for files
    using data_heap(1) [of net session st] data_heap(2) [of net files session st] by simp_all
  show ?thesis
    using assms
    by (auto simp: dispatch_def Let_def bind_eq_Some_conv split_beta dest: data_heap_option q dest!: p split: if_split_asm)
qed

text \<open>A session is a block of the pool from its start to its end.\<close>

lemma session_lifetime:
  assumes place: "pool_place SRAMIN base" and p: "pool_at SRAMIN base (f_heap st) A" and f: "free_run (memmap (f_heap st) ! SRAMIN) k 10"
  shows "\<exists>off st1 st2. ftp_new_session junk st = Some (block_ptr base off, st1) \<and> sessions st1 = (block_ptr base off, junk) # sessions st \<and>
    pool_at SRAMIN base (f_heap st1) (insert (off, 10) A) \<and> ftp_close_session (block_ptr base off) st1 = Some st2 \<and>
    sessions st2 = filter (\<lambda>x. fst x \<noteq> block_ptr base off) (sessions st) \<and> pool_at SRAMIN base (f_heap st2) A"
proof -
  have n: "blocks sizeof_ftp_session = 10" "0 < sizeof_ftp_session" by (simp_all add: blocks_def sizeof_ftp_session_def)
  from pool_place.alloc_at [OF place p n(2), of k] f obtain off dev1 where
    1: "mymalloc (f_heap st) SRAMIN sizeof_ftp_session = Some (block_ptr base off, dev1)" "block_ptr base off \<noteq> 0" "(off, 10) \<notin> A"
      "pool_at SRAMIN base dev1 (insert (off, 10) A)"
    by (auto simp: n)
  from pool_place.release_at [OF place 1(4) insertI1] obtain dev2 where
    2: "myfree dev1 SRAMIN (block_ptr base off) = Some dev2" "pool_at SRAMIN base dev2 (insert (off, 10) A - {(off, 10)})" by blast
  have "insert (off, 10) A - {(off, 10)} = A" using 1(3) by auto
  then show ?thesis
    using 1 2 by (auto simp: ftp_new_session_def ftp_close_session_def)
qed

text \<open>A request that comes to an end leaves the pool as it found it.\<close>

lemma request_heap:
  assumes p: "pool_ok (f_heap st) SRAMIN A" and f: "free_run (memmap (f_heap st) ! SRAMIN) k 32"
    and base: "0 < unat (membase (f_heap st) ! SRAMIN)" "unat (membase (f_heap st) ! SRAMIN) + memsize ! SRAMIN < 2 ^ 32"
    and d: "\<And>dev. dispatch b net junk now (command_of buf) session (st\<lparr>f_heap := dev\<rparr>) = Some (r, session', st'\<lparr>f_heap := dev\<rparr>)"
  shows "\<exists>dev. ftp_process_request b net junk now session buf st = Some (r, session', st'\<lparr>f_heap := dev\<rparr>) \<and>
    pool_ok dev SRAMIN A \<and> membase dev ! SRAMIN = membase (f_heap st) ! SRAMIN"
proof -
  have place: "pool_place SRAMIN (membase (f_heap st) ! SRAMIN)" using base by unfold_locales (simp_all add: SRAMIN_def)
  have "pool_at SRAMIN (membase (f_heap st) ! SRAMIN) (f_heap st) A" "0 < FTP_BUFFER_SIZE"
    "free_run (memmap (f_heap st) ! SRAMIN) k (blocks FTP_BUFFER_SIZE)"
    using p f by (simp_all add: pool_at_def blocks_def FTP_BUFFER_SIZE_def)
  from pool_place.borrow_at [OF place this] show ?thesis
    by (elim exE conjE) (auto simp: ftp_process_request_def d pool_at_def)
qed

section \<open>A picture from the camera\<close>

lemma blit_marks:
  assumes "blit sbuf 0 c = Some sbuf'" and "2 \<le> length c"
  shows "sbuf' ! 0 = c ! 0" "sbuf' ! 1 = c ! 1" "sbuf' ! (length c - 2) = c ! (length c - 2)"
    "sbuf' ! (length c - 1) = c ! (length c - 1)" "length sbuf' = length sbuf"
proof -
  have "length c \<le> length sbuf" using assms(1) by (auto simp: blit_def split: if_splits)
  moreover have "0 < length c" "1 < length c" "length c - 2 < length c" "length c - 1 < length c" using assms(2) by linarith+
  ultimately show "sbuf' ! 0 = c ! 0" "sbuf' ! 1 = c ! 1" "sbuf' ! (length c - 2) = c ! (length c - 2)"
    "sbuf' ! (length c - 1) = c ! (length c - 1)"
    by (simp_all add: blit_nth [OF assms(1)] del: length_greater_0_conv)
  show "length sbuf' = length sbuf" using assms(1) by (rule length_blit)
qed

text \<open>
  What STOR relies on: the data connection delivers the chunks of \<open>incoming\<close> one by one and is closed by the camera
  after the last, writing appends to the file, creating empties it, and nothing else disturbs either.
\<close>

locale camera =
  fixes b :: "'w board" and net :: "'w stack" and fd :: int
    and incoming :: "'w \<Rightarrow> u8 list list" and stored :: "'w \<Rightarrow> u8 list"
  assumes ready_law: "n_ready net fd w = (there, w') \<Longrightarrow> there \<and> incoming w' = incoming w \<and> stored w' = stored w"
    and recv_law: "n_recv net fd w = (d, w') \<Longrightarrow>
      d = Some (case incoming w of [] \<Rightarrow> [] | c # _ \<Rightarrow> c) \<and> incoming w' = tl (incoming w) \<and> stored w' = stored w"
    and write_law [simp]: "incoming (d_write net x w) = incoming w" "stored (d_write net x w) = stored w @ x"
    and create_law [simp]: "incoming (d_create net name w) = incoming w" "stored (d_create net name w) = []"
    and mkdir_law [simp]: "fst (d_mkdir net x w)" "incoming (snd (d_mkdir net x w)) = incoming w"
    and deldir_law [simp]: "incoming (snd (d_deldir net x w)) = incoming w"
    and send_law [simp]: "incoming (n_send net s x w) = incoming w" "stored (n_send net s x w) = stored w"
    and close_law [simp]: "stored (n_close net s w) = stored w" "stored (d_close net w) = stored w" "stored (phy_off net w) = stored w"
    and pins_law: "incoming (pin_out b p k v w) = incoming w"

text \<open>A chunk after which the server stops reading.\<close>

definition ends_picture :: "u8 list \<Rightarrow> bool" where
  "ends_picture c \<longleftrightarrow> \<not> (c ! 0 = 0xFF \<and> c ! 1 = 0xD8) \<and> c ! (length c - 2) = 0xFF \<and> c ! (length c - 1) = 0xD9"

sublocale camera \<subseteq> still: pin_frame b incoming
  by unfold_locales (rule pins_law)

context camera
begin

lemma store_more:
  assumes "\<forall>c \<in> set cs. 2 \<le> length c \<and> length c \<le> length sbuf" and "\<forall>c \<in> set (butlast cs). \<not> ends_picture c" and "incoming w = cs"
  shows "\<exists>w'. store_loop net com fd 2 sbuf True w = Some (True, w') \<and> stored w' = stored w @ concat cs"
  using assms
proof (induction cs arbitrary: w sbuf)
  case Nil
  obtain there w1 where 1: "n_ready net fd w = (there, w1)" by (rule prod.exhaust)
  obtain d w2 where 2: "n_recv net fd w1 = (d, w2)" by (rule prod.exhaust)
  show ?case
    using ready_law [OF 1] recv_law [OF 2] Nil by (subst store_loop.simps) (simp add: 1 2)
next
  case (Cons c cs)
  obtain there w1 where 1: "n_ready net fd w = (there, w1)" by (rule prod.exhaust)
  obtain d w2 where 2: "n_recv net fd w1 = (d, w2)" by (rule prod.exhaust)
  note r = ready_law [OF 1] recv_law [OF 2]
  let ?w3 = "d_write net c w2"
  have w3: "incoming ?w3 = cs" "stored ?w3 = stored w @ c" using r Cons.prems(3) by simp_all
  have l: "2 \<le> length c" "length c \<le> length sbuf" using Cons.prems(1) by simp_all
  obtain sbuf' where s: "blit sbuf 0 c = Some sbuf'" using l by (simp add: blit_def)
  note m = blit_marks [OF s l(1)]
  have "c \<noteq> []" using l by auto
  then have step: "store_loop net com fd 2 sbuf True w =
      (if ends_picture c then Some (True, ?w3) else store_loop net com fd 2 sbuf' True ?w3)"
    using r l m Cons.prems(3) by (subst store_loop.simps) (auto simp: 1 2 s Let_def SELECT_PICTURE_COUNT_def ends_picture_def)
  show ?case
  proof (cases "ends_picture c")
    case True
    then have "cs = []" using Cons.prems(2) by (cases cs) auto
    then show ?thesis using step True w3 by simp
  next
    case False
    have "\<forall>c \<in> set (butlast cs). \<not> ends_picture c" using Cons.prems(2) by (cases cs) auto
    then have "\<exists>w'. store_loop net com fd 2 sbuf' True ?w3 = Some (True, w') \<and> stored w' = stored ?w3 @ concat cs"
      using Cons.prems(1) m(5) w3(1) by (intro Cons.IH) simp_all
    then show ?thesis using step False w3(2) by simp
  qed
qed

lemma store_picture:
  assumes cs: "\<forall>c \<in> set (c0 # cs). 2 \<le> length c \<and> length c \<le> length sbuf" and "\<forall>c \<in> set (butlast cs). \<not> ends_picture c"
    and start: "c0 ! 0 = 0xFF" "c0 ! 1 = 0xD8" and i: "incoming w = c0 # cs"
  shows "\<exists>w'. store_loop net com fd 2 sbuf False w = Some (True, w') \<and> stored w' = stored w @ c0 @ concat cs"
proof -
  obtain there w1 where 1: "n_ready net fd w = (there, w1)" by (rule prod.exhaust)
  obtain d w2 where 2: "n_recv net fd w1 = (d, w2)" by (rule prod.exhaust)
  note r = ready_law [OF 1] recv_law [OF 2]
  have l: "2 \<le> length c0" "length c0 \<le> length sbuf" using cs by simp_all
  obtain sbuf' where s: "blit sbuf 0 c0 = Some sbuf'" using l by (simp add: blit_def)
  note m = blit_marks [OF s l(1)]
  have "c0 \<noteq> []" using l by auto
  then have "store_loop net com fd 2 sbuf False w = store_loop net com fd 2 sbuf' True (d_write net c0 w2)"
    using r m start i by (subst store_loop.simps) (simp add: 1 2 s SELECT_PICTURE_COUNT_def)
  then show ?thesis
    using store_more [of cs sbuf' "d_write net c0 w2" com] assms(1,2) m(5) r i by simp
qed

lemma folders: "fst (make_folders (d_mkdir net) dir is w)" "incoming (snd (make_folders (d_mkdir net) dir is w)) = incoming w"
  by (induction "is" arbitrary: w) (auto simp: split_beta Let_def)

lemma directory:
  assumes "\<And>w. fst (snd (RTC_ReadDate b now w)) = t"
  shows "\<exists>flag w'. create_directory b (d_mkdir net) (d_deldir net) now flag0 w = (Some (picture_path t), flag, w') \<and>
    incoming w' = incoming w"
  using assms [of w] still.RTC_ReadDate_keeps [of now w]
  by (cases "RTC_ReadDate b now w") (auto simp: create_directory_def delete_first_folder_def folders split_beta Let_def)

text \<open>The answer before the data fits the buffer.\<close>

lemma stor_text:
  assumes "length junk = 1024" and "length name < 256"
  shows "\<exists>sbuf. blit junk 0 (stor_reply name @ crlf @ [0]) = Some sbuf \<and> length sbuf = 1024"
  using assms by (simp add: blit_def stor_reply_def quoted_def bytes_def crlf_def)

lemma length_picture_path: "length (picture_path t) = 31"
  by (simp add: picture_path_def directory_path_def picture_name_def bytes_def)

text \<open>The second picture after the start, or after the last one stored.\<close>

lemma stor_ok:
  assumes user: "is_anonymous session \<noteq> 1" "pasv_sockfd session = fd" and cnt: "g_picture_count st = 2"
    and junk: "length junk = 1024" and clock: "\<And>w. fst (snd (RTC_ReadDate b now w)) = t"
    and cs: "\<forall>c \<in> set (c0 # cs). 2 \<le> length c \<and> length c \<le> 1024" "\<forall>c \<in> set (butlast cs). \<not> ends_picture c"
    and start: "c0 ! 0 = 0xFF" "c0 ! 1 = 0xD8" and i: "incoming (f_world st) = c0 # cs"
  shows "\<exists>st'. (\<forall>dev. ftp_stor b net junk now session (st\<lparr>f_heap := dev\<rparr>) = Some (- 1, session, st'\<lparr>f_heap := dev\<rparr>)) \<and>
    filename st' = picture_path t \<and> stored (f_world st') = c0 @ concat cs \<and> g_save_picture_flag st' = 1 \<and> g_picture_count st' = 1 \<and>
    sessions st' = sessions st"
proof -
  from directory [OF clock, of "execute_flag st" "f_world st"] obtain flag w1 where
    1: "create_directory b (d_mkdir net) (d_deldir net) now (execute_flag st) (f_world st) = (Some (picture_path t), flag, w1)"
    "incoming w1 = incoming (f_world st)"
    by blast
  obtain sbuf where s: "blit junk 0 (stor_reply (picture_path t) @ crlf @ [0]) = Some sbuf" "length sbuf = 1024"
    using stor_text [OF junk, of "picture_path t"] by (auto simp: length_picture_path)
  let ?w2 = "n_send net (sockfd session) (stor_reply (picture_path t) @ crlf) (d_create net (picture_path t) w1)"
  from store_picture [of c0 cs sbuf ?w2 "sockfd session"] obtain w3 where
    3: "store_loop net (sockfd session) fd 2 sbuf False ?w2 = Some (True, w3)" "stored w3 = c0 @ concat cs"
    using cs start i 1(2) s(2) by auto
  let ?st = "st\<lparr>filename := picture_path t, execute_flag := flag, Figure_num := Figure_num st + 1, g_picture_count := 1,
    g_save_picture_flag := 1, f_world := n_close net fd (phy_off net (d_close net w3))\<rparr>"
  have "ftp_stor b net junk now session (st\<lparr>f_heap := dev\<rparr>) = Some (- 1, session, ?st\<lparr>f_heap := dev\<rparr>)" for dev
    using user cnt s(1) 3(1) by (simp add: ftp_stor_def 1(1) SELECT_PICTURE_COUNT_def answer_def Let_def)
  then show ?thesis using 3(2) by (intro exI [of _ ?st]) simp
qed

lemma dispatch_stor:
  assumes "cmd = bytes ''STOR'' @ more_text"
  shows "dispatch b net junk now cmd session st = ftp_stor b net junk now session st"
  by (simp add: dispatch_def Let_def assms bytes_def)

text \<open>The whole request, the borrowed buffer included.\<close>

lemma request_stor:
  assumes "is_anonymous session \<noteq> 1" and "pasv_sockfd session = fd" and "g_picture_count st = 2"
    and "length junk = 1024" and "\<And>w. fst (snd (RTC_ReadDate b now w)) = t"
    and "\<forall>c \<in> set (c0 # cs). 2 \<le> length c \<and> length c \<le> 1024" and "\<forall>c \<in> set (butlast cs). \<not> ends_picture c"
    and "c0 ! 0 = 0xFF" and "c0 ! 1 = 0xD8" and "incoming (f_world st) = c0 # cs"
    and pool: "pool_ok (f_heap st) SRAMIN A" "free_run (memmap (f_heap st) ! SRAMIN) k 32"
    "0 < unat (membase (f_heap st) ! SRAMIN)" "unat (membase (f_heap st) ! SRAMIN) + memsize ! SRAMIN < 2 ^ 32"
    and cmd: "command_of buf = bytes ''STOR'' @ more_text"
  shows "\<exists>st'. ftp_process_request b net junk now session buf st = Some (- 1, session, st') \<and>
    filename st' = picture_path t \<and> stored (f_world st') = c0 @ concat cs \<and> g_save_picture_flag st' = 1 \<and> g_picture_count st' = 1 \<and>
    pool_ok (f_heap st') SRAMIN A"
proof -
  from stor_ok [OF assms(1-10)] obtain st1 where 1:
    "\<forall>dev. ftp_stor b net junk now session (st\<lparr>f_heap := dev\<rparr>) = Some (- 1, session, st1\<lparr>f_heap := dev\<rparr>)"
    "filename st1 = picture_path t" "stored (f_world st1) = c0 @ concat cs" "g_save_picture_flag st1 = 1" "g_picture_count st1 = 1"
    by blast
  from request_heap [OF pool, of b net junk now buf session "- 1" session st1] obtain dev where
    "ftp_process_request b net junk now session buf st = Some (- 1, session, st1\<lparr>f_heap := dev\<rparr>)" "pool_ok dev SRAMIN A"
    using 1(1) by (auto simp: dispatch_stor [OF cmd])
  then show ?thesis using 1(2-) by (intro exI [of _ "st1\<lparr>f_heap := dev\<rparr>"]) simp
qed

end

section \<open>A camera\<close>

text \<open>A camera with its chunks ready and one file on the card; no clock answers, so the time asked for is the one passed in.\<close>

record camera_bench =
  chunks_left :: "u8 list list"
  card_file :: "u8 list"
  ftp_sent :: "(int \<times> u8 list) list"

definition camera_board :: "camera_bench board" where
  "camera_board = \<lparr>spi1 = (\<lambda>w tx. (w, [])), spi2 = (\<lambda>w tx. (w, [])), pin_out = (\<lambda>_ _ _ w. w), pin_in = (\<lambda>_ _ _. True),
     stray_in = (\<lambda>_. False), uart2_tx = (\<lambda>_ w. w), uart2_rx = (\<lambda>w. (None, w)), rs232_tx = (\<lambda>_ w. w),
     f_open = (\<lambda>_. None), f_read = (\<lambda>_ w. (None, w)), ethernet = no_nic, unique_id = 0\<rparr>"

definition camera_stack :: "camera_bench stack" where
  "camera_stack = \<lparr>n_send = (\<lambda>s x w. w\<lparr>ftp_sent := (s, x) # ftp_sent w\<rparr>), n_socket = (\<lambda>w. (7, w)),
     n_option = (\<lambda>_ w. (True, w)), n_bind = (\<lambda>_ _ w. (True, w)), n_listen = (\<lambda>_ w. (True, w)), n_waiting = (\<lambda>_ w. (True, w)),
     n_ready = (\<lambda>_ w. (True, w)), n_select = (\<lambda>_ w. (\<lambda>_. True, w)), n_accept = (\<lambda>_ w. (5, 0, w)),
     n_recv = (\<lambda>_ w. (Some (case chunks_left w of [] \<Rightarrow> [] | c # _ \<Rightarrow> c), w\<lparr>chunks_left := tl (chunks_left w)\<rparr>)),
     n_connect = (\<lambda>_ _ _ w. (True, w)), n_close = (\<lambda>_ w. w), d_mkdir = (\<lambda>_ w. (True, w)), d_deldir = (\<lambda>_ w. (True, w)),
     d_create = (\<lambda>_ w. w\<lparr>card_file := []\<rparr>), d_write = (\<lambda>x w. w\<lparr>card_file := card_file w @ x\<rparr>), d_close = (\<lambda>w. w),
     phy_off = (\<lambda>w. w)\<rparr>"

interpretation cam: camera camera_board camera_stack 5 chunks_left card_file
  by unfold_locales (auto simp: camera_stack_def camera_board_def)

lemma camera_RTC_ReadDate: "fst (snd (RTC_ReadDate camera_board t w)) = t"
  by (simp add: RTC_ReadDate_def I2CStart_def I2CWaitAck_def SDA_read_def camera_board_def split_beta Let_def)

definition camera_session :: ftp_session where
  "camera_session = \<lparr>is_anonymous = 0, sockfd = 4, remote = 0, pasv_active = 1, pasv_sockfd = 5, pasv_port = 10000, offset = 0,
     currentdir = bytes ''/''\<rparr>"

end
