(* ===== verification/Spec2Isabelle.thy ===== *)
theory Spec2Isabelle
  imports Modes Modem CRC Rtc Malloc Console Ftp
begin

text \<open>
  Firmware of a remote terminal unit for hydrology (STM32F103, C, uC/OS-II), as of the commit in src/.

  The station measures rainfall (pulses) and the water level (a Gray-coded gauge) every five minutes, keeps the samples
  in a SPI flash chip, reports them over RS232, answers commands that arrive over RS232 and over a 4G modem, takes
  pictures from a network camera by FTP, sends them over the modem, lets a phone change settings over bluetooth, and
  stops its processor between two reports until the alarm of its clock chip wakes it.

  \<^bold>\<open>How the model is made.\<close> A C integer is a word of its width, a struct a record, an array a list, a C float the rational
  number it denotes, rounded after every operation (CFloat). The state of the firmware is one record that grows from
  theory to theory (Board.base, then samples, modem, messages, tasks); its field \<open>world\<close> is everything outside the
  processor. The hardware is the parameter \<open>'w board\<close>: what a chip-select period, a pin, a serial line or the Ethernet
  chip's registers do to the world and answer. What a data sheet says of a chip is a locale (\<open>nor_flash\<close>, \<open>gray_sensor\<close>,
  \<open>uart_bridge\<close>, \<open>uart554\<close>, \<open>dm9000_chip\<close>, \<open>camera\<close>), what one part of the firmware promises another is a locale, too
  (\<open>byte_store\<close>: the flash driver for the sample store; \<open>block_pool\<close>: the allocator for the log and the FTP server), and
  each is interpreted: the interfaces on the model's own functions, the chips on executable chips that the witnesses run.
  Undefined behaviour (an access outside an array, the use of an uninitialised value, a float that does not fit) and a
  loop that never ends are \<open>None\<close>. Loops with a bound are recursive functions with that bound; loops that wait for hardware
  are \<open>partial_function (option)\<close>, and where a theorem says that they end, it proves the value \<open>Some\<close>. Fuel is not used. Delays
  only let time pass and are left out, except that the modem may deliver bytes during one (Gprs.delay).

  \<^bold>\<open>Theories, by the source they model.\<close>
  \<^item> Prelude: C integers, byte orders, checked array accesses. Board: the hardware, see above.
  \<^item> BCD, CFloat (PROTOCOL/protocol.c, HARDWARE/RTC/rtc.c): \<open>BCDTimeTodata\<close>, \<open>FloatoHex\<close>, \<open>HextoFloat\<close>, \<open>BCDSendataToFloat\<close> and the
    like, with the error bounds of the float arithmetic; the specification is \<open>bcd_of\<close>.
  \<^item> CRC (4G/4g.c): \<open>CRC16_MODBUS\<close>, equal to the reflected CRC-16, its linearity and what it detects.
  \<^item> Flash (HARDWARE/W25QXX): the SPI flash driver; \<open>W25QXX_Write\<close> with its read-modify-erase-write cycle refines a memory of bytes.
  \<^item> SD3078 (HARDWARE/SD3078), Rtc (HARDWARE/RTC): the clock chip on two bit-banged pins and the next alarm; the on-chip
    calendar against the Gregorian one.
  \<^item> Sensor (HARDWARE/Water-Rainfall-Sensor): reading and decoding the gauge, the pulse interrupt.
  \<^item> Malloc, Pool (MALLOC/malloc.c): the allocator, against sets of disjoint blocks; its interface to its users.
  \<^item> Memory_My, Samples (MEMORY/memory_my.c): slots of samples and the parameter block, and that they do not disturb each other.
  \<^item> Gprs, Gprs_Data, Modem (4G/): the modem's serial port, AT commands, connection state machine, picture frames, received
    blocks, short messages and position.
  \<^item> Frames, Protocol, Commands (PROTOCOL/protocol.c, protocol.h): packed messages, reports, parameters, stored data, dispatch
    of commands. Station, Reports, Periods, Answers: what these messages contain, from the sensors and the flash to the bytes sent.
  \<^item> Console (SYSTEM/usart/usart.c): receive interrupt, transmit loop, log. Wk2124, Bluetooth (HARDWARE/WK2124, BLUETOOTH/): the UART
    bridge and the phone's settings. St16c554 (HARDWARE/ST16C554-RS232, RS232, RS485): the four serial lines and their interrupt.
  \<^item> Dm9000 (HARDWARE/DM9000): the Ethernet driver with its lock. Pictures, Ftp (FATFS/picture.c, FTP/ftpd.c): folders of pictures, the
    FTP server with its sessions, requests and the reception of a picture.
  \<^item> Untouched, Tasks, Cycle, Modes (THREAD/thread.c, HARDWARE/PWCTROL, HARDWARE/LOW-Power): one turn of each task, the interrupts, and the
    step relation \<open>system_step\<close>, which lets any task that can run take a turn and any interrupt come at any time between turns; invariants of
    \<open>system_run\<close> by rule induction; one whole cycle of the reporting task; response mode; waking.
  \<^item> Bench: a board put together from functions, on which the witnesses run.

  \<^bold>\<open>What the properties show.\<close> The samples, reports and answers carry the right values, from sensor and flash to the bytes on the line, with the
  packets of long periods as they are (wrong from the third on). The flash driver is a memory, samples and parameters survive each other. The
  allocator's blocks are disjoint, and its users give back what they borrow. Calendar, checksum and Gray code meet their
  specifications. The modem connection ends in one of two consistent states. The serial interrupts keep to their buffers, or the exact bursts that
  overrun them are given. The tasks never all sleep without something that wakes them; an alarm wakes the station; a boundary is
  reported once; response mode is never left. A picture arrives whole in a file with a name of its own; a packet crosses the
  Ethernet driver unchanged, and one receive error stops that driver for good. Theorems that state a flaw of the code say what it does.

  \<^bold>\<open>Bounds.\<close> The hypotheses on numbers are those of the data: 13 bits of water level, fewer than 200000 rain pulses and base values below
  2 ^ 21 - 10 n (so that six or eight BCD digits and 24 bits of a float suffice), dates a clock of two year digits can show, the 16 MB of
  the flash, the sizes of the pools, chunks of at most 1024 bytes in an FTP transfer, packets of 64 to 1536 bytes.

  \<^bold>\<open>Not modelled.\<close> Start-up and the programming of pins, clocks, interrupt lines and bus controllers (USER/main.c, COMMON/common.c, SYSTEM/, the \<open>_Init\<close>
  functions where they only do that); the drivers of SD card, external SRAM, ADC, watchdog and LEDs, which only program registers; the debug console
  USMART, whose initialisation is commented out; stack statistics; the vendored LWIP, FatFs, uC/OS-II, CMSIS, USB and peripheral
  libraries, of which the calls are parameters; preemption within a turn, except that the FTP task may finish a picture while the
  reporting task waits for it. \<open>RS232_3_Send_buf\<close> is the board's in the messages' theories (\<open>rs232_tx\<close>); that the UART driver sends exactly
  those bytes is \<open>write_turns_ok\<close> in St16c554.
\<close>

section \<open>Samples and reports\<close>







section \<open>Stored data of a period\<close>

text \<open>C4: a query over RS232 for the stored data of at most twelve hours of one year is answered with one frame:
  the samples of the period as they lie in flash, the element asked for, the station's address and the
  frame length, and the end mark and checksum.\<close>

theorem period_of_one_packet:
  fixes down :: querrytimeperiod_down_content_t
  assumes "console b cells busy wel code tx_log" and "busy (world s) = 0" and "md_ok (s_monthday s)"
    and "valid_date (TimeperiodToDate (td_start_time down))" and "valid_date (TimeperiodToDate (td_end_time down))"
    and "d_year (TimeperiodToDate (td_start_time down)) = d_year (TimeperiodToDate (td_end_time down))"
    and "hour_count (TimeperiodToDate (td_end_time down)) = hour_count (TimeperiodToDate (td_start_time down)) + n" and "0 < n" and "n \<le> 12"
    and "sample_kind (swap16 (td_precipit_id down)) = Some (t, k)"
  shows "\<exists>s' m. test_SendTimePeriodData b down RS232_3 s = Some s' \<and>
    tx_log (world s') = data_frame m (mem_read (cells (world s)) (slot_addr (TimeperiodToDate (td_start_time down)) t) (12 * n * k)) # tx_log (world s) \<and>
    h_remote_addr (q_header m) = rtu_remote_addr (stored_parameters (cells (world s))) \<and>
    h_fun_id (q_header m) = QUERY_TIME_PERIOD_FUNID \<and> h_frame_id_len (q_header m) = swap16 (of_nat (33 + 12 * n * k)) \<and>
    q_total_pkts_sn m = [0x00, 0x10, 0x01] \<and> c_sn (q_content m) = swap16 (sn s) \<and>
    up_element_id (q_content m) = td_precipit_id down \<and>
    cells (world s') = cells (world s) \<and> busy (world s') = 0 \<and> sn s' = sn s + 1"
  using assms(2-) by (rule console.short_answer [OF assms(1)])

definition asked :: "u8 \<Rightarrow> u8 \<Rightarrow> u8 \<Rightarrow> u8 \<Rightarrow> querrytimeperiod_down_content_t" where
  "asked d h d' h' = \<lparr>td_sn = 0, td_pkt_time = pkt_time_at zero_time, td_start_time = \<lparr>e_year = 0x19, e_month = 0x02, e_day = d, e_hour = h\<rparr>,
     td_end_time = \<lparr>e_year = 0x19, e_month = 0x02, e_day = d', e_hour = h'\<rparr>, td_time_period_id = [4, 24, 0, 0, 5],
     td_precipit_id = 0x1926\<rparr>"

theorem period_of_one_packet_witness:
  "\<exists>s' m. test_SendTimePeriodData bench_board (asked 0x27 0x22 0x28 0x02) RS232_3 (powered (bench_at 0)) = Some s' \<and>
    rs232 (world s') = [data_frame m (replicate 144 0)] \<and> sn s' = 2"
proof -
  let ?st = "td_start_time (asked 0x27 0x22 0x28 0x02)" and ?en = "td_end_time (asked 0x27 0x22 0x28 0x02)"
  have v: "valid_date (TimeperiodToDate ?st)" "valid_date (TimeperiodToDate ?en)" by code_simp+
  have y: "d_year (TimeperiodToDate ?st) = d_year (TimeperiodToDate ?en)" by code_simp
  have n: "hour_count (TimeperiodToDate ?en) = hour_count (TimeperiodToDate ?st) + 4" by code_simp
  have k: "sample_kind (swap16 (td_precipit_id (asked 0x27 0x22 0x28 0x02))) = Some (0, 3)" by code_simp
  have z: "mem_read (\<lambda>_. 0) a n = replicate n 0" for a n by (simp add: mem_read_def map_replicate_trivial)
  show ?thesis
    using period_of_one_packet [OF bench_console.console_axioms, where s = "powered (bench_at 0)", OF _ _ v y n _ _ k]
    by (simp add: z) blast
qed

text \<open>C5: the answer for a longer period is a sequence of frames, full ones of twelve hours and one for the rest, with
  consecutive packet and serial numbers. Packet \<open>j\<close> of the full ones starts \<open>j (j + 1) / 2\<close> packet lengths
  after the first sample, so from the third packet on (\<open>j = 2\<close>) the data sent are not those asked for.\<close>

theorem period_of_several_packets:
  fixes down :: querrytimeperiod_down_content_t
  assumes "console b cells busy wel code tx_log" and "busy (world s) = 0" and "md_ok (s_monthday s)"
    and "valid_date (TimeperiodToDate (td_start_time down))" and "valid_date (TimeperiodToDate (td_end_time down))"
    and "d_year (TimeperiodToDate (td_start_time down)) = d_year (TimeperiodToDate (td_end_time down))"
    and "hour_count (TimeperiodToDate (td_end_time down)) = hour_count (TimeperiodToDate (td_start_time down)) + n" and "12 < n"
    and "sample_kind (swap16 (td_precipit_id down)) = Some (t, k)"
    and "slot_addr (TimeperiodToDate (td_start_time down)) t + 144 * k * (\<Sum>x<n div 12. x) + 144 * k + 144 * k \<le> 2 ^ 24"
  shows "\<exists>s' m. test_SendTimePeriodData b down RS232_3 s = Some s' \<and>
    tx_log (world s') = rev (map (\<lambda>j. packet_frame m (sn s + of_nat j) (Suc j)
          (slot_addr (TimeperiodToDate (td_start_time down)) t + 144 * k * (\<Sum>x<Suc j. x)) (144 * k) (cells (world s))) [0..<n div 12] @
        (if n mod 12 = 0 then []
         else [packet_frame (with_frame_length (of_nat (12 * (n mod 12) * k)) m) (sn s + of_nat (n div 12)) (Suc (n div 12))
           (slot_addr (TimeperiodToDate (td_start_time down)) t + 144 * k * (\<Sum>x<n div 12. x) + 144 * k) (12 * (n mod 12) * k) (cells (world s))]))
      @ tx_log (world s) \<and>
    up_wf m \<and> h_frame_id_len (q_header m) = swap16 465 \<and> h_fun_id (q_header m) = QUERY_TIME_PERIOD_FUNID \<and>
    cells (world s') = cells (world s) \<and> busy (world s') = 0"
  using assms(2-) by (rule console.long_answer [OF assms(1)])

theorem period_of_several_packets_witness:
  "\<exists>s' m. test_SendTimePeriodData bench_board (asked 0x01 0x00 0x02 0x15) RS232_3 (powered (bench_at 0)) = Some s' \<and>
    rs232 (world s') = [packet_frame (with_frame_length 108 m) 4 4 (8415392 + 432 * 4) 108 (\<lambda>_. 0),
      packet_frame m 3 3 (8415392 + 432 * 3) 432 (\<lambda>_. 0), packet_frame m 2 2 (8415392 + 432) 432 (\<lambda>_. 0),
      packet_frame m 1 1 8415392 432 (\<lambda>_. 0)]"
proof -
  let ?st = "td_start_time (asked 0x01 0x00 0x02 0x15)" and ?en = "td_end_time (asked 0x01 0x00 0x02 0x15)"
  have v: "valid_date (TimeperiodToDate ?st)" "valid_date (TimeperiodToDate ?en)" by code_simp+
  have y: "d_year (TimeperiodToDate ?st) = d_year (TimeperiodToDate ?en)" by code_simp
  have n: "hour_count (TimeperiodToDate ?en) = hour_count (TimeperiodToDate ?st) + 39" by code_simp
  have k: "sample_kind (swap16 (td_precipit_id (asked 0x01 0x00 0x02 0x15))) = Some (0, 3)" by code_simp
  have "hour_count (TimeperiodToDate ?st) = 744" "unat (d_year (TimeperiodToDate ?st)) = 19" by code_simp+
  then have a: "slot_addr (TimeperiodToDate ?st) 0 = 8415392"
    by (simp add: slot_addr_def slot_of_hour region_def slot_len_def)
  have fits: "slot_addr (TimeperiodToDate ?st) 0 + 144 * 3 * (\<Sum>x<39 div 12. x) + 144 * 3 + 144 * 3 \<le> 2 ^ 24"
    by (simp add: a lessThan_nat_numeral lessThan_Suc)
  have num: "39 div 12 = (3::nat)" "39 mod 12 = (3::nat)" "[0..<3] = [0, 1, 2]" "(\<Sum>x<3. x) = (3::nat)"
    by (simp_all add: upt_rec lessThan_nat_numeral lessThan_Suc)
  obtain s' m where call: "test_SendTimePeriodData bench_board (asked 0x01 0x00 0x02 0x15) RS232_3 (powered (bench_at 0)) = Some s'"
    and out: "rs232 (world s') = rev (map (\<lambda>j. packet_frame m (1 + of_nat j) (Suc j) (8415392 + 144 * 3 * (\<Sum>x<Suc j. x)) (144 * 3) (\<lambda>_. 0)) [0, 1, 2] @
        [packet_frame (with_frame_length (of_nat (12 * 3 * 3)) m) (1 + of_nat 3) (Suc 3) (8415392 + 144 * 3 * 3 + 144 * 3) (12 * 3 * 3) (\<lambda>_. 0)])"
    using period_of_several_packets [OF bench_console.console_axioms, where s = "powered (bench_at 0)", OF _ _ v y n _ k fits]
    unfolding a num by auto
  have "(\<Sum>x<Suc 0. x) = (0::nat)" "(\<Sum>x<Suc 1. x) = (1::nat)" "(\<Sum>x<Suc 2. x) = (3::nat)"
    by (simp_all add: lessThan_nat_numeral lessThan_Suc)
  then have "rs232 (world s') = [packet_frame (with_frame_length 108 m) 4 4 (8415392 + 432 * 4) 108 (\<lambda>_. 0),
      packet_frame m 3 3 (8415392 + 432 * 3) 432 (\<lambda>_. 0), packet_frame m 2 2 (8415392 + 432) 432 (\<lambda>_. 0),
      packet_frame m 1 1 8415392 432 (\<lambda>_. 0)]"
    unfolding out by (simp add: lessThan_Suc numeral_2_eq_2 [symmetric] del: sum.lessThan_Suc)
  then show ?thesis using call by (intro exI [of _ s'] exI [of _ m]) (rule conjI)
qed

section \<open>Parameters and samples in flash\<close>

text \<open>C6: a set-parameters command received over RS232 is carried out: the parameters in flash are those of the
  message (the two fields it does not carry are what the stack held), and a query for the parameters that
  follows is answered with a message that carries the values set.\<close>

theorem parameters_set_and_queried:
  assumes "flash_board b cells busy wel" and "busy (world s) = 0"
    and "setparameter_wf c" and "param_wf (stack_parameters s)"
    and "RS232_3_Recv s = hdr @ setparameter_content_bytes c @ trailer" and "length hdr = 14"
  shows "\<exists>s1 s2 (m :: setparameter_message_t) w. ExecuteFunctionByFunId b SET_PARAMETER_FUNID RS232_3 s = Some (0, s1) \<and>
    stored_parameters (cells (world s1)) = set_parameters_of (stack_parameters s) c \<and>
    ExecuteFunctionByFunId b QUERY_PARAMETER_FUNID RS232_3 s1 = Some (0, s2) \<and>
    world s2 = rs232_tx b (message_bytes setparameter_content_bytes m) w \<and>
    guided_values (m_content m) = guided_values c"
  using assms(2-) by (rule flash_board.set_then_query [OF assms(1)])

definition all_sevens :: setparameter_content_t where
  "all_sevens = setparameter_of_chunks (map (\<lambda>n. replicate n 7) setparameter_sizes)"

theorem parameters_set_and_queried_witness:
  "\<exists>s1. ExecuteFunctionByFunId bench_board SET_PARAMETER_FUNID RS232_3
      ((powered (bench_at 0))\<lparr>RS232_3_Recv := replicate 14 0 @ setparameter_content_bytes all_sevens @ [0x03, 0, 0]\<rparr>) = Some (0, s1) \<and>
    rtu_remote_addr (stored_parameters (w_cells (flash (world s1)))) = [7, 7, 7, 7, 7]"
proof -
  let ?s = "(powered (bench_at 0))\<lparr>RS232_3_Recv := replicate 14 0 @ setparameter_content_bytes all_sevens @ [0x03, 0, 0]\<rparr>"
  have wf: "setparameter_wf all_sevens" "param_wf zero_parameters" by code_simp+
  have "rtu_remote_addr (set_parameters_of zero_parameters all_sevens) = [7, 7, 7, 7, 7]" by code_simp
  then show ?thesis
    using parameters_set_and_queried [OF bench.flash_board_axioms, where s = ?s and c = all_sevens, OF _ wf(1) _ refl[THEN trans]] wf(2)
    by auto
qed

text \<open>C7: whatever the address and length within the chip, \<open>W25QXX_Write\<close> on an idle chip ends and leaves
  the given bytes at the address and every other cell as it was, although it erases whole sectors.\<close>

theorem flash_write_is_memory_write:
  assumes "nor_flash spi cells busy wel"
    and "busy c = 0" and "0 < unat n" and "unat a + unat n \<le> 2 ^ 24" and "unat n \<le> length bs"
  shows "\<exists>c'. W25QXX_Write spi c bs a n = Some c' \<and> busy c' = 0 \<and>
     cells c' = mem_write (cells c) (unat a) (take (unat n) bs)"
  using assms by (rule nor_flash.write_ok)

theorem flash_write_is_memory_write_witness:
  "\<exists>c'. W25QXX_Write w25q_spi \<lparr>w_cells = (\<lambda>_. 0xFF), w_busy = 0, w_wel = False\<rparr> [0x12, 0x34] 0x000FFF 2 = Some c' \<and>
     w_busy c' = 0 \<and> w_cells c' = mem_write (\<lambda>_. 0xFF) 0xFFF [0x12, 0x34]"
  using flash_write_is_memory_write [OF w25q.nor_flash_axioms,
      of "\<lparr>w_cells = (\<lambda>_. 0xFF), w_busy = 0, w_wel = False\<rparr>" 2 "0x000FFF" "[0x12, 0x34]"] by simp

text \<open>C8: a sample saved in flash is read back after another has been saved, if the two are of different kinds, of
  years of different parity, or of different times of one year.\<close>

theorem saved_sample_survives:
  assumes "flash_board b cells busy wel" and "valid_date d" and "valid_date d'"
    and "unat (d_minute d) mod 5 = 0" and "unat (d_minute d') mod 5 = 0" and "apart d t d' t'"
    and "md_ok (s_monthday s)" and "busy (world s) = 0"
    and "length x = slot_len t" and "length y = slot_len t'" and "length buf = slot_len t"
  shows "\<exists>s1 s2 s3. SaveDataToFlash b d t x 1 s = Some (0, s1) \<and> SaveDataToFlash b d' t' y 1 s1 = Some (0, s2) \<and>
    ReadDataFromFlash b d t buf (slot_len t) s2 = Some (0, x, s3)"
  using assms(2-) by (rule flash_board.sample_survives [OF assms(1)])

theorem saved_sample_survives_witness:
  "\<exists>s1 s2 s3. SaveDataToFlash bench_board \<lparr>d_year = 20, d_month = 2, d_day = 29, d_hour = 23, d_minute = 55\<rparr> 0 [1, 2, 3] 1 (powered (bench_at 0)) = Some (0, s1) \<and>
    SaveDataToFlash bench_board \<lparr>d_year = 20, d_month = 3, d_day = 1, d_hour = 0, d_minute = 0\<rparr> 0 [4, 5, 6] 1 s1 = Some (0, s2) \<and>
    ReadDataFromFlash bench_board \<lparr>d_year = 20, d_month = 2, d_day = 29, d_hour = 23, d_minute = 55\<rparr> 0 [0, 0, 0] (slot_len 0) s2 = Some (0, [1, 2, 3], s3)"
proof -
  let ?d = "\<lparr>d_year = 20, d_month = 2, d_day = 29, d_hour = 23, d_minute = 55\<rparr>" and ?e = "\<lparr>d_year = 20, d_month = 3, d_day = 1, d_hour = 0, d_minute = 0\<rparr>"
  have v: "valid_date ?d" "valid_date ?e" "unat (d_minute ?d) mod 5 = 0" "unat (d_minute ?e) mod 5 = 0" "apart ?d 0 ?e 0" by code_simp+
  show ?thesis
    by (rule saved_sample_survives [OF bench.flash_board_axioms v]) (simp_all add: slot_len_def)
qed

text \<open>C9: saving a sample does not change the stored parameters.\<close>

theorem sample_keeps_parameters:
  assumes "flash_board b cells busy wel" and "valid_date d" and "unat (d_minute d) mod 5 = 0"
    and "md_ok (s_monthday s)" and "busy (world s) = 0" and "length x = slot_len t"
  shows "\<exists>s'. SaveDataToFlash b d t x 1 s = Some (0, s') \<and>
    fst (RTU_parameters_Readdata b s') = fst (RTU_parameters_Readdata b s)"
  using assms(2-) by (rule flash_board.sample_spares_parameters [OF assms(1)])

theorem sample_keeps_parameters_witness:
  "\<exists>s'. SaveDataToFlash bench_board \<lparr>d_year = 18, d_month = 12, d_day = 31, d_hour = 23, d_minute = 55\<rparr> 0 [1, 2, 3] 1 (powered (bench_at 0)) = Some (0, s') \<and>
    fst (RTU_parameters_Readdata bench_board s') = fst (RTU_parameters_Readdata bench_board (powered (bench_at 0)))"
proof -
  let ?d = "\<lparr>d_year = 18, d_month = 12, d_day = 31, d_hour = 23, d_minute = 55\<rparr>"
  have v: "valid_date ?d" "unat (d_minute ?d) mod 5 = 0" by code_simp+
  show ?thesis by (rule sample_keeps_parameters [OF bench.flash_board_axioms v]) (simp_all add: slot_len_def)
qed

text \<open>C10: for a valid date and a minute that is no multiple of five, \<open>SaveDataToFlash\<close> and \<open>ReadDataFromFlash\<close> return
  -1, whatever the chip does, and touch neither the flash nor the buffer.\<close>

theorem odd_minute_refused:
  assumes "valid_date d" and "unat (d_minute d) mod 5 \<noteq> 0" and "md_ok (s_monthday s)"
  shows "\<exists>md. md_ok md \<and> SaveDataToFlash b d t x n s = Some (- 1, s\<lparr>s_monthday := md\<rparr>) \<and>
    ReadDataFromFlash b d t buf k s = Some (- 1, buf, s\<lparr>s_monthday := md\<rparr>)"
  using GetAddress_odd_minute [OF assms, of t] by (auto simp: SaveDataToFlash_def ReadDataFromFlash_def)

theorem odd_minute_refused_witness:
  "\<exists>md. SaveDataToFlash bench_board \<lparr>d_year = 18, d_month = 12, d_day = 31, d_hour = 23, d_minute = 56\<rparr> 0 [1, 2, 3] 1 (powered (bench_at 0)) =
    Some (- 1, (powered (bench_at 0))\<lparr>s_monthday := md\<rparr>)"
proof -
  let ?d = "\<lparr>d_year = 18, d_month = 12, d_day = 31, d_hour = 23, d_minute = 56\<rparr>"
  have v: "valid_date ?d" "unat (d_minute ?d) mod 5 \<noteq> 0" by code_simp+
  show ?thesis
    using odd_minute_refused [OF v, where s = "powered (bench_at 0)" and b = bench_board and t = 0 and x = "[1, 2, 3]" and n = 1 and buf = "[]" and k = 0]
    by auto
qed

section \<open>Heap\<close>

text \<open>C11: in every run of a pool (initialisation, allocations, releases of allocated blocks, in any order) the blocks
  that are allocated lie within the pool and no two of them share a cell.\<close>

theorem heap_blocks_disjoint:
  assumes "heap_run memx dev A" and "memx < 2" and "a \<in> A" and "b \<in> A" and "a \<noteq> b"
  shows "(fst a + snd a \<le> fst b \<or> fst b + snd b \<le> fst a) \<and> 0 < snd a \<and> 32 * (fst a + snd a) \<le> memsize ! memx"
proof -
  have p: "pool_ok dev memx A" using assms(1,2) by (rule heap_run_ok)
  then have r: "represents (memmap dev ! memx) A" and "shaped dev" by (simp_all add: pool_ok_def)
  note l = shaped_lengths [OF this(2) assms(2)]
  have pos: "0 < snd a" "0 < snd b" "fst a + snd a \<le> length (memmap dev ! memx)"
    using r assms(3,4) by (auto simp: represents_def)
  have "fst a + snd a \<le> fst b \<or> fst b + snd b \<le> fst a"
  proof (rule ccontr)
    assume "\<not> ?thesis"
    then have "inside a (max (fst a) (fst b))" "inside b (max (fst a) (fst b))" using pos by (auto simp: inside_def)
    then show False using represents_disjoint [OF r assms(3,4)] assms(5) by blast
  qed
  then show ?thesis using pos l by simp
qed

theorem heap_blocks_disjoint_witness:
  "\<exists>dev off off'. heap_run 0 dev {(off', 1), (off, 1)} \<and> (off' + 1 \<le> off \<or> off + 1 \<le> off') \<and> 32 * (off' + 1) \<le> memsize ! 0"
proof -
  obtain dev off off' where r: "heap_run 0 dev {(off', 1), (off, 1)}" "off' \<noteq> off" using two_blocks by blast
  then show ?thesis using heap_blocks_disjoint [OF r(1), of "(off', 1)" "(off, 1)"] by auto
qed

text \<open>C12: an allocation of a positive size returns the address of a block that was free and is now allocated (32-byte
  cells, rounded up), or, only when no run of free cells is long enough, the null offset, and then
  changes nothing.\<close>

theorem heap_allocation:
  assumes "pool_ok dev memx A" and "0 < sz"
  shows "(\<exists>off dev'. my_mem_malloc dev memx sz = Some (of_nat (off * 32), dev') \<and>
            pool_ok dev' memx (insert (off, blocks sz) A) \<and> (off, blocks sz) \<notin> A) \<or>
         (my_mem_malloc dev memx sz = Some (0xFFFFFFFF, dev) \<and>
            (\<forall>o'. \<not> free_run (memmap dev ! memx) o' (blocks sz)))"
  using assms by (rule my_mem_malloc_ok)

theorem heap_allocation_witness:
  "\<exists>dev. pool_ok dev 0 {} \<and> ((\<exists>off dev'. my_mem_malloc dev 0 100 = Some (of_nat (off * 32), dev')) \<or> my_mem_malloc dev 0 100 = Some (0xFFFFFFFF, dev))"
proof -
  obtain dev where p: "pool_ok dev 0 {}" using my_mem_init_ok [OF shaped_empty, of 0] by auto
  have "(0::nat) < 100" by simp
  from heap_allocation [OF p this] show ?thesis using p by blast
qed

text \<open>C13: releasing an allocated block succeeds and frees that block and no other.\<close>

theorem heap_release:
  assumes "pool_ok dev memx A" and "a \<in> A"
  shows "\<exists>dev'. my_mem_free dev memx (of_nat (fst a * 32)) = Some (0, dev') \<and> pool_ok dev' memx (A - {a})"
  using assms by (rule my_mem_free_ok)

theorem heap_release_witness:
  "\<exists>dev dev' a. my_mem_free dev 0 (of_nat (fst a * 32)) = Some (0, dev') \<and> pool_ok dev' 0 ({a} - {a})"
proof -
  obtain dev off off' where r: "heap_run 0 dev {(off', 1), (off, 1)}" using two_blocks by blast
  have "pool_ok dev 0 {(off', 1), (off, 1)}" by (rule heap_run_ok [OF r]) simp
  from heap_release [OF this, of "(off, 1)"]
  obtain dev1 where p1: "pool_ok dev1 0 ({(off', 1), (off, 1)} - {(off, 1)})" by auto
  obtain dev0 where "my_mem_init empty_heap 0 = Some dev0" "pool_ok dev0 0 {}"
    using my_mem_init_ok [OF shaped_empty, of 0] by auto
  show ?thesis
  proof (cases "off' = off")
    case True
    then show ?thesis using heap_release [OF \<open>pool_ok dev 0 {(off', 1), (off, 1)}\<close>, of "(off, 1)"] by auto
  next
    case False
    then have "{(off', 1), (off, 1)} - {(off, 1)} = {(off', 1 :: nat)}" by auto
    then show ?thesis using heap_release [OF p1, of "(off', 1)"] by auto
  qed
qed

section \<open>Calendar\<close>


definition fresh_rtc :: rtc where
  "fresh_rtc = \<lparr>counter = 0, alarm_reg = 0, daycnt = 0, calendar = \<lparr>cal_hour = 0, cal_min = 0, cal_sec = 0, w_year = 1970,
     w_month = 1, w_date = 1, week = 4\<rparr>\<rparr>"


text \<open>C15: on 31 December of a leap year \<open>RTC_Get\<close> takes the day for the first of month 13 of the next year and reads
  the table of weekdays past its end.\<close>

theorem clock_last_day_of_leap_year:
  assumes "1970 \<le> y" and "y \<le> 2099" and "leap y" and "counter s = of_nat (86400 * (span year_len 1970 y + 365) + e)" and "e < 86400"
    and "unat (daycnt s) \<noteq> span year_len 1970 y + 365"
  shows "RTC_Get s = None"
  using assms by (rule Get_last_day)

theorem clock_last_day_of_leap_year_witness:
  "RTC_Get (fresh_rtc\<lparr>counter := 1609372800\<rparr>) = None"
proof -
  have d: "span year_len 1970 2020 = 18262" by (simp add: span_def year_len_def leap_def)
  have "leap 2020" by (simp add: leap_def)
  show ?thesis
    using clock_last_day_of_leap_year [of 2020 "fresh_rtc\<lparr>counter := 1609372800\<rparr>" 0] \<open>leap 2020\<close>
    by (simp add: d fresh_rtc_def)
qed

text \<open>C16: \<open>RTC_Get_Week\<close> computes the Gregorian day of the week, 0 for Sunday, for every date from 1970 to 2099.\<close>

theorem week_is_gregorian:
  assumes "1970 \<le> y" and "y \<le> 2099" and "1 \<le> m" and "m \<le> 12" and "1 \<le> d" and "d \<le> 31"
  shows "RTC_Get_Week (of_nat y) (of_nat m) (of_nat d) = Some (of_nat (weekday y m d))"
  using assms by (rule RTC_Get_Week_eq)

theorem week_is_gregorian_witness: "RTC_Get_Week 2018 12 31 = Some (of_nat (weekday 2018 12 31))"
  using week_is_gregorian [of 2018 12 31] by simp

section \<open>Checksum\<close>

text \<open>C17: \<open>CRC16_MODBUS\<close> computes the reflected CRC-16 (polynomial 0xA001, start value 0xFFFF) of
  the first \<open>n\<close> bytes, and reads past the buffer exactly when there are fewer.\<close>

theorem checksum_is_crc16:
  "CRC16_MODBUS bs n = (if n \<le> length bs then Some (crc16 (take n bs)) else None)"
  by (rule CRC16_MODBUS_eq)

text \<open>C18: a frame followed by its checksum, low byte first, has checksum 0.\<close>

theorem checksum_of_checked_frame:
  assumes "CRC16_MODBUS bs (length bs) = Some c"
  shows "CRC16_MODBUS (bs @ le16 c) (length bs + 2) = Some 0"
  using assms crc16_trailer [of bs] by (simp add: CRC16_MODBUS_eq le16_def split: if_splits)

theorem checksum_of_checked_frame_witness:
  "CRC16_MODBUS ([0x01, 0x02] @ le16 0xE181) (length [0x01, 0x02 :: u8] + 2) = Some 0"
proof (rule checksum_of_checked_frame)
  show "CRC16_MODBUS [0x01, 0x02] (length [0x01, 0x02 :: u8]) = Some 0xE181" by code_simp
qed

text \<open>C19: the checksum detects every error burst within two neighbouring bytes, wherever in the frame.\<close>

theorem checksum_detects_bursts:
  assumes "CRC16_MODBUS (xs @ [a, b] @ ys) n = Some c" and "n = length xs + 2 + length ys" and "(a, b) \<noteq> (a', b')"
  shows "CRC16_MODBUS (xs @ [a', b'] @ ys) n \<noteq> Some c"
  using assms crc16_burst [of xs a b ys a' b'] by (auto simp: CRC16_MODBUS_eq)

theorem checksum_detects_bursts_witness:
  "CRC16_MODBUS ([0x7E] @ [0x12, 0x34] @ []) 3 \<noteq> CRC16_MODBUS ([0x7E] @ [0x12, 0x35] @ []) 3"
proof -
  obtain c where c: "CRC16_MODBUS ([0x7E] @ [0x12, 0x34] @ []) 3 = Some c" by (simp add: CRC16_MODBUS_eq)
  have "CRC16_MODBUS ([0x7E] @ [0x12, 0x35] @ []) 3 \<noteq> Some c" by (rule checksum_detects_bursts [OF c]) simp_all
  then show ?thesis using c by metis
qed

section \<open>Sensors\<close>



text \<open>C21: thirteen stored rainfall samples of an hour become the twelve five-minute values of the hourly report:
  the pulses in between in tenths of a millimetre, and 0xff where the count went down.\<close>

theorem hourly_rainfall_values:
  assumes "length ks = 13" and "\<And>i. i < 13 \<Longrightarrow> ks ! i < 200000" and "\<And>i. i < 12 \<Longrightarrow> ks ! Suc i \<le> ks ! i + 51"
  shows "HourRainFallSaveData_To_FiveMinuteRelativeValue (concat (map (\<lambda>k. store3 (of_nat (bcd_of (5 * k)))) ks)) =
    Some (map (\<lambda>i. if ks ! i \<le> ks ! Suc i then of_nat (5 * (ks ! Suc i - ks ! i)) else 0xff) [0..<12])"
  using assms by (rule hour_pulses)

theorem hourly_rainfall_values_witness:
  "HourRainFallSaveData_To_FiveMinuteRelativeValue (concat (map (\<lambda>k. store3 (of_nat (bcd_of (5 * k)))) ([9, 0] @ replicate 11 51))) =
    Some ([0xff, 255] @ replicate 10 0)"
proof -
  define ks :: "nat list" where "ks = [9, 0] @ replicate 11 51"
  have "ks ! Suc i \<le> ks ! i + 51" if "i < 12" for i
    using that by (auto simp: ks_def nth_append nth_Cons split: nat.splits)
  moreover have "ks ! i < 200000" if "i < 13" for i
    using that by (auto simp: ks_def nth_append nth_Cons split: nat.splits)
  ultimately have "HourRainFallSaveData_To_FiveMinuteRelativeValue (concat (map (\<lambda>k. store3 (of_nat (bcd_of (5 * k)))) ks)) =
    Some (map (\<lambda>i. if ks ! i \<le> ks ! Suc i then of_nat (5 * (ks ! Suc i - ks ! i)) else 0xff) [0..<12])"
    by (intro hourly_rainfall_values) (simp_all add: ks_def)
  also have "\<dots> = Some ([0xff, 255] @ replicate 10 0)" unfolding ks_def by code_simp
  finally show ?thesis unfolding ks_def .
qed

section \<open>Modem\<close>

text \<open>C22: whatever the modem answers, \<open>GPRS_4G_Init\<close> ends after at most three turns, either with 0 and all three
  connection flags set, or with -1 and all three cleared; the error counter stays below three.\<close>

theorem connecting_ends_consistent:
  assumes "s_error_cnt s < 3"
  shows "\<exists>r s'. GPRS_4G_Init b s = (r, s') \<and> s_error_cnt s' < 3 \<and>
     (r = 0 \<and> s_gprs_init_flag s' \<and> s_gprs_net_flag s' \<and> s_gprs_connect_flag s' \<or>
      r = - 1 \<and> \<not> s_gprs_init_flag s' \<and> \<not> s_gprs_net_flag s' \<and> \<not> s_gprs_connect_flag s')"
  unfolding GPRS_4G_Init_def by (rule init_turns_link [OF _ assms]) (simp add: link_def)

theorem connecting_ends_consistent_witness:
  "\<exists>r s'. GPRS_4G_Init bench_board (powered (bench_at 0)) = (r, s') \<and> (r = 0 \<or> r = - 1)"
proof -
  have "s_error_cnt (powered (bench_at 0)) < 3" by (simp add: powered_def)
  from connecting_ends_consistent [OF this, of bench_board] show ?thesis by blast
qed

text \<open>C23: from a received block the parser takes the peer's address and port and the data, but the first carriage
  return, line feed or NUL in the data is overwritten with 0; data without them arrive unchanged
  (the first byte is taken to be none of the three).\<close>

theorem received_block_is_parsed:
  assumes "field_ok ip" and "length ip < length ip_information" and "field_ok port" and "length port < length port_buff"
    and "payload = p # ps" and "\<not> stops p" and "0 \<in> set others" and "length payload < 10000" and "length payload \<le> length recv"
  shows "\<exists>buf. Analysis_Data_FromGPRS (received_block ip port payload others) ip_information port_buff recv =
    Some (length payload, buf, ip @ 0 # drop (Suc (length ip)) ip_information, port @ 0 # drop (Suc (length port)) port_buff,
      cut_off payload @ drop (length payload) recv)"
  using assms by (rule Analysis_block)

theorem received_block_is_parsed_witness:
  "\<exists>buf ip' port'. Analysis_Data_FromGPRS (received_block (bytes ''1.2.3.4'') (bytes ''80'') [0x7E, 0x0A, 0x7E, 0x0D] [0]) (replicate 20 0) (replicate 10 0) [1, 2, 3, 4, 5] =
    Some (length [0x7E, 0x0A, 0x7E, 0x0D :: u8], buf, ip', port', [0x7E, 0x00, 0x7E, 0x0D, 5])"
proof -
  have f: "field_ok (bytes ''1.2.3.4'')" "field_ok (bytes ''80'')" by code_simp+
  have l: "length (bytes ''1.2.3.4'') = 7" "length (bytes ''80'') = 2" by (simp_all add: bytes_def)
  have c: "cut_off [0x7E, 0x0A, 0x7E, 0x0D] = [0x7E, 0x00, 0x7E, 0x0D]" by code_simp
  have "\<not> stops 0x7E" by (simp add: stops_def)
  from received_block_is_parsed [OF f(1) _ f(2) _ refl this, of "replicate 20 0" "replicate 10 0" "[0]" "[0x0A, 0x7E, 0x0D]" "[1, 2, 3, 4, 5]"]
  show ?thesis by (simp add: l c) blast
qed

section \<open>The console\<close>

text \<open>C24: whatever sequence of bytes and idle interrupts the console port receives, the interrupt handler
  never writes outside its buffer of 200 bytes, and keeps its status word consistent with it.\<close>

theorem console_buffer_safe:
  assumes "rx_ok s"
  shows "\<exists>s'. receive_all evs s = Some s' \<and> rx_ok s'"
  using assms by (rule receive_all_ok)

definition idle_console :: usart1 where
  "idle_console = \<lparr>USART_RX_BUF = replicate 200 0, USART_RX_STA = 0, g_usart1_recveive_cnt = 0, g_usart1_receive_stat = 0\<rparr>"

theorem console_buffer_safe_witness:
  "\<exists>s'. receive_all (replicate 500 (RXNE 0x41)) idle_console = Some s' \<and> rx_ok s'"
proof -
  have "rx_ok idle_console" by (simp add: rx_ok_def idle_console_def USART_REC_LEN_def)
  then show ?thesis by (rule console_buffer_safe)
qed



text \<open>C26: the transmit loop of the console returns exactly for lengths below 256, having sent the bytes in
  order; for longer ones its 8-bit counter never reaches the length.\<close>

theorem console_send_terminates:
  assumes "unat len \<le> length buf"
  shows "Usart1_Send buf len = (if unat len < 256 then Some (take (unat len) buf) else None)"
  using Usart1_Send_ok [OF _ assms] Usart1_Send_None [of len buf] by simp

theorem console_send_terminates_witness:
  "Usart1_Send (replicate 300 0x2A) 300 = None \<and> Usart1_Send [1, 2, 3] 2 = Some [1, 2]"
proof -
  have l: "unat (300 :: u32) \<le> length (replicate 300 (0x2A :: u8))" "unat (2 :: u32) \<le> length [1 :: u8, 2, 3]" by simp_all
  have "unat (2 :: u32) = 2" by simp
  then have t: "take (unat (2 :: u32)) [1 :: u8, 2, 3] = [1, 2]" by (simp only: numeral_2_eq_2 take_Suc_Cons take_0)
  show ?thesis using console_send_terminates [OF l(1)] console_send_terminates [OF l(2)] unfolding t by simp
qed

text \<open>C27: a log message borrows two buffers of the external pool and gives both back, on every path: with room
  for them, the pool holds afterwards the allocations it held before, and the message has been printed
  unless its level is above the level set.\<close>

theorem log_message_keeps_pool:
  assumes "pool_ok (log_heap s) SRAMEX A" and "pool_base_ok (log_heap s)" and "free_run (memmap (log_heap s) ! SRAMEX) k 64"
    and "RTC_ReadDate b (log_stack_time s) (log_world s) = (ok, t, w)"
  shows "\<exists>s'. sw_log b name lvl fmt vl s = Some s' \<and> pool_ok (log_heap s') SRAMEX A \<and>
    log_out s' = (if lvl > sw_log_level s then log_out s else log_out s @ [log_line ok t name lvl fmt vl])"
  using sw_log_ok [OF assms] by blast

text \<open>The pools at their addresses, before their first use.\<close>

definition fresh_pools :: mallco_dev where
  "fresh_pools = empty_heap\<lparr>membase := [0x20000000, 0x68000000]\<rparr>"

theorem log_message_keeps_pool_witness:
  "\<exists>dev s'. sw_log bench_board ''main'' 1 ''start'' (\<lambda>f. f)
      \<lparr>log_world = new_bench, log_heap = dev, log_out = [], sw_log_level = 7, log_stack_time = zero_time\<rparr> = Some s' \<and>
    pool_ok (log_heap s') SRAMEX {} \<and> length (log_out s') = 1"
proof -
  have "shaped fresh_pools" using shaped_empty by (simp add: fresh_pools_def shaped_def)
  from my_mem_init_ok [OF this, of SRAMEX] obtain dev where
    i: "my_mem_init fresh_pools SRAMEX = Some dev" "pool_ok dev SRAMEX {}" by (auto simp: SRAMEX_def)
  have b: "pool_base_ok dev" using membase_init [OF i(1)] by (simp add: pool_base_ok_def fresh_pools_def SRAMEX_def)
  have "length (memmap dev ! SRAMEX) = 30720" using i(2) shaped_lengths(3) [of dev SRAMEX]
    by (simp add: pool_ok_def memtblsize_def SRAMEX_def)
  then have f: "free_run (memmap dev ! SRAMEX) 0 64" using i(2) by (simp add: pool_ok_def represents_def free_run_def)
  let ?s = "\<lparr>log_world = new_bench, log_heap = dev, log_out = [], sw_log_level = 7, log_stack_time = zero_time\<rparr>"
  obtain ok t w where r: "RTC_ReadDate bench_board (log_stack_time ?s) (log_world ?s) = (ok, t, w)" by (rule prod_cases3)
  show ?thesis
    using log_message_keeps_pool [of ?s "{}" 0, OF _ _ _ r, of "''main''" 1 "''start''" "\<lambda>f. f"] i(2) b f by fastforce
qed

section \<open>The phone\<close>

text \<open>C28: the phone changes the address of the station. A frame of 13 to 50 bytes with that request in the
  receive queue of the UART bridge makes one turn of the bluetooth task store the parameters of
  \<open>g_rtu_parameters\<close> with the new address, and nothing of what was stored before, change no other cell of the
  flash, and answer with the frame itself, its direction bit cleared. (The firmware never
  loads \<open>g_rtu_parameters\<close> from flash: parameters set over RS232 are lost here.)\<close>

theorem phone_changes_address:
  assumes "phone b cells busy wel code sent_on pending rxq"
    and "busy (world s) = 0" and "param_wf (g_rtu_parameters s)" and "length buff = 50"
    and "rxq (world s) 1 = q" and "13 \<le> length q" and "length q \<le> 50" and "q ! 2 = BT_MODIFY_RTU_PARAMETERS_FUNID"
    and "q ! 6 = REMOTE_ADDR_GUIDE_ID" and "pending (world s) 1 + length q \<le> 256"
    and "p = (g_rtu_parameters s)\<lparr>rtu_remote_addr := take 5 (drop 8 q)\<rparr>"
  shows "\<exists>buff' s'. bluetooth_turn b buff s = Some (buff', s') \<and> busy (world s') = 0 \<and> g_rtu_parameters s' = p \<and>
    cells (world s') = mem_write (cells (world s)) 0x080010 (param_bytes p) \<and> stored_parameters (cells (world s')) = p \<and>
    rxq (world s') 1 = [] \<and> sent_on (world s') 1 = sent_on (world s) 1 @ q[3 := (q ! 3) AND 0x7F]"
  using assms(2-) by (rule phone.address_turn [OF assms(1)])

definition address_frame :: "u8 list" where
  "address_frame = [0x7E, 0x7E, 0x42, 0x80, 0x07, 0x02, 0xF2, 0x28, 0x00, 0x12, 0x34, 0x56, 0x78, 0x0D, 0x0A]"

theorem phone_changes_address_witness:
  "\<exists>buff' s'. bluetooth_turn bench_board (replicate 50 0)
      (powered ((bench_at 0)\<lparr>bridge := \<lparr>wk_sent = (\<lambda>_. []), wk_rx = (\<lambda>_. [])(1 := address_frame)\<rparr>\<rparr>)) = Some (buff', s') \<and>
    rtu_remote_addr (stored_parameters (w_cells (flash (world s')))) = [0x00, 0x12, 0x34, 0x56, 0x78] \<and>
    wk_sent (bridge (world s')) 1 = address_frame[3 := 0x00]"
proof -
  let ?s = "powered ((bench_at 0)\<lparr>bridge := \<lparr>wk_sent = (\<lambda>_. []), wk_rx = (\<lambda>_. [])(1 := address_frame)\<rparr>\<rparr>)"
  have g: "g_rtu_parameters ?s = zero_parameters" "param_wf zero_parameters"
    by (simp add: powered_def, simp add: zero_parameters_def param_wf_param_of)
  have f: "length address_frame = 15" "address_frame ! 2 = 0x42" "address_frame ! 6 = 0xF2"
    "take 5 (drop 8 address_frame) = [0x00, 0x12, 0x34, 0x56, 0x78]" "address_frame ! 3 AND 0x7F = 0"
    by (simp_all add: address_frame_def)
  show ?thesis
    using phone_changes_address [OF bench_phone.phone_axioms, where s = ?s and buff = "replicate 50 0" and q = address_frame
        and p = "zero_parameters\<lparr>rtu_remote_addr := [0x00, 0x12, 0x34, 0x56, 0x78]\<rparr>"] f g
    by (auto simp: bench_at_def)
qed

text \<open>C29: a frame with 4G parameters overruns the buffer of 20 bytes on the stack exactly when the length in
  its eighth byte is more than 20.\<close>

theorem network_settings_overrun:
  assumes "length buff = 50"
  shows "modify_4g_parameters buff s = None \<longleftrightarrow> 20 < unat (buff ! 7) div 8"
  using content_data_iff [OF assms, of "replicate 20 0"]
  by (cases "get_bluetooth_content_data buff (replicate 20 0)") (auto simp: modify_4g_parameters_def)

theorem network_settings_overrun_witness:
  "modify_4g_parameters (replicate 50 0xF8) (powered (bench_at 0)) = None"
  using network_settings_overrun [of "replicate 50 0xF8"] by simp

section \<open>The tasks together\<close>






definition rainy_time :: Time_Def where
  "rainy_time = zero_time\<lparr>t_day := 0x31, t_month := 0x12, t_hour := 0x23, t_minute := 0x55, t_year := 0x18\<rparr>"

definition rainy :: "bench tasks" where
  "rainy = (tasks_of (powered (bench_at (gray_encode 320))))
     \<lparr>g_rainfall_pluse_count := 25, stack_time := rainy_time, bm_real_time := rainy_time\<rparr>"

lemma rainy_sel [simp]: "world rainy = bench_at (gray_encode 320)" "g_rainfall_pluse_count rainy = 25" "stack_time rainy = rainy_time"
  "bm_real_time rainy = rainy_time" "bm_last_minutes rainy = 0xFF" "s_monthday rainy = init_monthday"
  "last_fiveminute_rainfall_data_count rainy = 0"
  by (simp_all add: rainy_def)










text \<open>C35: reading the UART bridge. With up to 255 bytes in the receive queue of a port, \<open>Wk2xxxGetBuf\<close> returns their
  number, the bytes at the start of the buffer, and leaves the queue empty; with 256 it never returns.\<close>

theorem bridge_receive:
  assumes "uart_bridge spi sent_on pending rxq" and "p \<in> {1, 2, 3, 4}"
    and "length (rxq c p) \<le> 256" and "length (rxq c p) \<le> length buf"
  shows "if length (rxq c p) = 256 then Wk2xxxGetBuf spi p buf c = None
    else \<exists>c'. Wk2xxxGetBuf spi p buf c = Some (of_nat (length (rxq c p)), rxq c p @ drop (length (rxq c p)) buf, c') \<and>
      rxq c' = (rxq c)(p := []) \<and> sent_on c' = sent_on c"
  using uart_bridge.GetBuf_ok [OF assms(1,2) _ assms(4)] uart_bridge.GetBuf_full [OF assms(1,2)] assms(3) by fastforce

theorem bridge_receive_witness:
  "Wk2xxxGetBuf wk_spi 1 (replicate 300 0) \<lparr>wk_sent = (\<lambda>_. []), wk_rx = (\<lambda>_. replicate 256 0x7E)\<rparr> = None"
  using bridge_receive [OF wk.uart_bridge_axioms, of 1 "\<lparr>wk_sent = (\<lambda>_. []), wk_rx = (\<lambda>_. replicate 256 0x7E)\<rparr>" "replicate 300 0"]
  by simp

section \<open>Serial lines and pictures\<close>

text \<open>C36: the receive interrupt of the four serial lines. It returns, with the bytes of each line at the start of its
  buffer and their number, exactly when no line has more bytes than its buffer takes, 255 for RS485 and
  256 for the others; a longer burst is written past the end of the buffer.\<close>

theorem serial_burst:
  assumes "uart554 bus line_in line_out wait"
    and "length (RS485_1_Receive p) = 255" and "length (RS232_2_Recv p) = 256" and "length (RS232_3_Recv s) = 256"
    and "length (RS232_4_Recv p) = 256"
  shows "if length (line_in 0 (world s)) \<le> 255 \<and> (\<forall>q \<in> {1, 2, 3}. length (line_in q (world s)) \<le> 256)
    then \<exists>p' s'. ST16C554D_interrupt bus p s = Some (p', s') \<and>
      (RS485_1_Receive p', RS485_1_Address p') = received (line_in 0 (world s)) (RS485_1_Receive p, RS485_1_Address p) \<and>
      (RS232_2_Recv p', RS232_2_Recv_Address p') = received (line_in 1 (world s)) (RS232_2_Recv p, RS232_2_Recv_Address p) \<and>
      (RS232_3_Recv s', RS232_3_Recv_Address s') = received (line_in 2 (world s)) (RS232_3_Recv s, RS232_3_Recv_Address s) \<and>
      (RS232_4_Recv p', RS232_4_Recv_Address p') = received (line_in 3 (world s)) (RS232_4_Recv p, RS232_4_Recv_Address p) \<and>
      (\<forall>q \<in> channels. line_in q (world s') = [])
    else ST16C554D_interrupt bus p s = None"
proof -
  note i = uart554.interrupt_burst [OF assms(1), of s p]
  have fits: "(length (line_in 0 (world s)) \<le> length (RS485_1_Receive p) \<and> length (line_in 1 (world s)) \<le> length (RS232_2_Recv p) \<and>
      length (line_in 2 (world s)) \<le> length (RS232_3_Recv s) \<and> length (line_in 3 (world s)) \<le> length (RS232_4_Recv p)) \<longleftrightarrow>
    length (line_in 0 (world s)) \<le> 255 \<and> (\<forall>q \<in> {1, 2, 3}. length (line_in q (world s)) \<le> 256)" (is "_ \<longleftrightarrow> ?fits")
    by (simp add: assms(2-5))
  show ?thesis
  proof (cases ?fits)
    case True
    from i [unfolded fits if_P [OF this]] obtain p' w' where
      1: "ST16C554D_interrupt bus p s = Some (p', s\<lparr>RS232_3_Recv := fst (received (line_in 2 (world s)) (RS232_3_Recv s, RS232_3_Recv_Address s)),
          RS232_3_Recv_Address := snd (received (line_in 2 (world s)) (RS232_3_Recv s, RS232_3_Recv_Address s)), world := w'\<rparr>)"
      and 2: "(RS485_1_Receive p', RS485_1_Address p') = received (line_in 0 (world s)) (RS485_1_Receive p, RS485_1_Address p)"
        "(RS232_2_Recv p', RS232_2_Recv_Address p') = received (line_in 1 (world s)) (RS232_2_Recv p, RS232_2_Recv_Address p)"
        "(RS232_4_Recv p', RS232_4_Recv_Address p') = received (line_in 3 (world s)) (RS232_4_Recv p, RS232_4_Recv_Address p)"
        "\<forall>q \<in> channels. line_in q w' = []"
      by (elim exE conjE)
    show ?thesis unfolding if_P [OF True] by (intro exI conjI, rule 1) (use 2 in simp_all)
  next
    case False
    then show ?thesis using i [unfolded fits] by (simp only: if_False)
  qed
qed

definition quiet_ports :: ports where
  "quiet_ports = \<lparr>RS485_1_Receive = replicate 255 0, RS485_1_Address = 0, RS232_2_Recv = replicate 256 0, RS232_2_Recv_Address = 0,
     RS232_4_Recv = replicate 256 0, RS232_4_Recv_Address = 0\<rparr>"

definition line_2_has :: "u8 list \<Rightarrow> uart_chip" where
  "line_2_has data = \<lparr>chip_in = (\<lambda>_. [])(2 := data), chip_out = (\<lambda>_. []), chip_wait = (\<lambda>_. 0)\<rparr>"

abbreviation chip_bus :: "uart_chip bus" where "chip_bus \<equiv> \<lparr>bus_read = chip_read, bus_write = chip_write\<rparr>"

theorem serial_burst_witness:
  "\<forall>s :: uart_chip tasks. ST16C554D_interrupt chip_bus quiet_ports
     (s\<lparr>RS232_3_Recv := replicate 256 0, world := line_2_has (replicate 257 0x7E)\<rparr>) = None"
proof
  fix s :: "uart_chip tasks"
  let ?s = "s\<lparr>RS232_3_Recv := replicate 256 0, world := line_2_has (replicate 257 0x7E)\<rparr>"
  have "\<not> (length (chip_in (world ?s) 0) \<le> 255 \<and> (\<forall>q \<in> {1, 2, 3}. length (chip_in (world ?s) q) \<le> 256))"
    by (simp add: line_2_has_def)
  from serial_burst [OF chip.uart554_axioms, of quiet_ports ?s, unfolded if_not_P [OF this]]
  show "ST16C554D_interrupt chip_bus quiet_ports ?s = None" by (simp only: quiet_ports_def ports.simps) simp
qed



text \<open>C38: a packet crosses the wire. \<open>DM9000_SendPacket\<close> with the lock free ends, puts the packet on the line as it is,
  however it is cut into buffers, and frees the lock; and a station whose chip has received that
  packet with a good status hands it on unchanged, in whatever buffers LWIP gives, and leaves the next one in the chip.\<close>

theorem packet_crosses_wire:
  assumes "dm9000_chip net1 view1" and "dm9000_chip net2 view2"
    and "\<not> dm9000lock st1" and "n_tx (view1 (e_world st1)) = []"
    and "64 \<le> length (concat p)" and "length (concat p) \<le> 1536"
    and "\<not> dm9000lock st2" and "n_rx (view2 (e_world st2)) = status # of_nat (length (concat p)) # words_of (concat p) @ later"
    and "status AND 0xBF00 = 0"
    and "\<And>w. \<exists>qs w'. p_alloc pool (of_nat (length (concat p))) w = (Some qs, w') \<and> view2 w' = view2 w \<and> chain_ok (length (concat p)) qs"
  shows "\<exists>w1 p' w2. DM9000_SendPacket net1 p st1 = Some (st1\<lparr>e_world := w1\<rparr>) \<and>
    n_line (view1 w1) = n_line (view1 (e_world st1)) @ [concat p] \<and>
    DM9000_Receive_Packet net2 pool st2 = Some (Some p', st2\<lparr>e_world := w2\<rparr>) \<and> concat p' = concat p \<and> n_rx (view2 w2) = later"
proof -
  have "length (concat p) < 65536" using assms(6) by simp
  then show ?thesis
    using dm9000_chip.SendPacket_ok [OF assms(1,3,4)] dm9000_chip.Receive_Packet_ok [OF assms(2,7,8,9,5,6,10)] by blast
qed

definition idle_chip :: nic_view where
  "idle_chip = \<lparr>n_index = 0, n_stale = True, n_rx = [], n_tx = [], n_low = 0, n_high = 0, n_busy = 0, n_line = []\<rparr>"

definition idle_ether :: "nic_view ether" where
  "idle_ether = \<lparr>e_world = idle_chip, dm9000cfg = init_config 0, dm9000lock = False, dm9000input = 0\<rparr>"

definition long_packet :: "u8 list list" where
  "long_packet = [replicate 101 0x55, replicate 900 0xAA]"

theorem packet_crosses_wire_witness:
  "\<exists>w1 p' w2. DM9000_SendPacket (bench_nic 1) long_packet idle_ether = Some (idle_ether\<lparr>e_world := w1\<rparr>) \<and>
    n_line w1 = [replicate 101 0x55 @ replicate 900 0xAA] \<and>
    DM9000_Receive_Packet (bench_nic 1) bench_pool
      (idle_ether\<lparr>e_world := idle_chip\<lparr>n_rx := 0x0001 # 1001 # words_of (replicate 101 0x55 @ replicate 900 0xAA)\<rparr>\<rparr>)
      = Some (Some p', idle_ether\<lparr>e_world := w2\<rparr>) \<and> concat p' = replicate 101 0x55 @ replicate 900 0xAA"
proof -
  let ?d = "replicate 101 (0x55 :: u8) @ replicate 900 0xAA"
  let ?st2 = "idle_ether\<lparr>e_world := idle_chip\<lparr>n_rx := 0x0001 # 1001 # words_of ?d\<rparr>\<rparr>"
  have d: "concat long_packet = ?d" "length ?d = 1001" by (simp_all add: long_packet_def)
  have s: "\<not> dm9000lock idle_ether" "n_tx (e_world idle_ether) = []" "\<not> dm9000lock ?st2" "n_line (e_world idle_ether) = []"
    by (simp_all add: idle_ether_def idle_chip_def)
  have rx: "n_rx (e_world ?st2) = 0x0001 # of_nat (length (concat long_packet)) # words_of (concat long_packet) @ []"
    unfolding d by simp
  have l: "64 \<le> length (concat long_packet)" "length (concat long_packet) \<le> 1536" unfolding d by simp_all
  have f: "(0x0001 :: u16) AND 0xBF00 = 0" by simp
  have pool: "\<exists>qs w'. p_alloc bench_pool (of_nat (length (concat long_packet))) w = (Some qs, w') \<and> w' = w \<and> chain_ok (length (concat long_packet)) qs"
    for w :: nic_view
    using cut_ok [of 1001 200] unfolding d by (simp add: bench_pool_def)
  show ?thesis
    using packet_crosses_wire [OF eth.dm9000_chip_axioms eth.dm9000_chip_axioms s(1,2) l s(3) rx f pool] unfolding d s(4) by (simp del: replicate.simps) blast
qed

text \<open>C39: a receive error stops the Ethernet driver for good. When the packet flag of the chip is neither 0 nor 1,
  \<open>DM9000_Receive_Packet\<close> returns no packet and keeps the lock, so that from then on neither
  receiving nor sending returns.\<close>

theorem receive_error_keeps_lock:
  assumes "\<not> dm9000lock st" and "DM9000_ReadReg net DM9000_MRCMDX (e_world st) = (x, w1)" and "nic_get net w1 = (v, w2)"
    and "(ucast v :: u8) > 1"
  shows "\<exists>st'. DM9000_Receive_Packet net pool st = Some (None, st') \<and>
    DM9000_Receive_Packet net pool st' = None \<and> DM9000_SendPacket net p st' = None"
  using assms by (rule receive_error)

theorem receive_error_keeps_lock_witness:
  "\<exists>st'. DM9000_Receive_Packet (bench_nic 0x21) bench_pool (idle_ether\<lparr>e_world := idle_chip\<lparr>n_rx := [1]\<rparr>\<rparr>) = Some (None, st') \<and>
    DM9000_SendPacket (bench_nic 0x21) [[1, 2, 3]] st' = None"
proof -
  let ?st = "idle_ether\<lparr>e_world := idle_chip\<lparr>n_rx := [1]\<rparr>\<rparr>"
  let ?w = "idle_chip\<lparr>n_rx := [1], n_index := DM9000_MRCMDX, n_stale := False\<rparr>"
  have "\<not> dm9000lock ?st" "DM9000_ReadReg (bench_nic 0x21) DM9000_MRCMDX (e_world ?st) = (0, ?w)" "nic_get (bench_nic 0x21) ?w = (0x21, ?w)"
    by (simp_all add: idle_ether_def idle_chip_def DM9000_ReadReg_def bench_nic_def bench_get_def nic_registers)
  from receive_error_keeps_lock [OF this] show ?thesis by auto
qed





end
